(* ===== verification/Prelude.thy ===== *)
theory Prelude
  imports Main "HOL-Library.Word"
begin

text \<open>
  What every component shares: the C++ integer types as words, the faults a C++ program can
  run into (as values), the byte order conversions of \<^verbatim>\<open>arpa/inet.h\<close>, reading and writing
  the fields of a packed struct in host memory, and the decimal and hexadecimal rendering that
  \<^verbatim>\<open>std::to_string\<close> and \<^verbatim>\<open>std::stringstream\<close> produce.

  The host is little-endian with 64-bit \<^verbatim>\<open>size_t\<close>, 32-bit \<^verbatim>\<open>int\<close> (the platform the Makefiles
  build for), so a \<^verbatim>\<open>uint16_t\<close> at offset \<open>n\<close> of a struct has its low byte at \<open>n\<close>.
\<close>

unbundle bit_operations_syntax

section \<open>Collections of rules\<close>

named_theorems byte_simps \<open>inverses between words and their bytes\<close>
named_theorems layout_simps \<open>sizes and field positions of the packet structs\<close>

section \<open>Types\<close>

type_synonym u8 = "8 word"
type_synonym u16 = "16 word"
type_synonym u32 = "32 word"
type_synonym bytes = "8 word list"

text \<open>
  What stops a C++ computation other than a return: an exception no handler of the program
  catches, or undefined behaviour. The program has no \<^verbatim>\<open>try\<close>, so each of the exceptions ends
  the process. \<open>Inl f\<close> is the fault, \<open>Inr x\<close> the normal result.
\<close>

datatype fault =
    Length_Error          \<comment> \<open>\<^verbatim>\<open>std::length_error\<close> from \<^verbatim>\<open>vector::resize\<close> / \<^verbatim>\<open>reserve\<close>\<close>
  | Missing_Key           \<comment> \<open>\<^verbatim>\<open>std::out_of_range\<close> from \<^verbatim>\<open>unordered_map::at\<close>\<close>
  | Bad_Number            \<comment> \<open>\<^verbatim>\<open>std::invalid_argument\<close> / \<^verbatim>\<open>out_of_range\<close> from \<^verbatim>\<open>std::stoi\<close>\<close>
  | Uninitialised_Read    \<comment> \<open>a value is read that was never written\<close>
  | Empty_Front           \<comment> \<open>\<^verbatim>\<open>vector::front\<close> or \<^verbatim>\<open>erase\<close> on an empty vector\<close>
  | Out_Of_Bounds         \<comment> \<open>an array is read or written outside its bounds\<close>
  | Division_By_Zero      \<comment> \<open>\<^verbatim>\<open>%\<close> with divisor 0\<close>
  | Use_After_Free        \<comment> \<open>a member of a destroyed object is accessed\<close>
  | Range_Error           \<comment> \<open>\<^verbatim>\<open>std::out_of_range\<close> from \<^verbatim>\<open>string::substr\<close>\<close>
  | Int_Overflow          \<comment> \<open>an \<^verbatim>\<open>int\<close> leaves its range\<close>
  | Waiting               \<comment> \<open>no exception: a retry loop or a blocking call still waits\<close>
  | Endless               \<comment> \<open>no exception: a loop that never ends\<close>

definition and_then :: "fault + 'a \<Rightarrow> ('a \<Rightarrow> fault + 'b) \<Rightarrow> fault + 'b" where
  "and_then m f = (case m of Inl e \<Rightarrow> Inl e | Inr x \<Rightarrow> f x)"

lemma and_then_Inl [simp]: "and_then (Inl e) f = Inl e"
  by (simp add: and_then_def)

lemma and_then_Inr [simp]: "and_then (Inr x) f = f x"
  by (simp add: and_then_def)

lemma and_then_eq_Inr_iff:
  "and_then m f = Inr y \<longleftrightarrow> (\<exists>x. m = Inr x \<and> f x = Inr y)"
  by (cases m) auto

lemma and_then_assoc: "and_then (and_then m f) g = and_then m (\<lambda>x. and_then (f x) g)"
  by (cases m) auto

lemma unat_8_lt: "unat (w :: u8) < 2 ^ 8"
  using unsigned_less [where ?'a = nat, of w] by simp

lemma unat_16_lt: "unat (w :: u16) < 2 ^ 16"
  using unsigned_less [where ?'a = nat, of w] by simp

lemma unat_of_nat16: "n < 2 ^ 16 \<Longrightarrow> unat (of_nat n :: u16) = n"
  by (simp add: unsigned_of_nat take_bit_nat_eq_self)

lemma unat_32_lt: "unat (w :: u32) < 2 ^ 32"
  using unsigned_less [where ?'a = nat, of w] by simp

text \<open>\<^verbatim>\<open>++\<close> on an \<^verbatim>\<open>int\<close>.\<close>

definition int_inc :: "int \<Rightarrow> fault + int" where
  "int_inc i = (if i < 2 ^ 31 - 1 then Inr (i + 1) else Inl Int_Overflow)"

lemma int_inc_eq_Inr: "int_inc i = Inr j \<longleftrightarrow> i < 2 ^ 31 - 1 \<and> j = i + 1"
  by (auto simp: int_inc_def)

section \<open>Bytes of words\<close>

text \<open>\<open>byte_of k w\<close> is the \<open>k\<close>-th byte of \<open>w\<close>, counted from the low end.\<close>

definition byte_of :: "nat \<Rightarrow> 'a::len word \<Rightarrow> u8" where
  "byte_of k w = ucast (drop_bit (8 * k) w)"

definition mk16 :: "u8 \<Rightarrow> u8 \<Rightarrow> u16" where
  "mk16 hi lo = push_bit 8 (ucast hi) OR ucast lo"

definition mk32 :: "u8 \<Rightarrow> u8 \<Rightarrow> u8 \<Rightarrow> u8 \<Rightarrow> u32" where
  "mk32 b3 b2 b1 b0 =
     push_bit 24 (ucast b3) OR push_bit 16 (ucast b2) OR push_bit 8 (ucast b1) OR ucast b0"

lemma bit_byte_of: "bit (byte_of k w) n \<longleftrightarrow> n < 8 \<and> bit w (8 * k + n)"
  by (auto simp: byte_of_def bit_simps dest: bit_imp_le_length)

lemma bit_mk16: "bit (mk16 hi lo) n \<longleftrightarrow> (if n < 8 then bit lo n else bit hi (n - 8))"
  by (auto simp: mk16_def bit_simps dest: bit_imp_le_length)

lemma bit_mk32:
  "bit (mk32 b3 b2 b1 b0) n \<longleftrightarrow>
     (if n < 8 then bit b0 n else if n < 16 then bit b1 (n - 8)
      else if n < 24 then bit b2 (n - 16) else bit b3 (n - 24))"
  by (auto simp: mk32_def bit_simps dest: bit_imp_le_length)

lemma byte_of_mk16 [byte_simps, simp]:
  "byte_of 0 (mk16 hi lo) = lo" "byte_of (Suc 0) (mk16 hi lo) = hi"
  by (auto intro!: bit_word_eqI simp: bit_byte_of bit_mk16)

lemma byte_of_mk32 [byte_simps, simp]:
  "byte_of 0 (mk32 b3 b2 b1 b0) = b0" "byte_of (Suc 0) (mk32 b3 b2 b1 b0) = b1"
  "byte_of 2 (mk32 b3 b2 b1 b0) = b2" "byte_of 3 (mk32 b3 b2 b1 b0) = b3"
  by (auto intro!: bit_word_eqI simp: bit_byte_of bit_mk32)

lemma mk16_bytes [byte_simps, simp]: "mk16 (byte_of (Suc 0) w) (byte_of 0 w) = w"
  by (auto intro!: bit_word_eqI simp: bit_byte_of bit_mk16 split: if_splits)

lemma mk32_bytes [byte_simps, simp]:
  "mk32 (byte_of 3 w) (byte_of 2 w) (byte_of (Suc 0) w) (byte_of 0 w) = w"
  by (auto intro!: bit_word_eqI simp: bit_byte_of bit_mk32 split: if_splits)

section \<open>Network byte order\<close>

definition htons :: "u16 \<Rightarrow> u16" where
  "htons w = mk16 (byte_of 0 w) (byte_of 1 w)"

definition htonl :: "u32 \<Rightarrow> u32" where
  "htonl w = mk32 (byte_of 0 w) (byte_of 1 w) (byte_of 2 w) (byte_of 3 w)"

abbreviation ntohs :: "u16 \<Rightarrow> u16" where
  "ntohs \<equiv> htons"

abbreviation ntohl :: "u32 \<Rightarrow> u32" where
  "ntohl \<equiv> htonl"

lemma byte_of_htons [byte_simps, simp]:
  "byte_of 0 (htons w) = byte_of (Suc 0) w" "byte_of (Suc 0) (htons w) = byte_of 0 w"
  by (simp_all add: htons_def)

lemma byte_of_htonl [byte_simps, simp]:
  "byte_of 0 (htonl w) = byte_of 3 w" "byte_of (Suc 0) (htonl w) = byte_of 2 w"
  "byte_of 2 (htonl w) = byte_of (Suc 0) w" "byte_of 3 (htonl w) = byte_of 0 w"
  by (simp_all add: htonl_def)

lemma htons_mk16 [byte_simps, simp]: "htons (mk16 a b) = mk16 b a"
  by (simp add: htons_def)

lemma htonl_mk32 [byte_simps, simp]: "htonl (mk32 a b c d) = mk32 d c b a"
  by (simp add: htonl_def)

lemma htons_htons [byte_simps, simp]: "htons (htons w) = w"
  by (simp add: htons_def)

lemma htonl_htonl [byte_simps, simp]: "htonl (htonl w) = w"
  by (simp add: htonl_def)

section \<open>Fields of a struct in host memory\<close>

text \<open>
  A packet struct is handled by the code both as a struct and, through a cast to
  \<^verbatim>\<open>uint8_t*\<close>, as the bytes it occupies. \<open>mem16\<close> and \<open>mem32\<close> are the bytes of an integer
  member (low byte first); \<open>get8\<close>, \<open>get16\<close>, \<open>get32\<close> and \<open>get_bytes\<close> read a member at an
  offset.
\<close>

definition mem16 :: "u16 \<Rightarrow> bytes" where
  "mem16 w = [byte_of 0 w, byte_of 1 w]"

definition mem32 :: "u32 \<Rightarrow> bytes" where
  "mem32 w = [byte_of 0 w, byte_of 1 w, byte_of 2 w, byte_of 3 w]"

definition get8 :: "nat \<Rightarrow> bytes \<Rightarrow> u8" where
  "get8 n bs = bs ! n"

definition get16 :: "nat \<Rightarrow> bytes \<Rightarrow> u16" where
  "get16 n bs = mk16 (bs ! (n + 1)) (bs ! n)"

definition get32 :: "nat \<Rightarrow> bytes \<Rightarrow> u32" where
  "get32 n bs = mk32 (bs ! (n + 3)) (bs ! (n + 2)) (bs ! (n + 1)) (bs ! n)"

definition get_bytes :: "nat \<Rightarrow> nat \<Rightarrow> bytes \<Rightarrow> bytes" where
  "get_bytes n k bs = take k (drop n bs)"

lemma length_mem16 [layout_simps, simp]: "length (mem16 w) = 2"
  by (simp add: mem16_def)

lemma length_mem32 [layout_simps, simp]: "length (mem32 w) = 4"
  by (simp add: mem32_def)

lemma length_get_bytes [layout_simps, simp]:
  "n + k \<le> length bs \<Longrightarrow> length (get_bytes n k bs) = k"
  by (simp add: get_bytes_def)

text \<open>Reading member after member: each rule passes over the member at the head.\<close>

lemma get8_here [layout_simps]: "get8 0 (b # bs) = b"
  by (simp add: get8_def)

lemma get8_Cons [layout_simps]: "0 < n \<Longrightarrow> get8 n (b # bs) = get8 (n - 1) bs"
  by (cases n) (simp_all add: get8_def)

lemma get16_Cons [layout_simps]: "0 < n \<Longrightarrow> get16 n (b # bs) = get16 (n - 1) bs"
  by (cases n) (simp_all add: get16_def)

lemma get32_Cons [layout_simps]: "0 < n \<Longrightarrow> get32 n (b # bs) = get32 (n - 1) bs"
  by (cases n) (simp_all add: get32_def add.commute)

lemma get_bytes_Cons [layout_simps]: "0 < n \<Longrightarrow> get_bytes n k (b # bs) = get_bytes (n - 1) k bs"
  by (cases n) (simp_all add: get_bytes_def)

lemma get8_append [layout_simps]:
  "length xs \<le> n \<Longrightarrow> get8 n (xs @ ys) = get8 (n - length xs) ys"
  by (simp add: get8_def nth_append)

lemma get16_append [layout_simps]:
  "length xs \<le> n \<Longrightarrow> get16 n (xs @ ys) = get16 (n - length xs) ys"
  by (simp add: get16_def nth_append Suc_diff_le)

lemma get16_mem16 [layout_simps]: "get16 0 (mem16 w @ ys) = w" "get16 0 (mem16 w) = w"
  by (simp_all add: get16_def mem16_def)

lemma get32_append [layout_simps]:
  "length xs \<le> n \<Longrightarrow> get32 n (xs @ ys) = get32 (n - length xs) ys"
by (simp add: get32_def nth_append Suc_diff_le)

lemma get32_mem32 [layout_simps]: "get32 0 (mem32 w @ ys) = w" "get32 0 (mem32 w) = w"
  by (simp_all add: get32_def mem32_def)

lemma get_bytes_append [layout_simps]:
  "length xs \<le> n \<Longrightarrow> get_bytes n k (xs @ ys) = get_bytes (n - length xs) k ys"
  by (simp add: get_bytes_def)

lemma get_bytes_here [layout_simps]:
  "length xs = k \<Longrightarrow> get_bytes 0 k (xs @ ys) = xs" "length xs = k \<Longrightarrow> get_bytes 0 k xs = xs"
  by (simp_all add: get_bytes_def)

text \<open>The bytes a member was read from, and how consecutive members cover a struct.\<close>

lemma take_drop_Suc: "n < length bs \<Longrightarrow> take (Suc k) (drop n bs) = bs ! n # take k (drop (Suc n) bs)"
  by (simp add: Cons_nth_drop_Suc [symmetric])

lemma mem16_get16 [layout_simps]: "n + 2 \<le> length bs \<Longrightarrow> mem16 (get16 n bs) = get_bytes n 2 bs"
  by (simp add: mem16_def get16_def get_bytes_def take_drop_Suc numeral_eq_Suc)

lemma mem32_get32 [layout_simps]: "n + 4 \<le> length bs \<Longrightarrow> mem32 (get32 n bs) = get_bytes n 4 bs"
  using byte_of_mk32 [of "bs ! (n + 3)" "bs ! (n + 2)" "bs ! (n + 1)" "bs ! n"]
  by (simp add: mem32_def get32_def get_bytes_def take_drop_Suc eval_nat_numeral)

lemma get_bytes_cover [layout_simps]:
  "n + k = m \<Longrightarrow> get_bytes n k bs @ drop m bs = drop n bs"
  unfolding get_bytes_def by (metis add.commute append_take_drop_id drop_drop)

lemma get8_cover [layout_simps]:
  "n < length bs \<Longrightarrow> Suc n = m \<Longrightarrow> get8 n bs # drop m bs = drop n bs"
  by (auto simp: get8_def Cons_nth_drop_Suc)

lemma get8_end [layout_simps]: "Suc n = length bs \<Longrightarrow> [get8 n bs] = drop n bs"
  by (metis Cons_nth_drop_Suc drop_all get8_def le_refl lessI)

lemma get_bytes_end [layout_simps]: "n + k = length bs \<Longrightarrow> get_bytes n k bs = drop n bs"
  by (simp add: get_bytes_def)

section \<open>Sockets\<close>

text \<open>\<open>Got bs\<close>: \<^verbatim>\<open>recv\<close> returned \<open>length bs\<close> and wrote \<open>bs\<close>; 0 bytes mean the peer has closed.\<close>

datatype recv_result = Got bytes | Failed

text \<open>The array \<open>buf\<close> after \<open>bs\<close> has been written to its front.\<close>

definition write_front :: "bytes \<Rightarrow> bytes \<Rightarrow> bytes" where
  "write_front bs buf = bs @ drop (length bs) buf"

lemma length_write_front [simp]: "length (write_front bs buf) = max (length bs) (length buf)"
  by (simp add: write_front_def)

lemma take_write_front [simp]: "take (length bs) (write_front bs buf) = bs"
  by (simp add: write_front_def)

end
