(* ===== verification/Circular_Queue.thy ===== *)
theory Circular_Queue
  imports Prelude
begin

text \<open>
  \<^verbatim>\<open>CircularQueue\<close> of \<^verbatim>\<open>server/include/types.hpp\<close> and \<^verbatim>\<open>server/src/types.cpp\<close>, the receive buffer
  of a session: a byte array with a front and a rear index and a count of free bytes. The
  interface \<open>byte_fifo\<close> says what the packet layer and the transfer layer rely on; the class
  implements it by a bounded list of bytes, \<open>cq_list\<close>.

  \<^verbatim>\<open>size_t\<close> values are \<open>nat\<close>s; the one sum that can wrap, in the guard of \<^verbatim>\<open>dequeue\<close>, is
  taken modulo \<open>2 ^ 64\<close>. The array \<^verbatim>\<open>data\<close> is a function on its indices (its contents after
  \<^verbatim>\<open>new uint8_t[_size]\<close> are whatever the allocator left).
\<close>

section \<open>The interface\<close>

fun feed :: "(bytes \<Rightarrow> 'q \<Rightarrow> bool \<times> 'q) \<Rightarrow> bytes list \<Rightarrow> 'q \<Rightarrow> bool \<times> 'q" where
  "feed enq [] q = (True, q)"
| "feed enq (c # cs) q =
     (let (ok, q') = enq c q; (oks, q'') = feed enq cs q' in (ok \<and> oks, q''))"

fun drain :: "(nat \<Rightarrow> 'q \<Rightarrow> bytes option \<times> 'q) \<Rightarrow> nat list \<Rightarrow> 'q \<Rightarrow> bytes option list \<times> 'q" where
  "drain deq [] q = ([], q)"
| "drain deq (n # ns) q =
     (let (r, q') = deq n q; (rs, q'') = drain deq ns q' in (r # rs, q''))"

locale byte_fifo =
  fixes enq :: "bytes \<Rightarrow> 'q \<Rightarrow> bool \<times> 'q"
    and deq :: "nat \<Rightarrow> 'q \<Rightarrow> bytes option \<times> 'q"
    and contents :: "'q \<Rightarrow> bytes"
    and capacity :: "'q \<Rightarrow> nat"
    and invar :: "'q \<Rightarrow> bool"
  assumes within: "invar q \<Longrightarrow> length (contents q) \<le> capacity q"
    and enq_fits: "invar q \<Longrightarrow> length (contents q) + length bs \<le> capacity q \<Longrightarrow>
      fst (enq bs q) \<and> contents (snd (enq bs q)) = contents q @ bs"
    and enq_full: "invar q \<Longrightarrow> capacity q < length (contents q) + length bs \<Longrightarrow>
      enq bs q = (False, q)"
    and enq_keeps: "invar q \<Longrightarrow> invar (snd (enq bs q)) \<and> capacity (snd (enq bs q)) = capacity q"
    and deq_has: "invar q \<Longrightarrow> n \<le> length (contents q) \<Longrightarrow>
      fst (deq n q) = Some (take n (contents q)) \<and> contents (snd (deq n q)) = drop n (contents q)"
    and deq_short: "invar q \<Longrightarrow> length (contents q) < n \<Longrightarrow> n < 2 ^ 63 \<Longrightarrow> deq n q = (None, q)"
    and deq_keeps: "invar q \<Longrightarrow> n < 2 ^ 63 \<Longrightarrow>
      invar (snd (deq n q)) \<and> capacity (snd (deq n q)) = capacity q"
    and capacity_bound: "invar q \<Longrightarrow> capacity q < 2 ^ 63"
begin

lemma deq_some_iff:
  "invar q \<Longrightarrow> n < 2 ^ 63 \<Longrightarrow> fst (deq n q) \<noteq> None \<longleftrightarrow> n \<le> length (contents q)"
  using deq_has [of q n] deq_short [of q n] by (cases "n \<le> length (contents q)") auto

lemma feed_contents:
  "invar q \<Longrightarrow> length (contents q) + length (concat cs) \<le> capacity q \<Longrightarrow>
     fst (feed enq cs q) \<and> contents (snd (feed enq cs q)) = contents q @ concat cs \<and>
     invar (snd (feed enq cs q)) \<and> capacity (snd (feed enq cs q)) = capacity q"
proof (induction cs arbitrary: q)
  case (Cons c cs)
  obtain ok q' where c: "enq c q = (ok, q')" by fastforce
  have "ok" "contents q' = contents q @ c" "invar q'" "capacity q' = capacity q"
    using enq_fits [of q c] enq_keeps [of q c] Cons.prems by (simp_all add: c)
  then show ?case
    using Cons.IH [of q'] Cons.prems by (simp add: c case_prod_beta)
qed simp

text \<open>Chunks in, frames out: how the bytes were cut on the way in does not matter.\<close>

lemma drain_frames:
  "invar q \<Longrightarrow> contents q = concat fs @ rest \<Longrightarrow>
     fst (drain deq (map length fs) q) = map Some fs \<and>
     contents (snd (drain deq (map length fs) q)) = rest \<and>
     invar (snd (drain deq (map length fs) q))"
proof (induction fs arbitrary: q)
  case (Cons f fs)
  obtain r q' where f: "deq (length f) q = (r, q')" by fastforce
  have "length f < 2 ^ 63"
    using within [OF Cons.prems(1)] capacity_bound [OF Cons.prems(1)] Cons.prems(2) by simp
  then have "r = Some f" "contents q' = concat fs @ rest" "invar q'"
    using deq_has [of q "length f"] deq_keeps [of q "length f"] Cons.prems by (simp_all add: f)
  then show ?case
    using Cons.IH [of q'] by (simp add: f case_prod_beta)
qed simp

lemma feed_drain:
  assumes "invar q" "contents q = []" "length (concat cs) \<le> capacity q"
    and "concat cs = concat fs"
  shows "fst (drain deq (map length fs) (snd (feed enq cs q))) = map Some fs"
  using drain_frames [of "snd (feed enq cs q)" fs "[]"] feed_contents [of q cs] assms by simp

end

section \<open>The class\<close>

record circ_queue =
  cq_data :: "nat \<Rightarrow> u8"
  cq_size :: nat
  cq_free :: nat
  cq_front :: nat
  cq_rear :: nat

definition new_queue :: "(nat \<Rightarrow> u8) \<Rightarrow> nat \<Rightarrow> circ_queue" where
  "new_queue fresh init_size =
     \<lparr>cq_data = fresh, cq_size = init_size, cq_free = init_size, cq_front = 0, cq_rear = 0\<rparr>"

definition enq_byte :: "u8 \<Rightarrow> circ_queue \<Rightarrow> circ_queue" where
  "enq_byte b q =
     q\<lparr>cq_data := (cq_data q)(cq_rear q := b),
       cq_rear := (cq_rear q + 1) mod cq_size q,
       cq_free := cq_free q - 1\<rparr>"

fun enq_loop :: "bytes \<Rightarrow> circ_queue \<Rightarrow> circ_queue" where
  "enq_loop [] q = q"
| "enq_loop (b # bs) q = enq_loop bs (enq_byte b q)"

text \<open>\<^verbatim>\<open>enqueue(buf, size)\<close>; \<open>bs\<close> is the \<^verbatim>\<open>size\<close> bytes at \<^verbatim>\<open>buf\<close>.\<close>

definition enqueue :: "bytes \<Rightarrow> circ_queue \<Rightarrow> bool \<times> circ_queue" where
  "enqueue bs q = (if cq_free q < length bs then (False, q) else (True, enq_loop bs q))"

fun deq_loop :: "nat \<Rightarrow> circ_queue \<Rightarrow> bytes \<times> circ_queue" where
  "deq_loop 0 q = ([], q)"
| "deq_loop (Suc n) q =
     (let (bs, q') = deq_loop n (q\<lparr>cq_front := (cq_front q + 1) mod cq_size q\<rparr>)
      in (cq_data q (cq_front q) # bs, q'))"

text \<open>
  \<^verbatim>\<open>dequeue(buf, size)\<close>: \<open>Some\<close> of the bytes written to \<^verbatim>\<open>buf\<close>, or \<open>None\<close> when it returns
  false and leaves \<^verbatim>\<open>buf\<close> alone. The sum in the guard is a \<^verbatim>\<open>size_t\<close> sum.
\<close>

definition dequeue :: "nat \<Rightarrow> circ_queue \<Rightarrow> bytes option \<times> circ_queue" where
  "dequeue n q =
     (if (cq_free q + n) mod 2 ^ 64 > cq_size q then (None, q)
      else (let (bs, q') = deq_loop n q
            in (Some bs, q'\<lparr>cq_free := (cq_free q' + n) mod 2 ^ 64\<rparr>)))"

definition get_num_free_bytes :: "circ_queue \<Rightarrow> nat" where
  "get_num_free_bytes q = cq_free q"

definition queue_size :: "circ_queue \<Rightarrow> nat" where
  "queue_size q = cq_size q - cq_free q"

definition is_empty_queue :: "circ_queue \<Rightarrow> bool" where
  "is_empty_queue q \<longleftrightarrow> cq_free q = cq_size q"

definition is_full_queue :: "circ_queue \<Rightarrow> bool" where
  "is_full_queue q \<longleftrightarrow> cq_free q = 0"

definition kHeaderSize :: nat where
  "kHeaderSize = 4"

definition kMaxPacketLength :: nat where
  "kMaxPacketLength = 102400"

definition kRecvBufferSize :: nat where
  "kRecvBufferSize = kMaxPacketLength"

text \<open>The two bytes are loaded as a host \<^verbatim>\<open>uint16_t\<close> (first byte low) and passed to \<^verbatim>\<open>ntohs\<close>.\<close>

definition current_packet_size :: "circ_queue \<Rightarrow> u16" where
  "current_packet_size q =
     (let buf0 = cq_data q ((cq_front q + 2) mod cq_size q);
          buf1 = cq_data q ((cq_front q + 3) mod cq_size q)
      in ntohs (mk16 buf1 buf0))"

definition has_complete_packet :: "circ_queue \<Rightarrow> bool" where
  "has_complete_packet q \<longleftrightarrow>
     queue_size q \<ge> kHeaderSize \<and> queue_size q \<ge> kHeaderSize + unat (current_packet_size q)"

section \<open>The list of stored bytes\<close>

definition cq_inv :: "circ_queue \<Rightarrow> bool" where
  "cq_inv q \<longleftrightarrow>
     0 < cq_size q \<and> cq_size q < 2 ^ 63 \<and> cq_free q \<le> cq_size q \<and> cq_front q < cq_size q \<and>
     cq_rear q = (cq_front q + queue_size q) mod cq_size q"

definition cq_list :: "circ_queue \<Rightarrow> bytes" where
  "cq_list q = map (\<lambda>i. cq_data q ((cq_front q + i) mod cq_size q)) [0..<queue_size q]"

lemma length_cq_list [simp]: "length (cq_list q) = queue_size q"
  by (simp add: cq_list_def)

lemma nth_cq_list: "i < queue_size q \<Longrightarrow> cq_list q ! i = cq_data q ((cq_front q + i) mod cq_size q)"
  by (simp add: cq_list_def)

lemma queue_size_le: "cq_inv q \<Longrightarrow> queue_size q \<le> cq_size q"
  by (simp add: queue_size_def)

lemma free_plus_size: "cq_inv q \<Longrightarrow> cq_free q + queue_size q = cq_size q"
  by (simp add: queue_size_def cq_inv_def)

lemma ring_index_inj:
  fixes f s i j :: nat
  assumes "f < s" "i < s" "j < s" "(f + i) mod s = (f + j) mod s"
  shows "i = j"
proof -
  have "(f + k) mod s = (if f + k < s then f + k else f + k - s)" if "k < s" for k
    using that assms(1) by (simp add: mod_if)
  with assms show ?thesis
    by (auto split: if_splits)
qed

lemma enq_byte_list:
  assumes "cq_inv q" "0 < cq_free q"
  shows "cq_list (enq_byte b q) = cq_list q @ [b]" "cq_inv (enq_byte b q)"
proof -
  let ?n = "queue_size q"
  have sz: "queue_size (enq_byte b q) = Suc ?n"
    using assms by (auto simp: queue_size_def enq_byte_def cq_inv_def)
  have n: "?n < cq_size q"
    using assms by (auto simp: queue_size_def cq_inv_def)
  have "(cq_front q + i) mod cq_size q \<noteq> (cq_front q + ?n) mod cq_size q" if "i < ?n" for i
    using ring_index_inj [of "cq_front q" "cq_size q" i ?n] that n assms by (auto simp: cq_inv_def)
  then have "\<forall>i < Suc ?n. cq_list (enq_byte b q) ! i = (cq_list q @ [b]) ! i"
    using assms sz by (auto simp: cq_list_def enq_byte_def cq_inv_def nth_append less_Suc_eq)
  with sz show "cq_list (enq_byte b q) = cq_list q @ [b]"
    by (intro nth_equalityI) simp_all
  show "cq_inv (enq_byte b q)"
    using assms sz by (auto simp: cq_inv_def enq_byte_def mod_simps)
qed

lemma enq_byte_fields [simp]:
  "cq_size (enq_byte b q) = cq_size q" "cq_free (enq_byte b q) = cq_free q - 1"
  "cq_front (enq_byte b q) = cq_front q"
  by (simp_all add: enq_byte_def)

lemma enq_loop_list:
  "cq_inv q \<Longrightarrow> length bs \<le> cq_free q \<Longrightarrow>
     cq_list (enq_loop bs q) = cq_list q @ bs \<and> cq_inv (enq_loop bs q) \<and>
     cq_size (enq_loop bs q) = cq_size q"
  by (induction bs arbitrary: q) (simp_all add: enq_byte_list)

lemma deq_loop_eq:
  "cq_front q < cq_size q \<Longrightarrow>
     deq_loop n q =
       (map (\<lambda>i. cq_data q ((cq_front q + i) mod cq_size q)) [0..<n],
        q\<lparr>cq_front := (cq_front q + n) mod cq_size q\<rparr>)"
proof (induction n arbitrary: q)
  case (Suc n)
  have "[0..<Suc n] = 0 # map Suc [0..<n]"
    by (simp add: upt_conv_Cons map_Suc_upt del: upt_Suc)
  with Suc show ?case
    by (simp add: mod_simps comp_def del: upt_Suc)
qed simp

lemma take_cq_list:
  "n \<le> queue_size q \<Longrightarrow>
     take n (cq_list q) = map (\<lambda>i. cq_data q ((cq_front q + i) mod cq_size q)) [0..<n]"
  by (simp add: cq_list_def take_map)

lemma drop_cq_list:
  "n \<le> queue_size q \<Longrightarrow>
     drop n (cq_list q) =
       map (\<lambda>i. cq_data q ((cq_front q + n + i) mod cq_size q)) [0..<queue_size q - n]"
  by (rule nth_equalityI) (simp_all add: nth_cq_list ac_simps)

lemma dequeue_ok:
  assumes "cq_inv q" "n \<le> queue_size q"
  shows "dequeue n q =
    (Some (take n (cq_list q)),
     q\<lparr>cq_front := (cq_front q + n) mod cq_size q, cq_free := cq_free q + n\<rparr>)"
proof -
  have "cq_free q + n \<le> cq_size q" "cq_size q < 2 ^ 64"
    using assms by (auto simp: cq_inv_def queue_size_def)
  with assms show ?thesis
    by (simp add: dequeue_def deq_loop_eq cq_inv_def take_cq_list)
qed

lemma dequeue_fails:
  assumes "cq_inv q" "queue_size q < n" "n < 2 ^ 63"
  shows "dequeue n q = (None, q)"
proof -
  have "cq_free q + n < 2 ^ 64" "cq_size q < cq_free q + n"
    using assms by (auto simp: cq_inv_def queue_size_def)
  then show ?thesis by (simp add: dequeue_def)
qed

lemma dequeue_list:
  assumes "cq_inv q" "n \<le> queue_size q"
  shows "cq_list (snd (dequeue n q)) = drop n (cq_list q)" "cq_inv (snd (dequeue n q))"
    "cq_size (snd (dequeue n q)) = cq_size q"
proof -
  let ?q = "snd (dequeue n q)"
  have q: "?q = q\<lparr>cq_front := (cq_front q + n) mod cq_size q, cq_free := cq_free q + n\<rparr>"
    using assms by (simp add: dequeue_ok)
  then have sz: "queue_size ?q = queue_size q - n"
    by (simp add: queue_size_def)
  with q show "cq_list ?q = drop n (cq_list q)"
    using assms by (simp add: drop_cq_list) (simp add: cq_list_def mod_simps)
  show "cq_inv ?q"
    using assms sz q by (auto simp: cq_inv_def mod_simps queue_size_def)
  show "cq_size ?q = cq_size q"
    by (simp add: q)
qed

lemma enqueue_ok:
  assumes "cq_inv q" "queue_size q + length bs \<le> cq_size q"
  shows "fst (enqueue bs q)" "cq_list (snd (enqueue bs q)) = cq_list q @ bs"
    "cq_inv (snd (enqueue bs q))" "cq_size (snd (enqueue bs q)) = cq_size q"
  using assms enq_loop_list [of q bs] free_plus_size [of q] by (auto simp: enqueue_def)

lemma enqueue_fails:
  "cq_inv q \<Longrightarrow> cq_size q < queue_size q + length bs \<Longrightarrow> enqueue bs q = (False, q)"
  using free_plus_size [of q] by (auto simp: enqueue_def)

lemma new_queue_inv [simp]:
  "0 < n \<Longrightarrow> n < 2 ^ 63 \<Longrightarrow> cq_inv (new_queue fresh n)"
  by (simp add: cq_inv_def new_queue_def queue_size_def)

lemma new_queue_list [simp]: "cq_list (new_queue fresh n) = []" "cq_size (new_queue fresh n) = n"
  by (simp_all add: cq_list_def new_queue_def queue_size_def)

interpretation cq: byte_fifo enqueue dequeue cq_list cq_size cq_inv
proof (unfold_locales, goal_cases)
  case (4 q bs)
  then show ?case
    using enqueue_ok [of q bs] enqueue_fails [of q bs]
    by (cases "queue_size q + length bs \<le> cq_size q") auto
next
  case (7 q n)
  then show ?case
    using dequeue_list [of q n] dequeue_fails [of q n] by (cases "n \<le> queue_size q") auto
next
  case (5 q n)
  then show ?case
    using dequeue_list [of q n] by (simp add: dequeue_ok)
next
  case (8 q)
  then show ?case by (simp add: cq_inv_def)
qed (simp_all add: queue_size_le enqueue_ok enqueue_fails dequeue_fails)

section \<open>Reading ahead\<close>

lemma current_packet_size_list:
  assumes "4 \<le> queue_size q"
  shows "current_packet_size q = mk16 (cq_list q ! 2) (cq_list q ! 3)"
  using assms by (simp add: current_packet_size_def Let_def nth_cq_list)

section \<open>What the queue promises\<close>

text \<open>
  C22: on every queue that satisfies the invariant, \<^verbatim>\<open>enqueue\<close> appends the bytes to
  the stored list if they fit and refuses without effect if they do not, \<^verbatim>\<open>dequeue\<close> takes bytes off
  its head if there are enough and refuses without effect if there are not, and both keep the
  invariant and the capacity, wherever the two indices stand in the ring.
\<close>

theorem queue_refines_list:
  assumes "cq_inv q" "n < 2 ^ 63"
  shows "(if length bs \<le> get_num_free_bytes q
      then fst (enqueue bs q) \<and> cq_list (snd (enqueue bs q)) = cq_list q @ bs
      else enqueue bs q = (False, q)) \<and>
    (if n \<le> queue_size q
      then fst (dequeue n q) = Some (take n (cq_list q)) \<and> cq_list (snd (dequeue n q)) = drop n (cq_list q)
      else dequeue n q = (None, q)) \<and>
    (\<forall>q' \<in> {snd (enqueue bs q), snd (dequeue n q)}. cq_inv q' \<and> cq_size q' = cq_size q)"
proof (intro conjI)
  have fits: "length bs \<le> get_num_free_bytes q \<longleftrightarrow> length (cq_list q) + length bs \<le> cq_size q"
    using free_plus_size [OF assms(1)] by (simp add: get_num_free_bytes_def) linarith
  show "if length bs \<le> get_num_free_bytes q
      then fst (enqueue bs q) \<and> cq_list (snd (enqueue bs q)) = cq_list q @ bs
      else enqueue bs q = (False, q)"
    using cq.enq_fits [OF assms(1), of bs] cq.enq_full [OF assms(1), of bs]
    unfolding fits by (simp add: not_le del: length_cq_list)
  show "if n \<le> queue_size q
      then fst (dequeue n q) = Some (take n (cq_list q)) \<and> cq_list (snd (dequeue n q)) = drop n (cq_list q)
      else dequeue n q = (None, q)"
    using cq.deq_has [OF assms(1), of n] cq.deq_short [OF assms(1) _ assms(2)] by (simp add: not_le)
  show "\<forall>q' \<in> {snd (enqueue bs q), snd (dequeue n q)}. cq_inv q' \<and> cq_size q' = cq_size q"
    using cq.enq_keeps [OF assms(1), of bs] cq.deq_keeps [OF assms] by simp
qed

text \<open>A ring of four bytes whose two stored bytes wrap around its end.\<close>

definition sample_ring :: circ_queue where
  "sample_ring = \<lparr>cq_data = (\<lambda>i. if i = 3 then 1 else 2), cq_size = 4, cq_free = 2, cq_front = 3, cq_rear = 1\<rparr>"

lemma sample_ring: "cq_inv sample_ring" "cq_list sample_ring = [1, 2]" "get_num_free_bytes sample_ring = 2"
  "queue_size sample_ring = 2"
  by (simp_all add: sample_ring_def cq_inv_def cq_list_def queue_size_def get_num_free_bytes_def
      upt_rec [of _ 2])

theorem queue_refines_list_witness:
  "cq_list (snd (enqueue [3, 4] sample_ring)) = [1, 2, 3, 4] \<and>
   dequeue 3 sample_ring = (None, sample_ring)"
  using queue_refines_list [OF sample_ring(1), of 3 "[3, 4]"] by (simp add: sample_ring)

text \<open>
  C23: bytes that enter an empty queue in any chunks leave it in any frames, as long as
  they fit: how the network cut the stream makes no difference to what is read from the buffer.
\<close>

theorem chunks_frames:
  assumes "0 < n" "n < 2 ^ 63" "length (concat chunks) \<le> n" "concat chunks = concat frames"
  shows "fst (drain dequeue (map length frames) (snd (feed enqueue chunks (new_queue fresh n)))) =
    map Some frames"
  using assms by (intro cq.feed_drain new_queue_inv) simp_all

theorem chunks_frames_witness:
  "fst (drain dequeue [1, 3] (snd (feed enqueue [[1, 2], [3], [4]] (new_queue (\<lambda>_. 0) 4)))) =
     [Some [1], Some [2, 3, 4]]"
proof -
  have "map length [[1], [2, 3, 4 :: u8]] = [1, 3]" "map Some [[1], [2, 3, 4 :: u8]] = [Some [1], Some [2, 3, 4]]"
    by simp_all
  then show ?thesis
    using chunks_frames [of 4 "[[1, 2], [3], [4]]" "[[1], [2, 3, 4]]" "\<lambda>_. 0"] by (simp del: feed.simps drain.simps list.map)
qed

end
