(* ===== verification/Packets.thy ===== *)
theory Packets
  imports Prelude
begin

text \<open>
  The packet structs of \<^verbatim>\<open>server/include/types.hpp\<close>, one record each, with the constants of
  its \<^verbatim>\<open>enum class PacketType\<close>. Every struct comes with its size (no member needs padding), the
  bytes it occupies in host memory (\<open>X_mem\<close>, what the casts to \<^verbatim>\<open>uint8_t*\<close> see) and the struct
  that a block of bytes holds (\<open>X_of\<close>, what the casts from \<^verbatim>\<open>uint8_t*\<close> see); the two are inverse
  to each other for arrays of the declared lengths (\<open>wf_X\<close>).

  The request structs without members of their own, \<^verbatim>\<open>SysInfoRequestPacket\<close>,
  \<^verbatim>\<open>ConfInfoRequestPacket\<close>, \<^verbatim>\<open>ProcInfoRequestPacket\<close>, \<^verbatim>\<open>TerInfoRequestPacket\<close> and
  \<^verbatim>\<open>EndPacket\<close>, and the response structs \<^verbatim>\<open>ConfInfoResponsePacket\<close> and
  \<^verbatim>\<open>ProcInfoResponsePacket\<close> have the same two members; they share the record
  \<open>PlainPacket\<close> under their own names.
\<close>

section \<open>Packet types\<close>

text \<open>\<open>code_of_type\<close> gives the number of each enumerator; a request and its response share it.\<close>

datatype PacketType =
    VersionRequire | Auth | SysInfo | ConfInfo | ProcInfo | EtherInfo | USBState | USBInfo
  | PrintDev | PrintQueue | TerInfo | DumbTer | IPTerm | End

fun code_of_type :: "PacketType \<Rightarrow> u8" where
  "code_of_type VersionRequire = 0x00"
| "code_of_type Auth = 0x01"
| "code_of_type SysInfo = 0x02"
| "code_of_type ConfInfo = 0x03"
| "code_of_type ProcInfo = 0x04"
| "code_of_type EtherInfo = 0x05"
| "code_of_type USBState = 0x07"
| "code_of_type USBInfo = 0x0C"
| "code_of_type PrintDev = 0x08"
| "code_of_type PrintQueue = 0x0D"
| "code_of_type TerInfo = 0x09"
| "code_of_type DumbTer = 0x0A"
| "code_of_type IPTerm = 0x0B"
| "code_of_type End = 0xFF"

lemma code_of_type_inj: "code_of_type a = code_of_type b \<longleftrightarrow> a = b"
  by (cases a; cases b) simp_all

section \<open>Structs\<close>

record PacketHeader =
  hd_direction :: u8
  hd_packet_type :: u8
  hd_packet_size :: u16

definition sizeof_PacketHeader :: nat where
  "sizeof_PacketHeader = 4"

definition PacketHeader_mem :: "PacketHeader \<Rightarrow> bytes" where
  "PacketHeader_mem p =
     [hd_direction p] @ [hd_packet_type p] @ mem16 (hd_packet_size p)"

definition PacketHeader_of :: "bytes \<Rightarrow> PacketHeader" where
  "PacketHeader_of bs =
     \<lparr>hd_direction = get8 0 bs, hd_packet_type = get8 1 bs, hd_packet_size = get16 2 bs\<rparr>"

lemma length_PacketHeader_mem [simp]: "length (PacketHeader_mem p) = sizeof_PacketHeader"
  by (simp add: PacketHeader_mem_def sizeof_PacketHeader_def)

lemma PacketHeader_of_mem [simp]: "PacketHeader_of (PacketHeader_mem p) = p"
  by (simp add: PacketHeader_mem_def PacketHeader_of_def layout_simps)

lemma PacketHeader_mem_of: "length bs = sizeof_PacketHeader \<Longrightarrow> PacketHeader_mem (PacketHeader_of bs) = bs"
  by (simp add: PacketHeader_mem_def PacketHeader_of_def sizeof_PacketHeader_def layout_simps)

record AuthRequestPacket =
  aq_pad_1 :: bytes
  aq_payload_size :: u16
  aq_version_main :: u16
  aq_version_sub1 :: u8
  aq_version_sub2 :: u8
  aq_time_gap_fail :: u16
  aq_time_gap_succeed :: u16
  aq_is_empty_tty :: u8
  aq_pad_2 :: bytes
  aq_auth_string :: bytes
  aq_random_num :: u32
  aq_svr_time :: u32

definition sizeof_AuthRequestPacket :: nat where
  "sizeof_AuthRequestPacket = 56"

definition AuthRequestPacket_mem :: "AuthRequestPacket \<Rightarrow> bytes" where
  "AuthRequestPacket_mem p =
     aq_pad_1 p @ mem16 (aq_payload_size p) @ mem16 (aq_version_main p) @
     [aq_version_sub1 p] @ [aq_version_sub2 p] @ mem16 (aq_time_gap_fail p) @
     mem16 (aq_time_gap_succeed p) @ [aq_is_empty_tty p] @ aq_pad_2 p @ aq_auth_string p @
     mem32 (aq_random_num p) @ mem32 (aq_svr_time p)"

definition AuthRequestPacket_of :: "bytes \<Rightarrow> AuthRequestPacket" where
  "AuthRequestPacket_of bs =
     \<lparr>aq_pad_1 = get_bytes 0 2 bs, aq_payload_size = get16 2 bs,
      aq_version_main = get16 4 bs, aq_version_sub1 = get8 6 bs,
      aq_version_sub2 = get8 7 bs, aq_time_gap_fail = get16 8 bs,
      aq_time_gap_succeed = get16 10 bs, aq_is_empty_tty = get8 12 bs,
      aq_pad_2 = get_bytes 13 3 bs, aq_auth_string = get_bytes 16 32 bs,
      aq_random_num = get32 48 bs, aq_svr_time = get32 52 bs\<rparr>"

definition wf_AuthRequestPacket :: "AuthRequestPacket \<Rightarrow> bool" where
  "wf_AuthRequestPacket p \<longleftrightarrow>
     length (aq_pad_1 p) = 2 \<and> length (aq_pad_2 p) = 3 \<and>
     length (aq_auth_string p) = 32"

lemma length_AuthRequestPacket_mem [simp]: "wf_AuthRequestPacket p \<Longrightarrow> length (AuthRequestPacket_mem p) = sizeof_AuthRequestPacket"
  by (simp add: wf_AuthRequestPacket_def AuthRequestPacket_mem_def sizeof_AuthRequestPacket_def)

lemma AuthRequestPacket_of_mem [simp]: "wf_AuthRequestPacket p \<Longrightarrow> AuthRequestPacket_of (AuthRequestPacket_mem p) = p"
  by (simp add: wf_AuthRequestPacket_def AuthRequestPacket_mem_def AuthRequestPacket_of_def layout_simps)

lemma AuthRequestPacket_mem_of: "length bs = sizeof_AuthRequestPacket \<Longrightarrow> AuthRequestPacket_mem (AuthRequestPacket_of bs) = bs"
  by (simp add: AuthRequestPacket_mem_def AuthRequestPacket_of_def sizeof_AuthRequestPacket_def layout_simps)

lemma wf_AuthRequestPacket_of [simp]: "length bs = sizeof_AuthRequestPacket \<Longrightarrow> wf_AuthRequestPacket (AuthRequestPacket_of bs)"
  by (simp add: wf_AuthRequestPacket_def AuthRequestPacket_of_def sizeof_AuthRequestPacket_def)

record VersionRequirePacket =
  vr_pad_1 :: bytes
  vr_payload_size :: u16
  vr_required_version_main :: u16
  vr_required_version_sub1 :: u8
  vr_required_version_sub2 :: u8

definition sizeof_VersionRequirePacket :: nat where
  "sizeof_VersionRequirePacket = 8"

definition VersionRequirePacket_mem :: "VersionRequirePacket \<Rightarrow> bytes" where
  "VersionRequirePacket_mem p =
     vr_pad_1 p @ mem16 (vr_payload_size p) @ mem16 (vr_required_version_main p) @
     [vr_required_version_sub1 p] @ [vr_required_version_sub2 p]"

definition VersionRequirePacket_of :: "bytes \<Rightarrow> VersionRequirePacket" where
  "VersionRequirePacket_of bs =
     \<lparr>vr_pad_1 = get_bytes 0 2 bs, vr_payload_size = get16 2 bs,
      vr_required_version_main = get16 4 bs, vr_required_version_sub1 = get8 6 bs,
      vr_required_version_sub2 = get8 7 bs\<rparr>"

definition wf_VersionRequirePacket :: "VersionRequirePacket \<Rightarrow> bool" where
  "wf_VersionRequirePacket p \<longleftrightarrow>
     length (vr_pad_1 p) = 2"

lemma length_VersionRequirePacket_mem [simp]: "wf_VersionRequirePacket p \<Longrightarrow> length (VersionRequirePacket_mem p) = sizeof_VersionRequirePacket"
  by (simp add: wf_VersionRequirePacket_def VersionRequirePacket_mem_def sizeof_VersionRequirePacket_def)

lemma VersionRequirePacket_of_mem [simp]: "wf_VersionRequirePacket p \<Longrightarrow> VersionRequirePacket_of (VersionRequirePacket_mem p) = p"
  by (simp add: wf_VersionRequirePacket_def VersionRequirePacket_mem_def VersionRequirePacket_of_def layout_simps)

lemma VersionRequirePacket_mem_of: "length bs = sizeof_VersionRequirePacket \<Longrightarrow> VersionRequirePacket_mem (VersionRequirePacket_of bs) = bs"
  by (simp add: VersionRequirePacket_mem_def VersionRequirePacket_of_def sizeof_VersionRequirePacket_def layout_simps)

lemma wf_VersionRequirePacket_of [simp]: "length bs = sizeof_VersionRequirePacket \<Longrightarrow> wf_VersionRequirePacket (VersionRequirePacket_of bs)"
  by (simp add: wf_VersionRequirePacket_def VersionRequirePacket_of_def sizeof_VersionRequirePacket_def)

record AuthResponsePacket =
  ar_pad_1 :: bytes
  ar_payload_size :: u16
  ar_cpu_frequence :: u16
  ar_ram :: u16
  ar_flash :: u16
  ar_internal_serial :: u16
  ar_group_serial :: bytes
  ar_device_type :: bytes
  ar_software_verison :: bytes
  ar_ethnum :: u8
  ar_syncnum :: u8
  ar_asyncnum :: u8
  ar_switchnum :: u8
  ar_usbnum :: u8
  ar_prnnum :: u8
  ar_pad_2 :: bytes
  ar_devid :: u32
  ar_devno :: u8
  ar_pad_3 :: bytes
  ar_auth_string :: bytes
  ar_random_num :: u32

definition sizeof_AuthResponsePacket :: nat where
  "sizeof_AuthResponsePacket = 112"

definition AuthResponsePacket_mem :: "AuthResponsePacket \<Rightarrow> bytes" where
  "AuthResponsePacket_mem p =
     ar_pad_1 p @ mem16 (ar_payload_size p) @ mem16 (ar_cpu_frequence p) @
     mem16 (ar_ram p) @ mem16 (ar_flash p) @ mem16 (ar_internal_serial p) @
     ar_group_serial p @ ar_device_type p @ ar_software_verison p @ [ar_ethnum p] @
     [ar_syncnum p] @ [ar_asyncnum p] @ [ar_switchnum p] @ [ar_usbnum p] @ [ar_prnnum p] @
     ar_pad_2 p @ mem32 (ar_devid p) @ [ar_devno p] @ ar_pad_3 p @ ar_auth_string p @
     mem32 (ar_random_num p)"

definition AuthResponsePacket_of :: "bytes \<Rightarrow> AuthResponsePacket" where
  "AuthResponsePacket_of bs =
     \<lparr>ar_pad_1 = get_bytes 0 2 bs, ar_payload_size = get16 2 bs,
      ar_cpu_frequence = get16 4 bs, ar_ram = get16 6 bs, ar_flash = get16 8 bs,
      ar_internal_serial = get16 10 bs, ar_group_serial = get_bytes 12 16 bs,
      ar_device_type = get_bytes 28 16 bs, ar_software_verison = get_bytes 44 16 bs,
      ar_ethnum = get8 60 bs, ar_syncnum = get8 61 bs, ar_asyncnum = get8 62 bs,
      ar_switchnum = get8 63 bs, ar_usbnum = get8 64 bs, ar_prnnum = get8 65 bs,
      ar_pad_2 = get_bytes 66 2 bs, ar_devid = get32 68 bs, ar_devno = get8 72 bs,
      ar_pad_3 = get_bytes 73 3 bs, ar_auth_string = get_bytes 76 32 bs,
      ar_random_num = get32 108 bs\<rparr>"

definition wf_AuthResponsePacket :: "AuthResponsePacket \<Rightarrow> bool" where
  "wf_AuthResponsePacket p \<longleftrightarrow>
     length (ar_pad_1 p) = 2 \<and> length (ar_group_serial p) = 16 \<and>
     length (ar_device_type p) = 16 \<and> length (ar_software_verison p) = 16 \<and>
     length (ar_pad_2 p) = 2 \<and> length (ar_pad_3 p) = 3 \<and>
     length (ar_auth_string p) = 32"

lemma length_AuthResponsePacket_mem [simp]: "wf_AuthResponsePacket p \<Longrightarrow> length (AuthResponsePacket_mem p) = sizeof_AuthResponsePacket"
  by (simp add: wf_AuthResponsePacket_def AuthResponsePacket_mem_def sizeof_AuthResponsePacket_def)

lemma AuthResponsePacket_of_mem [simp]: "wf_AuthResponsePacket p \<Longrightarrow> AuthResponsePacket_of (AuthResponsePacket_mem p) = p"
  by (simp add: wf_AuthResponsePacket_def AuthResponsePacket_mem_def AuthResponsePacket_of_def layout_simps)

lemma AuthResponsePacket_mem_of: "length bs = sizeof_AuthResponsePacket \<Longrightarrow> AuthResponsePacket_mem (AuthResponsePacket_of bs) = bs"
  by (simp add: AuthResponsePacket_mem_def AuthResponsePacket_of_def sizeof_AuthResponsePacket_def layout_simps)

lemma wf_AuthResponsePacket_of [simp]: "length bs = sizeof_AuthResponsePacket \<Longrightarrow> wf_AuthResponsePacket (AuthResponsePacket_of bs)"
  by (simp add: wf_AuthResponsePacket_def AuthResponsePacket_of_def sizeof_AuthResponsePacket_def)

record PlainPacket =
  pp_pad_1 :: bytes
  pp_payload_size :: u16

definition sizeof_PlainPacket :: nat where
  "sizeof_PlainPacket = 4"

definition PlainPacket_mem :: "PlainPacket \<Rightarrow> bytes" where
  "PlainPacket_mem p =
     pp_pad_1 p @ mem16 (pp_payload_size p)"

definition PlainPacket_of :: "bytes \<Rightarrow> PlainPacket" where
  "PlainPacket_of bs =
     \<lparr>pp_pad_1 = get_bytes 0 2 bs, pp_payload_size = get16 2 bs\<rparr>"

definition wf_PlainPacket :: "PlainPacket \<Rightarrow> bool" where
  "wf_PlainPacket p \<longleftrightarrow>
     length (pp_pad_1 p) = 2"

lemma length_PlainPacket_mem [simp]: "wf_PlainPacket p \<Longrightarrow> length (PlainPacket_mem p) = sizeof_PlainPacket"
  by (simp add: wf_PlainPacket_def PlainPacket_mem_def sizeof_PlainPacket_def)

lemma PlainPacket_of_mem [simp]: "wf_PlainPacket p \<Longrightarrow> PlainPacket_of (PlainPacket_mem p) = p"
  by (simp add: wf_PlainPacket_def PlainPacket_mem_def PlainPacket_of_def layout_simps)

lemma PlainPacket_mem_of: "length bs = sizeof_PlainPacket \<Longrightarrow> PlainPacket_mem (PlainPacket_of bs) = bs"
  by (simp add: PlainPacket_mem_def PlainPacket_of_def sizeof_PlainPacket_def layout_simps)

lemma wf_PlainPacket_of [simp]: "length bs = sizeof_PlainPacket \<Longrightarrow> wf_PlainPacket (PlainPacket_of bs)"
  by (simp add: wf_PlainPacket_def PlainPacket_of_def sizeof_PlainPacket_def)

type_synonym SysInfoRequestPacket = PlainPacket
type_synonym ConfInfoRequestPacket = PlainPacket
type_synonym ConfInfoResponsePacket = PlainPacket
type_synonym ProcInfoRequestPacket = PlainPacket
type_synonym ProcInfoResponsePacket = PlainPacket
type_synonym TerInfoRequestPacket = PlainPacket
type_synonym EndPacket = PlainPacket

record SysInfoResponsePacket =
  sr_pad_1 :: bytes
  sr_payload_size :: u16
  sr_user_cpu_time :: u32
  sr_nice_cpu_time :: u32
  sr_system_cpu_time :: u32
  sr_idle_cpu_time :: u32
  sr_freed_memory :: u32

definition sizeof_SysInfoResponsePacket :: nat where
  "sizeof_SysInfoResponsePacket = 24"

definition SysInfoResponsePacket_mem :: "SysInfoResponsePacket \<Rightarrow> bytes" where
  "SysInfoResponsePacket_mem p =
     sr_pad_1 p @ mem16 (sr_payload_size p) @ mem32 (sr_user_cpu_time p) @
     mem32 (sr_nice_cpu_time p) @ mem32 (sr_system_cpu_time p) @
     mem32 (sr_idle_cpu_time p) @ mem32 (sr_freed_memory p)"

definition SysInfoResponsePacket_of :: "bytes \<Rightarrow> SysInfoResponsePacket" where
  "SysInfoResponsePacket_of bs =
     \<lparr>sr_pad_1 = get_bytes 0 2 bs, sr_payload_size = get16 2 bs,
      sr_user_cpu_time = get32 4 bs, sr_nice_cpu_time = get32 8 bs,
      sr_system_cpu_time = get32 12 bs, sr_idle_cpu_time = get32 16 bs,
      sr_freed_memory = get32 20 bs\<rparr>"

definition wf_SysInfoResponsePacket :: "SysInfoResponsePacket \<Rightarrow> bool" where
  "wf_SysInfoResponsePacket p \<longleftrightarrow>
     length (sr_pad_1 p) = 2"

lemma length_SysInfoResponsePacket_mem [simp]: "wf_SysInfoResponsePacket p \<Longrightarrow> length (SysInfoResponsePacket_mem p) = sizeof_SysInfoResponsePacket"
  by (simp add: wf_SysInfoResponsePacket_def SysInfoResponsePacket_mem_def sizeof_SysInfoResponsePacket_def)

lemma SysInfoResponsePacket_of_mem [simp]: "wf_SysInfoResponsePacket p \<Longrightarrow> SysInfoResponsePacket_of (SysInfoResponsePacket_mem p) = p"
  by (simp add: wf_SysInfoResponsePacket_def SysInfoResponsePacket_mem_def SysInfoResponsePacket_of_def layout_simps)

lemma SysInfoResponsePacket_mem_of: "length bs = sizeof_SysInfoResponsePacket \<Longrightarrow> SysInfoResponsePacket_mem (SysInfoResponsePacket_of bs) = bs"
  by (simp add: SysInfoResponsePacket_mem_def SysInfoResponsePacket_of_def sizeof_SysInfoResponsePacket_def layout_simps)

lemma wf_SysInfoResponsePacket_of [simp]: "length bs = sizeof_SysInfoResponsePacket \<Longrightarrow> wf_SysInfoResponsePacket (SysInfoResponsePacket_of bs)"
  by (simp add: wf_SysInfoResponsePacket_def SysInfoResponsePacket_of_def sizeof_SysInfoResponsePacket_def)

record EtherInfoRequestPacket =
  eq_port :: u16
  eq_payload_size :: u16

definition sizeof_EtherInfoRequestPacket :: nat where
  "sizeof_EtherInfoRequestPacket = 4"

definition EtherInfoRequestPacket_mem :: "EtherInfoRequestPacket \<Rightarrow> bytes" where
  "EtherInfoRequestPacket_mem p =
     mem16 (eq_port p) @ mem16 (eq_payload_size p)"

definition EtherInfoRequestPacket_of :: "bytes \<Rightarrow> EtherInfoRequestPacket" where
  "EtherInfoRequestPacket_of bs =
     \<lparr>eq_port = get16 0 bs, eq_payload_size = get16 2 bs\<rparr>"

lemma length_EtherInfoRequestPacket_mem [simp]: "length (EtherInfoRequestPacket_mem p) = sizeof_EtherInfoRequestPacket"
  by (simp add: EtherInfoRequestPacket_mem_def sizeof_EtherInfoRequestPacket_def)

lemma EtherInfoRequestPacket_of_mem [simp]: "EtherInfoRequestPacket_of (EtherInfoRequestPacket_mem p) = p"
  by (simp add: EtherInfoRequestPacket_mem_def EtherInfoRequestPacket_of_def layout_simps)

lemma EtherInfoRequestPacket_mem_of: "length bs = sizeof_EtherInfoRequestPacket \<Longrightarrow> EtherInfoRequestPacket_mem (EtherInfoRequestPacket_of bs) = bs"
  by (simp add: EtherInfoRequestPacket_mem_def EtherInfoRequestPacket_of_def sizeof_EtherInfoRequestPacket_def layout_simps)

record EtherInfoResponsePacket =
  er_port :: u16
  er_payload_size :: u16
  er_if_exist :: u8
  er_if_set :: u8
  er_state :: u8
  er_pad_1 :: u8
  er_mac :: bytes
  er_options :: u16
  er_addr :: u32
  er_mask :: u32
  er_addr_port_1 :: u32
  er_mask_port_1 :: u32
  er_addr_port_2 :: u32
  er_mask_port_2 :: u32
  er_addr_port_3 :: u32
  er_mask_port_3 :: u32
  er_addr_port_4 :: u32
  er_mask_port_4 :: u32
  er_addr_port_5 :: u32
  er_mask_port_5 :: u32
  er_send_bytes :: u32
  er_send_packets :: u32
  er_send_errs :: u32
  er_send_drop :: u32
  er_send_fifo :: u32
  er_send_frame :: u32
  er_send_compressed :: u32
  er_send_multicast :: u32
  er_recv_bytes :: u32
  er_recv_packets :: u32
  er_recv_errs :: u32
  er_recv_drop :: u32
  er_recv_fifo :: u32
  er_recv_frame :: u32
  er_recv_compressed :: u32
  er_recv_multicast :: u32

definition sizeof_EtherInfoResponsePacket :: nat where
  "sizeof_EtherInfoResponsePacket = 128"

definition EtherInfoResponsePacket_mem :: "EtherInfoResponsePacket \<Rightarrow> bytes" where
  "EtherInfoResponsePacket_mem p =
     mem16 (er_port p) @ mem16 (er_payload_size p) @ [er_if_exist p] @ [er_if_set p] @
     [er_state p] @ [er_pad_1 p] @ er_mac p @ mem16 (er_options p) @ mem32 (er_addr p) @
     mem32 (er_mask p) @ mem32 (er_addr_port_1 p) @ mem32 (er_mask_port_1 p) @
     mem32 (er_addr_port_2 p) @ mem32 (er_mask_port_2 p) @ mem32 (er_addr_port_3 p) @
     mem32 (er_mask_port_3 p) @ mem32 (er_addr_port_4 p) @ mem32 (er_mask_port_4 p) @
     mem32 (er_addr_port_5 p) @ mem32 (er_mask_port_5 p) @ mem32 (er_send_bytes p) @
     mem32 (er_send_packets p) @ mem32 (er_send_errs p) @ mem32 (er_send_drop p) @
     mem32 (er_send_fifo p) @ mem32 (er_send_frame p) @ mem32 (er_send_compressed p) @
     mem32 (er_send_multicast p) @ mem32 (er_recv_bytes p) @ mem32 (er_recv_packets p) @
     mem32 (er_recv_errs p) @ mem32 (er_recv_drop p) @ mem32 (er_recv_fifo p) @
     mem32 (er_recv_frame p) @ mem32 (er_recv_compressed p) @ mem32 (er_recv_multicast p)"

definition EtherInfoResponsePacket_of :: "bytes \<Rightarrow> EtherInfoResponsePacket" where
  "EtherInfoResponsePacket_of bs =
     \<lparr>er_port = get16 0 bs, er_payload_size = get16 2 bs, er_if_exist = get8 4 bs,
      er_if_set = get8 5 bs, er_state = get8 6 bs, er_pad_1 = get8 7 bs,
      er_mac = get_bytes 8 6 bs, er_options = get16 14 bs, er_addr = get32 16 bs,
      er_mask = get32 20 bs, er_addr_port_1 = get32 24 bs, er_mask_port_1 = get32 28 bs,
      er_addr_port_2 = get32 32 bs, er_mask_port_2 = get32 36 bs,
      er_addr_port_3 = get32 40 bs, er_mask_port_3 = get32 44 bs,
      er_addr_port_4 = get32 48 bs, er_mask_port_4 = get32 52 bs,
      er_addr_port_5 = get32 56 bs, er_mask_port_5 = get32 60 bs,
      er_send_bytes = get32 64 bs, er_send_packets = get32 68 bs,
      er_send_errs = get32 72 bs, er_send_drop = get32 76 bs, er_send_fifo = get32 80 bs,
      er_send_frame = get32 84 bs, er_send_compressed = get32 88 bs,
      er_send_multicast = get32 92 bs, er_recv_bytes = get32 96 bs,
      er_recv_packets = get32 100 bs, er_recv_errs = get32 104 bs,
      er_recv_drop = get32 108 bs, er_recv_fifo = get32 112 bs,
      er_recv_frame = get32 116 bs, er_recv_compressed = get32 120 bs,
      er_recv_multicast = get32 124 bs\<rparr>"

definition wf_EtherInfoResponsePacket :: "EtherInfoResponsePacket \<Rightarrow> bool" where
  "wf_EtherInfoResponsePacket p \<longleftrightarrow>
     length (er_mac p) = 6"

lemma length_EtherInfoResponsePacket_mem [simp]: "wf_EtherInfoResponsePacket p \<Longrightarrow> length (EtherInfoResponsePacket_mem p) = sizeof_EtherInfoResponsePacket"
  by (simp add: wf_EtherInfoResponsePacket_def EtherInfoResponsePacket_mem_def sizeof_EtherInfoResponsePacket_def)

lemma EtherInfoResponsePacket_of_mem [simp]: "wf_EtherInfoResponsePacket p \<Longrightarrow> EtherInfoResponsePacket_of (EtherInfoResponsePacket_mem p) = p"
  by (simp add: wf_EtherInfoResponsePacket_def EtherInfoResponsePacket_mem_def EtherInfoResponsePacket_of_def layout_simps)

lemma EtherInfoResponsePacket_mem_of: "length bs = sizeof_EtherInfoResponsePacket \<Longrightarrow> EtherInfoResponsePacket_mem (EtherInfoResponsePacket_of bs) = bs"
  by (simp add: EtherInfoResponsePacket_mem_def EtherInfoResponsePacket_of_def sizeof_EtherInfoResponsePacket_def layout_simps)

lemma wf_EtherInfoResponsePacket_of [simp]: "length bs = sizeof_EtherInfoResponsePacket \<Longrightarrow> wf_EtherInfoResponsePacket (EtherInfoResponsePacket_of bs)"
  by (simp add: wf_EtherInfoResponsePacket_def EtherInfoResponsePacket_of_def sizeof_EtherInfoResponsePacket_def)

record TerInfoResponsePacket =
  tr_pad_1 :: bytes
  tr_payload_size :: u16
  tr_dumb_term :: bytes
  tr_ip_term :: bytes
  tr_term_num :: u16

definition sizeof_TerInfoResponsePacket :: nat where
  "sizeof_TerInfoResponsePacket = 276"

definition TerInfoResponsePacket_mem :: "TerInfoResponsePacket \<Rightarrow> bytes" where
  "TerInfoResponsePacket_mem p =
     tr_pad_1 p @ mem16 (tr_payload_size p) @ tr_dumb_term p @ tr_ip_term p @
     mem16 (tr_term_num p)"

definition TerInfoResponsePacket_of :: "bytes \<Rightarrow> TerInfoResponsePacket" where
  "TerInfoResponsePacket_of bs =
     \<lparr>tr_pad_1 = get_bytes 0 2 bs, tr_payload_size = get16 2 bs,
      tr_dumb_term = get_bytes 4 16 bs, tr_ip_term = get_bytes 20 254 bs,
      tr_term_num = get16 274 bs\<rparr>"

definition wf_TerInfoResponsePacket :: "TerInfoResponsePacket \<Rightarrow> bool" where
  "wf_TerInfoResponsePacket p \<longleftrightarrow>
     length (tr_pad_1 p) = 2 \<and> length (tr_dumb_term p) = 16 \<and>
     length (tr_ip_term p) = 254"

lemma length_TerInfoResponsePacket_mem [simp]: "wf_TerInfoResponsePacket p \<Longrightarrow> length (TerInfoResponsePacket_mem p) = sizeof_TerInfoResponsePacket"
  by (simp add: wf_TerInfoResponsePacket_def TerInfoResponsePacket_mem_def sizeof_TerInfoResponsePacket_def)

lemma TerInfoResponsePacket_of_mem [simp]: "wf_TerInfoResponsePacket p \<Longrightarrow> TerInfoResponsePacket_of (TerInfoResponsePacket_mem p) = p"
  by (simp add: wf_TerInfoResponsePacket_def TerInfoResponsePacket_mem_def TerInfoResponsePacket_of_def layout_simps)

lemma TerInfoResponsePacket_mem_of: "length bs = sizeof_TerInfoResponsePacket \<Longrightarrow> TerInfoResponsePacket_mem (TerInfoResponsePacket_of bs) = bs"
  by (simp add: TerInfoResponsePacket_mem_def TerInfoResponsePacket_of_def sizeof_TerInfoResponsePacket_def layout_simps)

lemma wf_TerInfoResponsePacket_of [simp]: "length bs = sizeof_TerInfoResponsePacket \<Longrightarrow> wf_TerInfoResponsePacket (TerInfoResponsePacket_of bs)"
  by (simp add: wf_TerInfoResponsePacket_def TerInfoResponsePacket_of_def sizeof_TerInfoResponsePacket_def)

record IPTermRequestPacket =
  iq_ttyno :: u16
  iq_payload_size :: u16

definition sizeof_IPTermRequestPacket :: nat where
  "sizeof_IPTermRequestPacket = 4"

definition IPTermRequestPacket_mem :: "IPTermRequestPacket \<Rightarrow> bytes" where
  "IPTermRequestPacket_mem p =
     mem16 (iq_ttyno p) @ mem16 (iq_payload_size p)"

definition IPTermRequestPacket_of :: "bytes \<Rightarrow> IPTermRequestPacket" where
  "IPTermRequestPacket_of bs =
     \<lparr>iq_ttyno = get16 0 bs, iq_payload_size = get16 2 bs\<rparr>"

lemma length_IPTermRequestPacket_mem [simp]: "length (IPTermRequestPacket_mem p) = sizeof_IPTermRequestPacket"
  by (simp add: IPTermRequestPacket_mem_def sizeof_IPTermRequestPacket_def)

lemma IPTermRequestPacket_of_mem [simp]: "IPTermRequestPacket_of (IPTermRequestPacket_mem p) = p"
  by (simp add: IPTermRequestPacket_mem_def IPTermRequestPacket_of_def layout_simps)

lemma IPTermRequestPacket_mem_of: "length bs = sizeof_IPTermRequestPacket \<Longrightarrow> IPTermRequestPacket_mem (IPTermRequestPacket_of bs) = bs"
  by (simp add: IPTermRequestPacket_mem_def IPTermRequestPacket_of_def sizeof_IPTermRequestPacket_def layout_simps)

record IPTermResponsePacket =
  ir_ttyno :: u16
  ir_payload_size :: u16
  ir_port :: u8
  ir_readno :: u8
  ir_active_screen :: u8
  ir_screen_num :: u8
  ir_ttyip :: u32
  ir_type :: bytes
  ir_state :: bytes

definition sizeof_IPTermResponsePacket :: nat where
  "sizeof_IPTermResponsePacket = 32"

definition IPTermResponsePacket_mem :: "IPTermResponsePacket \<Rightarrow> bytes" where
  "IPTermResponsePacket_mem p =
     mem16 (ir_ttyno p) @ mem16 (ir_payload_size p) @ [ir_port p] @ [ir_readno p] @
     [ir_active_screen p] @ [ir_screen_num p] @ mem32 (ir_ttyip p) @ ir_type p @ ir_state p"

definition IPTermResponsePacket_of :: "bytes \<Rightarrow> IPTermResponsePacket" where
  "IPTermResponsePacket_of bs =
     \<lparr>ir_ttyno = get16 0 bs, ir_payload_size = get16 2 bs, ir_port = get8 4 bs,
      ir_readno = get8 5 bs, ir_active_screen = get8 6 bs, ir_screen_num = get8 7 bs,
      ir_ttyip = get32 8 bs, ir_type = get_bytes 12 12 bs, ir_state = get_bytes 24 8 bs\<rparr>"

definition wf_IPTermResponsePacket :: "IPTermResponsePacket \<Rightarrow> bool" where
  "wf_IPTermResponsePacket p \<longleftrightarrow>
     length (ir_type p) = 12 \<and> length (ir_state p) = 8"

lemma length_IPTermResponsePacket_mem [simp]: "wf_IPTermResponsePacket p \<Longrightarrow> length (IPTermResponsePacket_mem p) = sizeof_IPTermResponsePacket"
  by (simp add: wf_IPTermResponsePacket_def IPTermResponsePacket_mem_def sizeof_IPTermResponsePacket_def)

lemma IPTermResponsePacket_of_mem [simp]: "wf_IPTermResponsePacket p \<Longrightarrow> IPTermResponsePacket_of (IPTermResponsePacket_mem p) = p"
  by (simp add: wf_IPTermResponsePacket_def IPTermResponsePacket_mem_def IPTermResponsePacket_of_def layout_simps)

lemma IPTermResponsePacket_mem_of: "length bs = sizeof_IPTermResponsePacket \<Longrightarrow> IPTermResponsePacket_mem (IPTermResponsePacket_of bs) = bs"
  by (simp add: IPTermResponsePacket_mem_def IPTermResponsePacket_of_def sizeof_IPTermResponsePacket_def layout_simps)

lemma wf_IPTermResponsePacket_of [simp]: "length bs = sizeof_IPTermResponsePacket \<Longrightarrow> wf_IPTermResponsePacket (IPTermResponsePacket_of bs)"
  by (simp add: wf_IPTermResponsePacket_def IPTermResponsePacket_of_def sizeof_IPTermResponsePacket_def)

record ScreenInfoPacket =
  sc_screen_no :: u8
  sc_pad_1 :: u8
  sc_server_port :: u16
  sc_server_ip :: u32
  sc_proto :: bytes
  sc_state :: bytes
  sc_promp :: bytes
  sc_tty_type :: bytes
  sc_time :: u32
  sc_send_term_byte :: u32
  sc_recv_term_byte :: u32
  sc_send_server_byte :: u32
  sc_recv_server_byte :: u32
  sc_ping_min :: u32
  sc_ping_avg :: u32
  sc_ping_max :: u32

definition sizeof_ScreenInfoPacket :: nat where
  "sizeof_ScreenInfoPacket = 96"

definition ScreenInfoPacket_mem :: "ScreenInfoPacket \<Rightarrow> bytes" where
  "ScreenInfoPacket_mem p =
     [sc_screen_no p] @ [sc_pad_1 p] @ mem16 (sc_server_port p) @ mem32 (sc_server_ip p) @
     sc_proto p @ sc_state p @ sc_promp p @ sc_tty_type p @ mem32 (sc_time p) @
     mem32 (sc_send_term_byte p) @ mem32 (sc_recv_term_byte p) @
     mem32 (sc_send_server_byte p) @ mem32 (sc_recv_server_byte p) @ mem32 (sc_ping_min p) @
     mem32 (sc_ping_avg p) @ mem32 (sc_ping_max p)"

definition ScreenInfoPacket_of :: "bytes \<Rightarrow> ScreenInfoPacket" where
  "ScreenInfoPacket_of bs =
     \<lparr>sc_screen_no = get8 0 bs, sc_pad_1 = get8 1 bs, sc_server_port = get16 2 bs,
      sc_server_ip = get32 4 bs, sc_proto = get_bytes 8 12 bs, sc_state = get_bytes 20 8 bs,
      sc_promp = get_bytes 28 24 bs, sc_tty_type = get_bytes 52 12 bs,
      sc_time = get32 64 bs, sc_send_term_byte = get32 68 bs,
      sc_recv_term_byte = get32 72 bs, sc_send_server_byte = get32 76 bs,
      sc_recv_server_byte = get32 80 bs, sc_ping_min = get32 84 bs,
      sc_ping_avg = get32 88 bs, sc_ping_max = get32 92 bs\<rparr>"

definition wf_ScreenInfoPacket :: "ScreenInfoPacket \<Rightarrow> bool" where
  "wf_ScreenInfoPacket p \<longleftrightarrow>
     length (sc_proto p) = 12 \<and> length (sc_state p) = 8 \<and>
     length (sc_promp p) = 24 \<and> length (sc_tty_type p) = 12"

lemma length_ScreenInfoPacket_mem [simp]: "wf_ScreenInfoPacket p \<Longrightarrow> length (ScreenInfoPacket_mem p) = sizeof_ScreenInfoPacket"
  by (simp add: wf_ScreenInfoPacket_def ScreenInfoPacket_mem_def sizeof_ScreenInfoPacket_def)

lemma ScreenInfoPacket_of_mem [simp]: "wf_ScreenInfoPacket p \<Longrightarrow> ScreenInfoPacket_of (ScreenInfoPacket_mem p) = p"
  by (simp add: wf_ScreenInfoPacket_def ScreenInfoPacket_mem_def ScreenInfoPacket_of_def layout_simps)

lemma ScreenInfoPacket_mem_of: "length bs = sizeof_ScreenInfoPacket \<Longrightarrow> ScreenInfoPacket_mem (ScreenInfoPacket_of bs) = bs"
  by (simp add: ScreenInfoPacket_mem_def ScreenInfoPacket_of_def sizeof_ScreenInfoPacket_def layout_simps)

lemma wf_ScreenInfoPacket_of [simp]: "length bs = sizeof_ScreenInfoPacket \<Longrightarrow> wf_ScreenInfoPacket (ScreenInfoPacket_of bs)"
  by (simp add: wf_ScreenInfoPacket_def ScreenInfoPacket_of_def sizeof_ScreenInfoPacket_def)

record USBStateResponsePacket =
  us_pad_1 :: bytes
  us_payload_size :: u16
  us_usb_is_inserted :: u8
  us_pad_2 :: bytes

definition sizeof_USBStateResponsePacket :: nat where
  "sizeof_USBStateResponsePacket = 8"

definition USBStateResponsePacket_mem :: "USBStateResponsePacket \<Rightarrow> bytes" where
  "USBStateResponsePacket_mem p =
     us_pad_1 p @ mem16 (us_payload_size p) @ [us_usb_is_inserted p] @ us_pad_2 p"

definition USBStateResponsePacket_of :: "bytes \<Rightarrow> USBStateResponsePacket" where
  "USBStateResponsePacket_of bs =
     \<lparr>us_pad_1 = get_bytes 0 2 bs, us_payload_size = get16 2 bs,
      us_usb_is_inserted = get8 4 bs, us_pad_2 = get_bytes 5 3 bs\<rparr>"

definition wf_USBStateResponsePacket :: "USBStateResponsePacket \<Rightarrow> bool" where
  "wf_USBStateResponsePacket p \<longleftrightarrow>
     length (us_pad_1 p) = 2 \<and> length (us_pad_2 p) = 3"

lemma length_USBStateResponsePacket_mem [simp]: "wf_USBStateResponsePacket p \<Longrightarrow> length (USBStateResponsePacket_mem p) = sizeof_USBStateResponsePacket"
  by (simp add: wf_USBStateResponsePacket_def USBStateResponsePacket_mem_def sizeof_USBStateResponsePacket_def)

lemma USBStateResponsePacket_of_mem [simp]: "wf_USBStateResponsePacket p \<Longrightarrow> USBStateResponsePacket_of (USBStateResponsePacket_mem p) = p"
  by (simp add: wf_USBStateResponsePacket_def USBStateResponsePacket_mem_def USBStateResponsePacket_of_def layout_simps)

lemma USBStateResponsePacket_mem_of: "length bs = sizeof_USBStateResponsePacket \<Longrightarrow> USBStateResponsePacket_mem (USBStateResponsePacket_of bs) = bs"
  by (simp add: USBStateResponsePacket_mem_def USBStateResponsePacket_of_def sizeof_USBStateResponsePacket_def layout_simps)

lemma wf_USBStateResponsePacket_of [simp]: "length bs = sizeof_USBStateResponsePacket \<Longrightarrow> wf_USBStateResponsePacket (USBStateResponsePacket_of bs)"
  by (simp add: wf_USBStateResponsePacket_def USBStateResponsePacket_of_def sizeof_USBStateResponsePacket_def)

record PrintDevResponsePacket =
  pd_pad_1 :: bytes
  pd_payload_size :: u16
  pd_print_is_usable :: u8
  pd_pad_2 :: u8
  pd_cnt_of_server :: u16
  pd_printer_name :: bytes

definition sizeof_PrintDevResponsePacket :: nat where
  "sizeof_PrintDevResponsePacket = 40"

definition PrintDevResponsePacket_mem :: "PrintDevResponsePacket \<Rightarrow> bytes" where
  "PrintDevResponsePacket_mem p =
     pd_pad_1 p @ mem16 (pd_payload_size p) @ [pd_print_is_usable p] @ [pd_pad_2 p] @
     mem16 (pd_cnt_of_server p) @ pd_printer_name p"

definition PrintDevResponsePacket_of :: "bytes \<Rightarrow> PrintDevResponsePacket" where
  "PrintDevResponsePacket_of bs =
     \<lparr>pd_pad_1 = get_bytes 0 2 bs, pd_payload_size = get16 2 bs,
      pd_print_is_usable = get8 4 bs, pd_pad_2 = get8 5 bs, pd_cnt_of_server = get16 6 bs,
      pd_printer_name = get_bytes 8 32 bs\<rparr>"

definition wf_PrintDevResponsePacket :: "PrintDevResponsePacket \<Rightarrow> bool" where
  "wf_PrintDevResponsePacket p \<longleftrightarrow>
     length (pd_pad_1 p) = 2 \<and> length (pd_printer_name p) = 32"

lemma length_PrintDevResponsePacket_mem [simp]: "wf_PrintDevResponsePacket p \<Longrightarrow> length (PrintDevResponsePacket_mem p) = sizeof_PrintDevResponsePacket"
  by (simp add: wf_PrintDevResponsePacket_def PrintDevResponsePacket_mem_def sizeof_PrintDevResponsePacket_def)

lemma PrintDevResponsePacket_of_mem [simp]: "wf_PrintDevResponsePacket p \<Longrightarrow> PrintDevResponsePacket_of (PrintDevResponsePacket_mem p) = p"
  by (simp add: wf_PrintDevResponsePacket_def PrintDevResponsePacket_mem_def PrintDevResponsePacket_of_def layout_simps)

lemma PrintDevResponsePacket_mem_of: "length bs = sizeof_PrintDevResponsePacket \<Longrightarrow> PrintDevResponsePacket_mem (PrintDevResponsePacket_of bs) = bs"
  by (simp add: PrintDevResponsePacket_mem_def PrintDevResponsePacket_of_def sizeof_PrintDevResponsePacket_def layout_simps)

lemma wf_PrintDevResponsePacket_of [simp]: "length bs = sizeof_PrintDevResponsePacket \<Longrightarrow> wf_PrintDevResponsePacket (PrintDevResponsePacket_of bs)"
  by (simp add: wf_PrintDevResponsePacket_def PrintDevResponsePacket_of_def sizeof_PrintDevResponsePacket_def)

lemmas sizeof_defs =
  sizeof_PacketHeader_def sizeof_AuthRequestPacket_def
  sizeof_VersionRequirePacket_def sizeof_AuthResponsePacket_def
  sizeof_PlainPacket_def sizeof_SysInfoResponsePacket_def
  sizeof_EtherInfoRequestPacket_def sizeof_EtherInfoResponsePacket_def
  sizeof_TerInfoResponsePacket_def sizeof_IPTermRequestPacket_def
  sizeof_IPTermResponsePacket_def sizeof_ScreenInfoPacket_def
  sizeof_USBStateResponsePacket_def sizeof_PrintDevResponsePacket_def

end
