(* ===== verification/Recv_Packet.thy ===== *)
theory Recv_Packet
  imports Circular_Queue Packets
begin

text \<open>
  \<^verbatim>\<open>CircularQueue::dequeue_packet\<close> of \<^verbatim>\<open>server/src/types.cpp\<close>: it takes a packet out of the
  receive buffer, its header, the bytes of the struct that belongs to its type and the rest.

  The struct lives on the heap; \<open>pk_first\<close> is \<open>None\<close> while nothing has been written to it (a
  \<^verbatim>\<open>dequeue\<close> that returned false). In screen mode the code never fills its local
  \<^verbatim>\<open>PacketHeader header\<close> and still uses it: what it finds there is the argument \<open>junk\<close>.
\<close>

record Packet =
  pk_header :: PacketHeader
  pk_first :: "bytes option"
  pk_second :: bytes

section \<open>\<^verbatim>\<open>size_t\<close> arithmetic\<close>

definition sub64 :: "nat \<Rightarrow> nat \<Rightarrow> nat" where
  "sub64 a b = nat ((int a - int b) mod 2 ^ 64)"

text \<open>\<^verbatim>\<open>vector<uint8_t>::max_size()\<close>; asking for more throws \<^verbatim>\<open>std::length_error\<close>.\<close>

definition max_vector :: nat where
  "max_vector = 2 ^ 63 - 1"

lemma sub64_le: "b \<le> a \<Longrightarrow> a < 2 ^ 64 \<Longrightarrow> sub64 a b = a - b"
  by (simp add: sub64_def flip: of_nat_diff)

lemma sub64_sub64: "sub64 (sub64 a b) c = sub64 a (b + c)"
  by (simp add: sub64_def mod_diff_left_eq diff_diff_eq)

lemma sub64_less: "a < b \<Longrightarrow> b < 2 ^ 63 \<Longrightarrow> max_vector < sub64 a b"
proof -
  assume *: "a < b" "b < 2 ^ 63"
  then have "(int a - int b) mod 2 ^ 64 = (int a - int b + 2 ^ 64) mod 2 ^ 64"
    by simp
  also have "\<dots> = int a - int b + 2 ^ 64"
    using * by (intro mod_pos_pos_trivial) simp_all
  finally show ?thesis
    using * by (simp add: sub64_def max_vector_def)
qed

section \<open>The packet\<close>

text \<open>The \<^verbatim>\<open>switch\<close> over the type; \<open>None\<close> where no case sets \<^verbatim>\<open>struct_size\<close>.\<close>

definition struct_size :: "u8 \<Rightarrow> nat option" where
  "struct_size t =
     (if t = code_of_type Auth then Some sizeof_AuthResponsePacket
      else if t = code_of_type SysInfo then Some sizeof_SysInfoResponsePacket
      else if t = code_of_type ConfInfo then Some sizeof_PlainPacket
      else if t = code_of_type ProcInfo then Some sizeof_PlainPacket
      else if t = code_of_type EtherInfo then Some sizeof_EtherInfoResponsePacket
      else if t = code_of_type TerInfo then Some sizeof_TerInfoResponsePacket
      else if t = code_of_type IPTerm then Some sizeof_IPTermResponsePacket
      else if t = code_of_type End then Some sizeof_PlainPacket
      else None)"

definition dequeue_screen :: "PacketHeader \<Rightarrow> circ_queue \<Rightarrow> fault + Packet \<times> circ_queue" where
  "dequeue_screen junk q =
     (let (first, q1) = dequeue sizeof_ScreenInfoPacket q;
          vector_size = sub64 (unat (hd_packet_size junk)) sizeof_ScreenInfoPacket
      in if vector_size > max_vector then Inl Length_Error
         else (let (_, q2) = dequeue vector_size q1
               in Inr (\<lparr>pk_header = junk, pk_first = first, pk_second = []\<rparr>, q2)))"

definition dequeue_packet ::
  "PacketHeader \<Rightarrow> bool \<Rightarrow> circ_queue \<Rightarrow> fault + Packet \<times> circ_queue" where
  "dequeue_packet junk is_scr q =
     (let packet_size = unat (current_packet_size q) in
      if is_scr then dequeue_screen junk q
      else (case dequeue kHeaderSize q of
        (None, _) \<Rightarrow> Inl Uninitialised_Read
      | (Some hb, q1) \<Rightarrow>
         (let header = PacketHeader_of hb in
          (case struct_size (hd_packet_type header) of
            None \<Rightarrow> Inl Uninitialised_Read
          | Some ssize \<Rightarrow>
             (let packet_size' =
                    (if hd_packet_type header = code_of_type IPTerm
                     then sizeof_IPTermResponsePacket + kHeaderSize else packet_size);
                  (first, q2) = dequeue ssize q1;
                  vector_size = sub64 (sub64 packet_size' kHeaderSize) ssize
              in if vector_size > max_vector then Inl Length_Error
                 else (let (rest, q3) = dequeue vector_size q2;
                           second = (case rest of Some v \<Rightarrow> v | None \<Rightarrow> replicate vector_size 0)
                       in Inr (\<lparr>pk_header = header, pk_first = first, pk_second = second\<rparr>,
                               q3)))))))"

lemma struct_size_bounds: "struct_size t = Some s \<Longrightarrow> 4 \<le> s \<and> s \<le> 276"
  by (auto simp: struct_size_def sizeof_defs split: if_splits)

lemma kHeaderSize_eq: "kHeaderSize = sizeof_PacketHeader"
  by (simp add: kHeaderSize_def sizeof_PacketHeader_def)

section \<open>What the queue holds\<close>

text \<open>
  \<open>framed q h body rest\<close>: the buffer starts with a packet of header \<open>h\<close> (as it lies in
  memory) and payload \<open>body\<close>, followed by \<open>rest\<close>. The header's length field, in network order,
  counts the header as well.
\<close>

definition framed :: "circ_queue \<Rightarrow> PacketHeader \<Rightarrow> bytes \<Rightarrow> bytes \<Rightarrow> bool" where
  "framed q h body rest \<longleftrightarrow> cq_inv q \<and> cq_list q = PacketHeader_mem h @ body @ rest"

lemma framed_size: "framed q h body rest \<Longrightarrow> queue_size q = 4 + length body + length rest"
  using length_cq_list [of q] by (simp add: framed_def sizeof_PacketHeader_def del: length_cq_list)

lemma framed_packet_size:
  assumes "framed q h body rest"
  shows "current_packet_size q = ntohs (hd_packet_size h)"
proof -
  have "cq_list q ! 2 = byte_of 0 (hd_packet_size h)" "cq_list q ! 3 = byte_of 1 (hd_packet_size h)"
    using assms by (simp_all add: framed_def PacketHeader_mem_def mem16_def numeral_3_eq_3)
  then show ?thesis
    using framed_size [OF assms] by (simp add: current_packet_size_list htons_def)
qed

lemma deq_prefix:
  assumes "cq_inv q" "cq_list q = xs @ ys" "length xs = n"
  obtains q' where "dequeue n q = (Some xs, q')" "cq_inv q'" "cq_list q' = ys"
    "cq_size q' = cq_size q"
proof -
  have "n \<le> length (cq_list q)" "n < 2 ^ 63"
    using assms cq.within [of q] cq.capacity_bound [of q] by simp_all
  with assms show ?thesis
    using that [of "snd (dequeue n q)"] cq.deq_has [of q n] cq.deq_keeps [of q n]
    by (cases "dequeue n q") auto
qed

text \<open>
  The packet that is there is the packet that comes out. For a type other than IPTerm the
  payload splits after the struct; for IPTerm only the struct is taken and the screens stay.
\<close>

lemma dequeue_packet_framed:
  assumes f: "framed q h (first @ second) rest"
    and ssize: "struct_size (hd_packet_type h) = Some (length first)"
    and psize: "unat (ntohs (hd_packet_size h)) = 4 + length first + length second"
    and type: "hd_packet_type h \<noteq> code_of_type IPTerm"
  shows "\<exists>q'. dequeue_packet junk False q =
      Inr (\<lparr>pk_header = h, pk_first = Some first, pk_second = second\<rparr>, q') \<and>
    cq_inv q' \<and> cq_list q' = rest \<and> cq_size q' = cq_size q"
proof -
  from f have q: "cq_inv q" "cq_list q = PacketHeader_mem h @ first @ second @ rest"
    by (simp_all add: framed_def)
  obtain q1 where q1: "dequeue kHeaderSize q = (Some (PacketHeader_mem h), q1)" "cq_inv q1"
    "cq_list q1 = first @ second @ rest" "cq_size q1 = cq_size q"
    by (rule deq_prefix [OF q, of kHeaderSize]) (simp add: kHeaderSize_eq)
  obtain q2 where q2: "dequeue (length first) q1 = (Some first, q2)" "cq_inv q2"
    "cq_list q2 = second @ rest" "cq_size q2 = cq_size q"
    using deq_prefix [OF q1(2,3) refl] q1(4) by metis
  obtain q3 where q3: "dequeue (length second) q2 = (Some second, q3)" "cq_inv q3"
    "cq_list q3 = rest" "cq_size q3 = cq_size q"
    using deq_prefix [OF q2(2,3) refl] q2(4) by metis
  have "4 + length first + length second < 2 ^ 16"
    using psize unat_16_lt [of "ntohs (hd_packet_size h)"] by simp
  then have "sub64 (sub64 (4 + length first + length second) kHeaderSize) (length first) =
      length second" "length second \<le> max_vector"
    by (simp_all add: sub64_le kHeaderSize_def max_vector_def)
  with q1 q2 q3 psize ssize type show ?thesis
    by (simp add: dequeue_packet_def framed_packet_size [OF f] not_less [symmetric])
qed

lemma dequeue_packet_ipterm:
  assumes f: "framed q h first rest"
    and type: "hd_packet_type h = code_of_type IPTerm"
    and len: "length first = sizeof_IPTermResponsePacket"
  shows "\<exists>q'. dequeue_packet junk False q =
      Inr (\<lparr>pk_header = h, pk_first = Some first, pk_second = []\<rparr>, q') \<and>
    cq_inv q' \<and> cq_list q' = rest \<and> cq_size q' = cq_size q"
proof -
  from f have q: "cq_inv q" "cq_list q = PacketHeader_mem h @ first @ rest"
    by (simp_all add: framed_def)
  obtain q1 where q1: "dequeue kHeaderSize q = (Some (PacketHeader_mem h), q1)" "cq_inv q1"
    "cq_list q1 = first @ rest" "cq_size q1 = cq_size q"
    by (rule deq_prefix [OF q, of kHeaderSize]) (simp add: kHeaderSize_eq)
  obtain q2 where q2: "dequeue sizeof_IPTermResponsePacket q1 = (Some first, q2)" "cq_inv q2"
    "cq_list q2 = rest" "cq_size q2 = cq_size q"
    using deq_prefix [OF q1(2,3) len] q1(4) by metis
  obtain q3 where q3: "dequeue 0 q2 = (Some [], q3)" "cq_inv q3" "cq_list q3 = rest"
    "cq_size q3 = cq_size q"
    using deq_prefix [OF q2(2), of "[]" rest 0] q2(3,4) by auto
  have "struct_size (hd_packet_type h) = Some sizeof_IPTermResponsePacket"
    by (simp add: type struct_size_def)
  with q1 q2 q3 type show ?thesis
    by (simp add: dequeue_packet_def sub64_le kHeaderSize_def sizeof_defs max_vector_def)
qed

text \<open>
  A length field too small for the struct makes the remainder wrap around, and the request for
  a vector of that size throws.
\<close>

lemma dequeue_packet_short:
  assumes f: "framed q h body rest"
    and ssize: "struct_size (hd_packet_type h) = Some s"
    and short: "unat (ntohs (hd_packet_size h)) < 4 + s"
    and type: "hd_packet_type h \<noteq> code_of_type IPTerm"
  shows "dequeue_packet junk False q = Inl Length_Error"
proof -
  from f have q: "cq_inv q" "cq_list q = PacketHeader_mem h @ body @ rest"
    by (simp_all add: framed_def)
  obtain q1 where q1: "dequeue kHeaderSize q = (Some (PacketHeader_mem h), q1)"
    by (rule deq_prefix [OF q, of kHeaderSize]) (simp add: kHeaderSize_eq)
  have "max_vector < sub64 (sub64 (unat (ntohs (hd_packet_size h))) kHeaderSize) s"
    using short struct_size_bounds [OF ssize] by (simp add: sub64_sub64 sub64_less kHeaderSize_def)
  with q1 ssize type show ?thesis
    by (simp add: dequeue_packet_def framed_packet_size [OF f] case_prod_beta)
qed

lemma dequeue_packet_unknown:
  assumes f: "framed q h body rest" and none: "struct_size (hd_packet_type h) = None"
  shows "dequeue_packet junk False q = Inl Uninitialised_Read"
proof -
  from f have q: "cq_inv q" "cq_list q = PacketHeader_mem h @ body @ rest"
    by (simp_all add: framed_def)
  obtain q1 where "dequeue kHeaderSize q = (Some (PacketHeader_mem h), q1)"
    by (rule deq_prefix [OF q, of kHeaderSize]) (simp add: kHeaderSize_eq)
  with none show ?thesis
    by (simp add: dequeue_packet_def)
qed

text \<open>Whatever the queue holds, a packet that is returned leaves a well-formed queue.\<close>

lemma deq_keeps_eq:
  "dequeue n q = (r, q') \<Longrightarrow> cq_inv q \<Longrightarrow> n \<le> max_vector \<Longrightarrow> cq_inv q' \<and> cq_size q' = cq_size q"
  using cq.deq_keeps [of q n] by (simp add: max_vector_def)

lemma dequeue_packet_inv:
  assumes inv: "cq_inv q" and ret: "dequeue_packet junk is_scr q = Inr (p, q')"
  shows "cq_inv q' \<and> cq_size q' = cq_size q"
proof -
  have small: "kHeaderSize \<le> max_vector" "sizeof_ScreenInfoPacket \<le> max_vector"
    by (simp_all add: kHeaderSize_def sizeof_defs max_vector_def)
  have ss: "s \<le> max_vector" if "struct_size t = Some s" for s t
    using struct_size_bounds [OF that] by (simp add: max_vector_def)
  show ?thesis
    using ret inv small
    by (auto simp: dequeue_packet_def dequeue_screen_def Let_def not_less
        split: if_splits prod.splits option.splits dest!: deq_keeps_eq dest: ss)
qed

text \<open>The header and the struct of a packet are the bytes at the head of the queue.\<close>

lemma dequeue_eq_Some:
  assumes "dequeue n q = (Some bs, q')" "cq_inv q" "n \<le> max_vector"
  shows "n \<le> queue_size q \<and> bs = take n (cq_list q) \<and> cq_list q' = drop n (cq_list q) \<and> cq_inv q'"
  using assms cq.deq_short [of q n] cq.deq_has [of q n] cq.deq_keeps [of q n]
  by (cases "n \<le> queue_size q") (auto simp: max_vector_def)

lemma dequeue_packet_content:
  assumes inv: "cq_inv q" and ret: "dequeue_packet junk False q = Inr (p, q')"
    and first: "pk_first p = Some bs"
  shows "struct_size (hd_packet_type (pk_header p)) = Some (length bs) \<and>
    pk_header p = PacketHeader_of (take 4 (cq_list q)) \<and>
    bs = take (length bs) (drop 4 (cq_list q)) \<and> 4 + length bs \<le> queue_size q"
proof -
  obtain hb q1 s q2 where h: "dequeue kHeaderSize q = (Some hb, q1)" "pk_header p = PacketHeader_of hb"
      "struct_size (hd_packet_type (pk_header p)) = Some s" "dequeue s q1 = (Some bs, q2)"
    using ret first
    by (auto simp: dequeue_packet_def Let_def split: if_splits prod.splits option.splits)
  have "kHeaderSize \<le> max_vector" "s \<le> max_vector"
    using struct_size_bounds [OF h(3)] by (simp_all add: kHeaderSize_def max_vector_def)
  note 1 = dequeue_eq_Some [OF h(1) inv this(1)] and s = this(2)
  then have "cq_inv q1" by simp
  note 2 = dequeue_eq_Some [OF h(4) this s]
  have "queue_size q1 = queue_size q - 4"
    using 1 by (metis kHeaderSize_def length_cq_list length_drop)
  with 1 2 h show ?thesis
    by (auto simp: kHeaderSize_def)
qed

section \<open>What the receive buffer promises\<close>

text \<open>
  C24: a packet whose length field is right (the size of header, struct and text)
  comes out of the buffer as it was put in, with its struct and its text separated, and what was
  received after it stays. For the terminal packet the length field does not count: only the
  struct is taken.
\<close>

theorem packet_roundtrip:
  assumes "framed q h (first @ second) rest"
    and "struct_size (hd_packet_type h) = Some (length first)"
    and "if hd_packet_type h = code_of_type IPTerm then second = []
         else unat (ntohs (hd_packet_size h)) = 4 + length first + length second"
  shows "\<exists>q'. dequeue_packet junk False q =
      Inr (\<lparr>pk_header = h, pk_first = Some first, pk_second = second\<rparr>, q') \<and>
    cq_inv q' \<and> cq_list q' = rest \<and> cq_size q' = cq_size q"
proof (cases "hd_packet_type h = code_of_type IPTerm")
  case True
  then have "length first = sizeof_IPTermResponsePacket"
    using assms(2) by (simp add: struct_size_def)
  then show ?thesis
    using dequeue_packet_ipterm [of q h first rest junk] assms True by simp
next
  case False
  then show ?thesis
    using dequeue_packet_framed [of q h first second rest junk] assms by simp
qed

text \<open>A ConfInfo packet with one byte of text, followed by the first byte of the next packet.\<close>

definition sample_packet :: PacketHeader where
  "sample_packet = \<lparr>hd_direction = 0x91, hd_packet_type = 0x03, hd_packet_size = htons 9\<rparr>"

definition sample_buffer :: circ_queue where
  "sample_buffer = snd (enqueue (PacketHeader_mem sample_packet @ [0, 0, 0, 1, 65, 0x91]) (new_queue (\<lambda>_. 0) 16))"

lemma sample_buffer_framed: "framed sample_buffer sample_packet ([0, 0, 0, 1] @ [65]) [0x91]"
proof -
  let ?q = "new_queue (\<lambda>_. 0) 16"
  have "cq_inv ?q" "queue_size ?q + length (PacketHeader_mem sample_packet @ [0, 0, 0, 1, 65, 0x91]) \<le> cq_size ?q"
    by (simp_all add: new_queue_def queue_size_def sizeof_PacketHeader_def cq_inv_def)
  from enqueue_ok [OF this] show ?thesis
    by (simp add: framed_def sample_buffer_def)
qed

theorem packet_roundtrip_witness:
  "\<exists>q'. dequeue_packet sample_packet False sample_buffer =
      Inr (\<lparr>pk_header = sample_packet, pk_first = Some [0, 0, 0, 1], pk_second = [65]\<rparr>, q') \<and>
    cq_inv q' \<and> cq_list q' = [0x91] \<and> cq_size q' = cq_size sample_buffer"
proof (rule packet_roundtrip [OF sample_buffer_framed])
  show "struct_size (hd_packet_type sample_packet) = Some (length [0, 0, 0, 1 :: u8])"
    by (simp add: sample_packet_def struct_size_def sizeof_defs)
  show "if hd_packet_type sample_packet = code_of_type IPTerm then [65 :: u8] = []
    else unat (ntohs (hd_packet_size sample_packet)) = 4 + length [0, 0, 0, 1 :: u8] + length [65 :: u8]"
    by (simp add: sample_packet_def)
qed

end
