(* ===== verification/Client_Secret.thy ===== *)
theory Client_Secret
  imports Prelude
begin

text \<open>
  The key table \<open>kSecret\<close> of \<^verbatim>\<open>client/shared_library.hpp\<close>, entry for entry. The client has its own copy of
  the table, so it is a definition of its own here. The 4096 entries are written as sixteen
  blocks of 256 (16 source lines of 16 entries each); \<open>client_kSecret\<close> is their
  concatenation.
\<close>

definition client_kSecret_00 :: "u8 list" where
  "client_kSecret_00 =
    [0x8B, 0xD6, 0xEE, 0xEB, 0x1B, 0x60, 0xBB, 0xF3, 0xBE, 0xA1, 0x31, 0xE7, 0xD9, 0x92, 0x2D, 0x88,
     0x22, 0xAB, 0x2B, 0x0A, 0x40, 0x48, 0x16, 0xE8, 0x4F, 0x6B, 0x7E, 0x6E, 0x6B, 0xAD, 0x9C, 0xF6,
     0x83, 0x8A, 0xE1, 0x9F, 0xEA, 0x9C, 0x92, 0xA8, 0x3D, 0xC3, 0x8F, 0x16, 0x55, 0xBD, 0x9E, 0x77,
     0x68, 0xC9, 0x82, 0xA8, 0x12, 0x98, 0x91, 0x61, 0x03, 0x0F, 0xD0, 0x6E, 0xBD, 0x6C, 0x64, 0x40,
     0xF6, 0x45, 0xDF, 0xE0, 0xE1, 0x71, 0x89, 0x1E, 0x34, 0x18, 0x35, 0x89, 0xD5, 0xD3, 0x01, 0x3E,
     0x9D, 0x83, 0xE6, 0xAF, 0x1B, 0x77, 0x10, 0x1E, 0x87, 0xE0, 0x8D, 0x44, 0x4C, 0xF1, 0x84, 0x42,
     0x37, 0x64, 0x23, 0x18, 0xD5, 0xAC, 0x37, 0x0A, 0xC4, 0x6C, 0x93, 0x9A, 0x3F, 0x94, 0xD8, 0xDC,
     0x17, 0xBE, 0x8B, 0x32, 0x36, 0x9C, 0x51, 0xBD, 0x7C, 0xDE, 0x01, 0xC9, 0xCF, 0x85, 0x0B, 0x06,
     0xE9, 0x2E, 0x1F, 0xBF, 0xDA, 0x56, 0xC9, 0x9F, 0xC2, 0x5C, 0x39, 0x01, 0xF1, 0x11, 0xDE, 0x08,
     0xCF, 0x69, 0x3B, 0x05, 0x05, 0x8C, 0xC2, 0x82, 0x6A, 0xC3, 0x4B, 0x39, 0x49, 0x56, 0x40, 0x32,
     0x85, 0x5F, 0xF1, 0x5F, 0xB5, 0xBA, 0xFE, 0x77, 0x17, 0x37, 0x78, 0x08, 0x48, 0x56, 0x10, 0x18,
     0xC0, 0x4B, 0x1D, 0xC5, 0xD7, 0xE0, 0x47, 0x41, 0xA3, 0x92, 0x7B, 0xEC, 0xE9, 0xBB, 0x1F, 0x6E,
     0x1A, 0x10, 0xCD, 0xCF, 0xCB, 0xCC, 0x46, 0xE2, 0x03, 0xBE, 0xEA, 0x4C, 0x15, 0xFA, 0x64, 0xD5,
     0x46, 0x81, 0x9A, 0x1D, 0x61, 0xE2, 0x5F, 0x05, 0x74, 0xDA, 0xF1, 0x5D, 0x95, 0x10, 0xCB, 0xAF,
     0x21, 0x99, 0x7E, 0xEC, 0x65, 0xC4, 0xCE, 0x68, 0x82, 0xB8, 0xB4, 0x97, 0xB2, 0x18, 0x6C, 0xF8,
     0x9A, 0x07, 0x16, 0xFB, 0xE9, 0x75, 0x00, 0x5D, 0x4F, 0xF2, 0xBB, 0xE4, 0x02, 0x86, 0x93, 0x23]"

definition client_kSecret_01 :: "u8 list" where
  "client_kSecret_01 =
    [0x1F, 0x11, 0x0F, 0x84, 0xD5, 0xDD, 0xED, 0x57, 0x95, 0xA1, 0xEF, 0x48, 0xBA, 0x5B, 0x40, 0x54,
     0x62, 0x56, 0x4F, 0x4B, 0xCB, 0x50, 0xA9, 0x1A, 0x42, 0x64, 0xFE, 0x44, 0xEA, 0x91, 0x68, 0x0A,
     0xA2, 0x77, 0x8E, 0x77, 0x55, 0x7B, 0xCF, 0xEA, 0x1D, 0xBE, 0x32, 0xD7, 0x19, 0x73, 0x2B, 0x7C,
     0xC9, 0x7A, 0xC7, 0x95, 0xCA, 0x70, 0xAF, 0x0C, 0xD4, 0xAE, 0x51, 0xBF, 0x3F, 0xB9, 0xC9, 0xE2,
     0x30, 0x57, 0x59, 0x85, 0xD3, 0x28, 0x70, 0xF0, 0xE6, 0xA2, 0xC7, 0x00, 0x15, 0xF2, 0x7C, 0xDF,
     0x6C, 0x43, 0x74, 0x37, 0xB4, 0x23, 0x43, 0x88, 0xD1, 0x94, 0x47, 0x11, 0x4D, 0x10, 0xF3, 0x7E,
     0x68, 0x4C, 0x03, 0x3B, 0x75, 0x73, 0x2B, 0x5B, 0x16, 0xF2, 0x5B, 0x2B, 0xE4, 0xD7, 0x0A, 0x50,
     0x1B, 0x7E, 0x87, 0xCF, 0xA2, 0xCB, 0x57, 0x73, 0x5F, 0x9F, 0x84, 0xAD, 0xAF, 0x77, 0x2B, 0x17,
     0xC4, 0x2E, 0x52, 0x39, 0xA2, 0x7D, 0x94, 0xB8, 0x6F, 0xF0, 0xE3, 0x53, 0xC7, 0xEE, 0xA4, 0xE2,
     0x6C, 0x2B, 0xB1, 0x0E, 0xF6, 0x09, 0x82, 0x56, 0xA8, 0x06, 0x03, 0x57, 0x7E, 0x2E, 0x6F, 0x42,
     0x5C, 0xC1, 0x7B, 0xFE, 0x3F, 0x0F, 0xB6, 0xAE, 0xFF, 0x9A, 0x02, 0xC7, 0x88, 0xA6, 0xA9, 0xF4,
     0xD1, 0x5B, 0x03, 0xC8, 0x64, 0x85, 0x1E, 0x0C, 0x8B, 0x21, 0x63, 0x09, 0x4F, 0xD2, 0x4B, 0xAB,
     0x94, 0xC6, 0xAA, 0xD3, 0xD6, 0x60, 0x81, 0xD5, 0xFA, 0x83, 0x9C, 0x82, 0x29, 0x46, 0x77, 0xFB,
     0xA1, 0x7A, 0xC3, 0x05, 0xFF, 0xE1, 0x11, 0x8A, 0x02, 0x74, 0x94, 0x51, 0x47, 0xDF, 0xFC, 0xDB,
     0xA6, 0xA6, 0xAE, 0x7C, 0x07, 0x2F, 0x51, 0x01, 0xB3, 0xEE, 0x84, 0xDC, 0x34, 0xFB, 0xD7, 0xD5,
     0x75, 0x9A, 0xDA, 0x74, 0x7B, 0xEB, 0xFE, 0x7D, 0x5F, 0x92, 0xCE, 0xA6, 0x72, 0xCB, 0x81, 0x18]"

definition client_kSecret_02 :: "u8 list" where
  "client_kSecret_02 =
    [0x71, 0x2F, 0x94, 0x78, 0x5F, 0xE5, 0x7A, 0x12, 0xD3, 0xFE, 0xEE, 0x07, 0xF9, 0xC6, 0xDC, 0x6E,
     0x60, 0xB6, 0xE2, 0xDC, 0xA1, 0xE0, 0x59, 0x01, 0x73, 0x28, 0xA7, 0xE5, 0xF3, 0x29, 0xFD, 0x64,
     0x58, 0x91, 0xDD, 0xB7, 0x76, 0x57, 0xC9, 0x4A, 0x55, 0xB8, 0x51, 0x4E, 0x7E, 0x2E, 0xBC, 0xDE,
     0xE4, 0x9E, 0xBA, 0x86, 0x7E, 0x14, 0x87, 0xF1, 0x3C, 0x2E, 0xD6, 0x2F, 0x57, 0xD3, 0x93, 0xB0,
     0x64, 0x70, 0x67, 0xDB, 0xC7, 0x31, 0x25, 0x1C, 0xE9, 0x76, 0x6A, 0x67, 0xA4, 0x26, 0x45, 0x89,
     0xC4, 0x00, 0x0F, 0x43, 0x14, 0x96, 0x34, 0x50, 0xC4, 0x0B, 0x7F, 0x1C, 0xDE, 0x12, 0xCC, 0x43,
     0x83, 0x33, 0x1E, 0x4A, 0x64, 0x43, 0x67, 0x4D, 0xB9, 0xD1, 0xB4, 0x5E, 0xF8, 0xFA, 0xE7, 0xBC,
     0xFA, 0xF6, 0xFF, 0x0E, 0x8C, 0x34, 0x5E, 0x50, 0x3F, 0xDD, 0x6C, 0x1D, 0xEF, 0x38, 0x60, 0x72,
     0x6C, 0x7E, 0xBD, 0xD0, 0xC1, 0x24, 0x1E, 0x7B, 0xF5, 0xD2, 0xD9, 0xED, 0xCC, 0xC0, 0xAA, 0xC6,
     0xB6, 0xA9, 0xD4, 0x42, 0xDD, 0x32, 0x92, 0x1C, 0x0F, 0xFF, 0x3A, 0xFF, 0x37, 0x9A, 0x71, 0xA3,
     0x19, 0x2E, 0x74, 0xDA, 0x52, 0x92, 0x55, 0x48, 0x64, 0x2E, 0x35, 0x31, 0xEE, 0xDF, 0xF7, 0xA4,
     0x89, 0xCC, 0xE6, 0x66, 0xFE, 0x79, 0x83, 0x0E, 0x78, 0xBD, 0x0D, 0xAF, 0x57, 0x7E, 0x53, 0x70,
     0xAD, 0xC7, 0x4B, 0xFF, 0x59, 0xA0, 0x47, 0xBD, 0xCF, 0x7D, 0xEE, 0xBD, 0x5C, 0xE6, 0x62, 0xE5,
     0xB2, 0x48, 0x4C, 0xB0, 0xC1, 0xCF, 0xBE, 0x39, 0x8C, 0xCB, 0xE9, 0xE3, 0x4A, 0x3C, 0x54, 0xF7,
     0x03, 0x9F, 0xF6, 0x5C, 0x3F, 0x3E, 0x19, 0x0E, 0xBB, 0x08, 0xCC, 0x17, 0xEE, 0x2E, 0xFD, 0xA0,
     0x76, 0x49, 0x50, 0x38, 0x18, 0x0F, 0x71, 0xA4, 0xDA, 0x5A, 0x87, 0x24, 0x96, 0xDB, 0x1B, 0x99]"

definition client_kSecret_03 :: "u8 list" where
  "client_kSecret_03 =
    [0x7A, 0x12, 0xF5, 0xBA, 0x50, 0x0F, 0xC8, 0x0B, 0x17, 0x94, 0x22, 0x05, 0xC2, 0x1F, 0xA5, 0x39,
     0x68, 0xF5, 0x71, 0x80, 0x04, 0xE2, 0x24, 0xDF, 0x3D, 0xAC, 0x03, 0xD3, 0x87, 0x1F, 0x6D, 0x02,
     0x31, 0x62, 0xBC, 0x81, 0x71, 0x84, 0x8C, 0x88, 0x19, 0xAE, 0x8D, 0xDB, 0xCE, 0x32, 0x14, 0x36,
     0x28, 0x85, 0xB7, 0x2C, 0x68, 0xDB, 0x0B, 0xA5, 0x87, 0x0F, 0x78, 0x0F, 0x2E, 0xE5, 0x11, 0x5F,
     0x48, 0xCD, 0xE0, 0xB9, 0x51, 0x6C, 0x42, 0x6A, 0x1A, 0xCF, 0x46, 0xE8, 0x02, 0x5A, 0x1F, 0x2A,
     0xE0, 0xD6, 0x56, 0x48, 0xB1, 0x62, 0xED, 0x39, 0x71, 0x65, 0x48, 0x9F, 0x4B, 0x59, 0xFE, 0x93,
     0x26, 0xDE, 0x4C, 0x77, 0x4A, 0x8E, 0xE2, 0x64, 0x5E, 0x28, 0x4D, 0x60, 0x82, 0x6C, 0x8A, 0x62,
     0x42, 0xE0, 0xAA, 0xF3, 0x42, 0x97, 0x2C, 0xB3, 0xFD, 0x74, 0x52, 0x48, 0xCD, 0x50, 0xDB, 0xF3,
     0x2E, 0x27, 0x6B, 0x78, 0xB6, 0x4D, 0xDD, 0x14, 0x75, 0x2A, 0x74, 0xF7, 0x96, 0xFE, 0x5A, 0xD8,
     0xDE, 0x04, 0xCB, 0x21, 0x9C, 0xF8, 0xD4, 0x99, 0x6C, 0x27, 0xE1, 0x3A, 0x77, 0xBC, 0x2D, 0xA6,
     0xE3, 0x98, 0x1E, 0x99, 0xE5, 0xFB, 0xAD, 0x5A, 0x25, 0x21, 0x52, 0xBB, 0x1F, 0xAC, 0x93, 0xFE,
     0xB0, 0x5F, 0x1F, 0x4C, 0x57, 0xF3, 0xE5, 0xC3, 0x1A, 0xC6, 0xFD, 0x92, 0x82, 0x2B, 0x38, 0x66,
     0xC3, 0x56, 0xFF, 0xA9, 0x52, 0xAD, 0x03, 0x77, 0xCE, 0x55, 0x33, 0xEE, 0x01, 0xC6, 0xEC, 0xB2,
     0x25, 0x0B, 0xFE, 0x7C, 0xFE, 0xE4, 0x40, 0x19, 0xAA, 0x3D, 0xAB, 0x2D, 0x68, 0xE3, 0x93, 0x2C,
     0x39, 0x92, 0xD5, 0x8B, 0x3F, 0xD8, 0x03, 0x0E, 0x2E, 0x36, 0xFC, 0x2F, 0xFC, 0xE8, 0xE1, 0x22,
     0xF3, 0xE0, 0x9E, 0xF1, 0xC4, 0xDE, 0x0A, 0x6E, 0x1C, 0xB5, 0x9B, 0x84, 0x98, 0x2E, 0xB0, 0xD2]"

definition client_kSecret_04 :: "u8 list" where
  "client_kSecret_04 =
    [0xC1, 0x85, 0x5D, 0x00, 0x5E, 0x60, 0x0E, 0x8C, 0x96, 0x0A, 0xBB, 0x93, 0xF2, 0x9D, 0xB5, 0xE5,
     0x7D, 0x53, 0xD7, 0x41, 0x32, 0xE1, 0xAF, 0x4E, 0x97, 0x4B, 0xD2, 0x2F, 0x79, 0x83, 0x01, 0x3A,
     0x08, 0x5F, 0x3B, 0x66, 0xBF, 0x49, 0xF2, 0x56, 0x54, 0xAE, 0xE9, 0x46, 0x4B, 0x9E, 0x2C, 0xC8,
     0xF1, 0x03, 0x09, 0x23, 0xE4, 0xB8, 0x71, 0x7B, 0x03, 0x44, 0xAB, 0x7D, 0xC7, 0xAC, 0xB7, 0xCF,
     0x0B, 0xF2, 0x36, 0xCB, 0x3C, 0x28, 0x21, 0x90, 0xD6, 0x0A, 0xD6, 0x21, 0xA8, 0x02, 0xE9, 0x99,
     0x05, 0xF2, 0xBD, 0xEA, 0xAB, 0x2E, 0x65, 0xAE, 0x72, 0x10, 0x2B, 0x39, 0xBD, 0xE3, 0x09, 0xC8,
     0xD5, 0x3F, 0x93, 0x11, 0x67, 0xB4, 0xA1, 0x3E, 0xBE, 0x78, 0x5F, 0x66, 0x7A, 0x49, 0x00, 0x80,
     0x3B, 0xBD, 0x6A, 0xE6, 0xEB, 0xCF, 0x95, 0x5E, 0xE0, 0xC0, 0x97, 0x9D, 0xA3, 0xA0, 0x65, 0x79,
     0xDF, 0xF9, 0x8A, 0x47, 0xAD, 0x2C, 0x85, 0x6C, 0xA4, 0xE4, 0xD2, 0x1E, 0x2D, 0xD2, 0x9E, 0x69,
     0x8F, 0x08, 0x4F, 0x7B, 0xD8, 0xE4, 0xD9, 0xB8, 0xA5, 0x70, 0x55, 0x48, 0x11, 0xBA, 0xC1, 0xF0,
     0xB3, 0x4C, 0x37, 0x61, 0x78, 0xBC, 0xCD, 0x1C, 0xA1, 0x9F, 0x3A, 0xCE, 0x72, 0xD9, 0x37, 0x01,
     0xE1, 0x87, 0x7C, 0xB9, 0x6B, 0x55, 0x71, 0x10, 0xC6, 0xC6, 0x59, 0xD7, 0x81, 0x1A, 0xC7, 0x34,
     0x66, 0xFF, 0x95, 0xDE, 0xBB, 0x62, 0xFA, 0x5C, 0x02, 0x35, 0x2B, 0x74, 0x0E, 0x62, 0x75, 0xEF,
     0xE9, 0xF2, 0xA9, 0x55, 0x47, 0x1A, 0x65, 0x0D, 0xE1, 0xBE, 0xE4, 0x62, 0xD9, 0xAC, 0x96, 0x3F,
     0xAB, 0x2C, 0x1E, 0x66, 0x8E, 0x18, 0xC3, 0x90, 0x4D, 0xEE, 0x04, 0x5B, 0x50, 0x7A, 0x4B, 0x3A,
     0x6C, 0xF4, 0x8F, 0xB3, 0x0E, 0xF4, 0xC1, 0xEF, 0xB3, 0xA5, 0x51, 0x8C, 0x51, 0xE8, 0xCB, 0xFC]"

definition client_kSecret_05 :: "u8 list" where
  "client_kSecret_05 =
    [0x14, 0xE9, 0x63, 0xA2, 0x02, 0x26, 0x33, 0x4F, 0x14, 0x37, 0xAB, 0x64, 0xB1, 0xF6, 0x9E, 0x1D,
     0xEA, 0x2D, 0xD1, 0xF8, 0x22, 0x92, 0xE8, 0xD5, 0x37, 0x39, 0x61, 0x89, 0x21, 0x2C, 0x85, 0x35,
     0x16, 0xE8, 0xD8, 0x18, 0x0E, 0x0B, 0x67, 0x22, 0x42, 0x12, 0x87, 0xF4, 0x08, 0x25, 0x11, 0xF2,
     0x53, 0xE2, 0xEB, 0x75, 0x74, 0xD3, 0x4A, 0xAC, 0x0C, 0xAB, 0x35, 0x2E, 0xD7, 0xBA, 0x63, 0xED,
     0xA3, 0x3B, 0x05, 0xB1, 0x46, 0x6D, 0xD4, 0x89, 0x7F, 0x5B, 0x7D, 0x88, 0x80, 0x8E, 0x7A, 0xD3,
     0x71, 0x65, 0x48, 0xE5, 0x38, 0x92, 0x91, 0x45, 0x3D, 0xC6, 0x73, 0x15, 0x81, 0xD6, 0x02, 0x24,
     0x12, 0x08, 0xD5, 0x58, 0x75, 0xA9, 0xE1, 0xF4, 0x04, 0x5E, 0x7C, 0x85, 0xED, 0xF7, 0x58, 0x5E,
     0x5C, 0xA1, 0x43, 0x95, 0x33, 0xD5, 0xDA, 0x71, 0x9B, 0x4D, 0x86, 0x1C, 0x23, 0x88, 0x40, 0x35,
     0x90, 0x16, 0x8E, 0x05, 0xBF, 0x6F, 0xFA, 0xC4, 0xCE, 0x76, 0x49, 0xBB, 0x6D, 0xA1, 0x19, 0xCA,
     0x42, 0x5C, 0x5F, 0x76, 0x31, 0x39, 0xE7, 0xCD, 0x86, 0x6D, 0xE9, 0xA9, 0xF5, 0x2A, 0xDF, 0x86,
     0x40, 0x6D, 0x8B, 0xFF, 0xDC, 0x85, 0xC3, 0xAA, 0xFC, 0x0C, 0x65, 0x69, 0xAE, 0x7E, 0x33, 0xF0,
     0xDB, 0x92, 0x66, 0x0C, 0xCB, 0x4D, 0xD9, 0x51, 0xBA, 0xC3, 0xFB, 0xB0, 0xED, 0xDA, 0x36, 0x2D,
     0x47, 0xC1, 0x2C, 0x23, 0x47, 0xF0, 0xCE, 0x43, 0xFC, 0x33, 0xAC, 0xAA, 0xB2, 0xE0, 0x9B, 0x8D,
     0x72, 0x01, 0x99, 0x3E, 0x4F, 0x73, 0x8F, 0x09, 0x36, 0x8A, 0xB9, 0x23, 0x64, 0xEF, 0x50, 0xAB,
     0xB1, 0x7C, 0xCF, 0xF8, 0x6C, 0x9D, 0x3B, 0x69, 0xD0, 0xE7, 0x13, 0x82, 0xC7, 0xAE, 0x0F, 0x3A,
     0xB0, 0xA9, 0x78, 0xFF, 0x1C, 0x07, 0x08, 0x52, 0x92, 0xC2, 0x75, 0xF6, 0xB1, 0xC5, 0xA2, 0x62]"

definition client_kSecret_06 :: "u8 list" where
  "client_kSecret_06 =
    [0x41, 0x71, 0x5A, 0xAE, 0x0E, 0x95, 0x17, 0xDE, 0x7D, 0x2A, 0x61, 0x44, 0xD9, 0x70, 0x7E, 0x89,
     0x19, 0xF6, 0x88, 0x35, 0xFE, 0x90, 0x87, 0x90, 0x52, 0xFC, 0x86, 0x04, 0xC1, 0x28, 0x66, 0x03,
     0x99, 0xC1, 0xB1, 0xA7, 0x56, 0xC8, 0x86, 0xD3, 0xF2, 0xE7, 0x18, 0xCB, 0x57, 0x96, 0x54, 0x71,
     0x8D, 0xDC, 0xA6, 0x8B, 0x6D, 0x2E, 0x1B, 0xBF, 0x2A, 0xA1, 0xC3, 0xEC, 0xCA, 0x2A, 0xEF, 0x63,
     0xEB, 0xA0, 0x0B, 0x41, 0x68, 0x91, 0x15, 0x5A, 0x78, 0x2D, 0x26, 0xCF, 0xC3, 0x7A, 0x40, 0x50,
     0x57, 0xE7, 0xDB, 0xC4, 0x15, 0xF6, 0x83, 0x3F, 0x98, 0x47, 0x2B, 0x62, 0x71, 0x1A, 0xC5, 0x5C,
     0xBA, 0xD0, 0x9D, 0x22, 0x61, 0xB2, 0x7D, 0xD9, 0xDF, 0xA3, 0xA9, 0xA3, 0x1D, 0xE9, 0xF3, 0x74,
     0xD0, 0xCF, 0x38, 0xE5, 0xC5, 0xBC, 0x25, 0x5D, 0x03, 0x50, 0xBF, 0x74, 0x6B, 0x85, 0xD0, 0x25,
     0x55, 0x6D, 0x48, 0xB7, 0x20, 0xC5, 0x90, 0xFF, 0x68, 0x39, 0xA2, 0x85, 0x23, 0x96, 0xFA, 0xF3,
     0x65, 0x32, 0xD9, 0x2A, 0xEE, 0xFE, 0x88, 0xF1, 0x4E, 0x47, 0x65, 0xB9, 0xCC, 0x35, 0xDF, 0x22,
     0xA3, 0x27, 0xD9, 0xC3, 0xEC, 0x69, 0xC2, 0x54, 0xA3, 0x65, 0xD9, 0xC6, 0xFB, 0xD3, 0xB9, 0x60,
     0x06, 0x92, 0x8A, 0xF4, 0x90, 0x12, 0xE6, 0xDF, 0x5A, 0x4B, 0x98, 0x26, 0x81, 0x77, 0x48, 0x24,
     0x9E, 0x21, 0xE7, 0x8A, 0x8B, 0xA9, 0xDE, 0x2E, 0x0E, 0xB8, 0xF4, 0x09, 0x8B, 0xAD, 0x69, 0x91,
     0x40, 0xF4, 0x86, 0xD0, 0x06, 0x6C, 0xAF, 0x60, 0xB7, 0x48, 0x87, 0x38, 0xBF, 0xCF, 0x5C, 0x5E,
     0xF1, 0x43, 0xE8, 0x7C, 0xED, 0xC7, 0xAA, 0xFB, 0x7F, 0x9E, 0x05, 0x0A, 0x4B, 0x6E, 0x9C, 0x8B,
     0x62, 0x22, 0x5C, 0x69, 0x8E, 0x0B, 0xC9, 0x45, 0x53, 0x50, 0x7E, 0x13, 0x20, 0xDA, 0x71, 0x11]"

definition client_kSecret_07 :: "u8 list" where
  "client_kSecret_07 =
    [0x1E, 0x59, 0x8D, 0x0B, 0x20, 0x37, 0x06, 0x9F, 0xD5, 0x0B, 0xAA, 0x20, 0x7A, 0x46, 0xAC, 0xDC,
     0x68, 0x08, 0x45, 0xF6, 0x13, 0x0F, 0x3B, 0x67, 0x5F, 0xB9, 0x7A, 0x7F, 0x94, 0xEB, 0x90, 0xB2,
     0x44, 0x1D, 0xBD, 0x65, 0x54, 0xC3, 0x04, 0x29, 0xCF, 0xAE, 0x4A, 0x49, 0xF4, 0xF6, 0x25, 0x5C,
     0xFE, 0x6B, 0x52, 0x11, 0x7A, 0x8E, 0x78, 0xD9, 0x47, 0xF2, 0x59, 0xDB, 0xDD, 0xE9, 0x8D, 0x22,
     0x07, 0x4A, 0x87, 0x5B, 0x0E, 0x8B, 0x85, 0xDD, 0x3A, 0xCF, 0x26, 0x2E, 0xC5, 0x4B, 0x8B, 0xC3,
     0xB6, 0xDD, 0xD4, 0x30, 0x6B, 0x4D, 0x0A, 0xB3, 0x3F, 0x63, 0x8E, 0x1D, 0x4C, 0x1C, 0x3F, 0x53,
     0x66, 0xC6, 0xAF, 0x74, 0x51, 0x34, 0x51, 0x8B, 0x03, 0x77, 0xBA, 0xC8, 0xC3, 0x45, 0x8B, 0x79,
     0x22, 0x5F, 0xAA, 0x8E, 0xAC, 0xB4, 0x41, 0xEC, 0x17, 0xCF, 0x09, 0x63, 0xEB, 0x48, 0xB7, 0x52,
     0x0E, 0x66, 0xC6, 0x5F, 0x9A, 0x18, 0xEB, 0x9D, 0x8F, 0xA5, 0x65, 0x52, 0xEA, 0xF0, 0xCC, 0x0C,
     0x4F, 0x76, 0x9A, 0xFC, 0x2A, 0xDB, 0xE8, 0x41, 0xAB, 0xF1, 0xA4, 0x96, 0x39, 0x5B, 0xE8, 0x47,
     0xC1, 0xAF, 0xA6, 0x5B, 0xC7, 0x91, 0xF8, 0x56, 0x36, 0x5D, 0xA9, 0x20, 0x4D, 0x75, 0x2D, 0x9D,
     0xEB, 0xC7, 0x99, 0x15, 0xA3, 0x81, 0x56, 0x4E, 0x72, 0xFA, 0xE4, 0xAB, 0x56, 0xCD, 0xF2, 0x17,
     0x7C, 0x98, 0x73, 0x43, 0x2A, 0x6B, 0x99, 0x60, 0xC9, 0x42, 0x81, 0x16, 0xB7, 0xAE, 0xB3, 0xA2,
     0x75, 0x4C, 0xB7, 0x18, 0xCD, 0x0D, 0x66, 0x3F, 0x08, 0x4B, 0xEA, 0x5E, 0x18, 0xDC, 0x75, 0x94,
     0x75, 0xE8, 0xD7, 0x9F, 0x54, 0x70, 0xFF, 0x1D, 0xB3, 0x80, 0x33, 0x6A, 0x2E, 0xE7, 0x0D, 0xA4,
     0x33, 0xC4, 0xBC, 0x01, 0xD2, 0x23, 0x40, 0xDA, 0x6E, 0x2B, 0x38, 0x86, 0x07, 0xAD, 0x1A, 0x7C]"

definition client_kSecret_08 :: "u8 list" where
  "client_kSecret_08 =
    [0x96, 0xF1, 0x1B, 0xEA, 0x61, 0x1B, 0x07, 0x14, 0x9B, 0x3A, 0x7F, 0xCA, 0x21, 0x8C, 0x6E, 0x55,
     0x50, 0x2A, 0x56, 0x22, 0x4D, 0x96, 0xFC, 0xBB, 0xC1, 0x34, 0x41, 0xC9, 0xE2, 0x5B, 0x45, 0x78,
     0x4C, 0x61, 0x62, 0xAE, 0x7C, 0x69, 0xC2, 0x17, 0xA3, 0x41, 0xE1, 0xC5, 0xCD, 0x4F, 0x1A, 0x1E,
     0x7A, 0x70, 0x40, 0xC7, 0x06, 0x3D, 0x83, 0xC8, 0x71, 0xC4, 0x91, 0x53, 0x20, 0xD6, 0xCB, 0x6C,
     0x37, 0x2D, 0x1A, 0xB3, 0x96, 0xDD, 0xCB, 0x3A, 0x1E, 0xAC, 0xFF, 0xEC, 0xFC, 0x19, 0x0A, 0x76,
     0x89, 0x4A, 0x3D, 0x8F, 0x87, 0xC0, 0x57, 0xF9, 0x85, 0xE8, 0x4C, 0xA5, 0xBF, 0x18, 0x11, 0xF6,
     0x45, 0x2C, 0xAA, 0xDC, 0x09, 0x75, 0x16, 0x27, 0x21, 0x15, 0x13, 0x1D, 0x2E, 0x1D, 0x93, 0xB7,
     0x68, 0xD1, 0x46, 0xEF, 0x91, 0x9E, 0xE8, 0x16, 0x86, 0x35, 0xBB, 0x45, 0x4D, 0xCD, 0x3C, 0x92,
     0xF9, 0xE6, 0x6E, 0x02, 0x5B, 0x84, 0x29, 0x7C, 0x99, 0x3D, 0x9A, 0xC7, 0x5A, 0x2D, 0x7E, 0xC2,
     0xFE, 0xC5, 0xB2, 0x90, 0x63, 0x9A, 0xA6, 0xE9, 0xCF, 0x62, 0x2F, 0x1C, 0x2F, 0x6B, 0xAF, 0x28,
     0x51, 0x1D, 0x2A, 0xAC, 0xA2, 0x53, 0x28, 0x3B, 0x90, 0xC2, 0x03, 0xEB, 0xF0, 0x81, 0xAD, 0xEE,
     0x46, 0x5F, 0x7E, 0xA9, 0xFA, 0x25, 0x93, 0xC9, 0x87, 0xC2, 0xE6, 0xB6, 0x2D, 0x95, 0xDE, 0x7E,
     0xB2, 0x08, 0x2A, 0x54, 0x5B, 0x52, 0x90, 0xEC, 0x15, 0x93, 0xD7, 0x05, 0x14, 0x84, 0xF3, 0x5B,
     0xE4, 0x72, 0x04, 0xDE, 0x97, 0x97, 0xA7, 0x1E, 0x59, 0x8D, 0xD4, 0x86, 0x22, 0xB2, 0x04, 0xD5,
     0xBA, 0x2E, 0x29, 0x15, 0x81, 0xB9, 0x01, 0x96, 0x4C, 0xD8, 0x9B, 0x61, 0x5D, 0x8E, 0xBC, 0x41,
     0x00, 0xC0, 0x1F, 0x97, 0x58, 0xC6, 0xB5, 0xB1, 0x54, 0x89, 0x38, 0x76, 0x3B, 0x3C, 0x4B, 0xF5]"

definition client_kSecret_09 :: "u8 list" where
  "client_kSecret_09 =
    [0x6B, 0x75, 0x0B, 0xEC, 0x2E, 0x0C, 0x82, 0x7B, 0xE5, 0x1D, 0xDC, 0x42, 0xAB, 0x98, 0x83, 0xAC,
     0x58, 0xA2, 0x43, 0xB0, 0x68, 0xF9, 0x62, 0xBC, 0x82, 0x9A, 0x33, 0xBE, 0xD6, 0x7E, 0xB3, 0x41,
     0xF3, 0xBE, 0x2D, 0x22, 0xCB, 0xAF, 0x9D, 0xB0, 0xCC, 0x79, 0xF2, 0x78, 0x11, 0x75, 0x24, 0x69,
     0x17, 0x67, 0x1A, 0x7F, 0x60, 0x7C, 0x3C, 0xE3, 0x16, 0x6F, 0xA1, 0xEC, 0xED, 0x54, 0x2E, 0xE1,
     0x13, 0x5B, 0x03, 0xDE, 0x0B, 0xA0, 0x8E, 0xD7, 0x19, 0x80, 0x4F, 0x2A, 0xF5, 0x73, 0x93, 0x0C,
     0xDB, 0xAD, 0x8B, 0x3B, 0x29, 0xC7, 0x1E, 0x3F, 0x36, 0xBF, 0x2C, 0x24, 0x14, 0x5A, 0x05, 0x27,
     0xB5, 0x08, 0x05, 0xC0, 0xA8, 0x93, 0x98, 0xC1, 0x13, 0xE7, 0xEB, 0x08, 0x5B, 0x7E, 0x14, 0x36,
     0x2C, 0x9F, 0x71, 0x55, 0x67, 0x90, 0x95, 0x9D, 0x4F, 0xC1, 0xC1, 0x63, 0x1B, 0xC6, 0x8A, 0xD0,
     0xCE, 0x8F, 0x91, 0x76, 0x22, 0x29, 0x37, 0x35, 0x10, 0x22, 0x3D, 0x6B, 0xA1, 0x51, 0xA1, 0xCD,
     0xF1, 0x13, 0x22, 0x58, 0xA3, 0xB7, 0xF5, 0xF2, 0x78, 0xB7, 0x56, 0x93, 0x7D, 0xE0, 0x64, 0x4C,
     0x70, 0xF5, 0xC2, 0x92, 0x1E, 0xFA, 0xC8, 0x2E, 0x1C, 0x05, 0x9A, 0xBD, 0x57, 0x3B, 0x8A, 0x48,
     0x4E, 0xAD, 0xA0, 0xF1, 0x64, 0x95, 0xE4, 0xDD, 0x4C, 0x3A, 0x70, 0xCA, 0x1A, 0xD4, 0x16, 0x8A,
     0xC9, 0xD8, 0x1D, 0xE7, 0xD2, 0xE5, 0x16, 0xEF, 0xEA, 0xB0, 0xAC, 0x41, 0xEB, 0x37, 0x89, 0x3A,
     0xE4, 0x29, 0x2B, 0x48, 0xBF, 0x0F, 0x25, 0x0B, 0x49, 0x96, 0xD5, 0x64, 0x6A, 0xEB, 0xEE, 0x34,
     0xC4, 0x0B, 0x1B, 0x96, 0xF0, 0x31, 0x85, 0xDB, 0xE1, 0x32, 0x1C, 0xCD, 0x69, 0xA6, 0x07, 0x4D,
     0xCF, 0x32, 0x95, 0x8E, 0x42, 0xBB, 0x9A, 0x8B, 0x51, 0x6F, 0xEF, 0xBB, 0x5B, 0xDE, 0xEF, 0x1F]"

definition client_kSecret_10 :: "u8 list" where
  "client_kSecret_10 =
    [0xE9, 0x0B, 0xB5, 0xDA, 0x3C, 0x3B, 0xB5, 0x1E, 0x6D, 0xD1, 0xEB, 0xD6, 0x77, 0xF2, 0x23, 0x47,
     0x24, 0xB8, 0xD5, 0x66, 0x73, 0x6F, 0xF2, 0xC4, 0xDF, 0xE1, 0x80, 0x3A, 0xBF, 0x6F, 0x59, 0xA9,
     0x7A, 0x0E, 0x83, 0xB7, 0x49, 0x38, 0xD5, 0xB6, 0x09, 0xC0, 0x8C, 0x81, 0xB2, 0xAF, 0xC8, 0xD6,
     0x68, 0x9D, 0x3D, 0xDB, 0x0D, 0x2F, 0xA0, 0xEC, 0x10, 0x20, 0x26, 0xD0, 0x8F, 0x7F, 0x79, 0x0A,
     0x8D, 0xFC, 0xC1, 0xD7, 0x34, 0x96, 0x8D, 0x3D, 0x56, 0x1A, 0xBE, 0x08, 0xC9, 0x86, 0xDE, 0x31,
     0x24, 0x1B, 0x0D, 0x31, 0x4A, 0xAD, 0x1D, 0x5B, 0xCD, 0x43, 0x2B, 0x5C, 0xC2, 0xA4, 0x66, 0x4F,
     0xA0, 0x27, 0x26, 0xD4, 0xBD, 0xB4, 0x11, 0x13, 0xCE, 0xD0, 0x1B, 0x97, 0x56, 0xFA, 0xC9, 0x7A,
     0x15, 0xD6, 0xAB, 0x60, 0x83, 0xC8, 0xBB, 0x50, 0x0B, 0xE6, 0xAC, 0xCD, 0x8A, 0x13, 0x1D, 0x2A,
     0x3A, 0x43, 0xFE, 0xF8, 0xF7, 0x0F, 0x0B, 0xC5, 0xDF, 0x27, 0x5D, 0x36, 0x21, 0x26, 0xB0, 0x36,
     0xFC, 0x5C, 0x96, 0x7F, 0x24, 0x51, 0xCF, 0x30, 0x37, 0x7B, 0xFD, 0xC1, 0x8E, 0x1A, 0xEB, 0xC9,
     0x5E, 0xE9, 0xC1, 0x55, 0xF9, 0xCC, 0x1B, 0xD8, 0xF3, 0x78, 0x0E, 0x14, 0x9E, 0xBF, 0x4B, 0x9A,
     0x1B, 0xE1, 0x19, 0x3F, 0x33, 0xE8, 0x6F, 0x6A, 0x63, 0x6D, 0x2C, 0xF2, 0x87, 0x17, 0xBB, 0xE5,
     0x01, 0x7C, 0x3B, 0xFA, 0x48, 0x56, 0xD2, 0x3C, 0xCE, 0xE1, 0x50, 0x6C, 0xA0, 0x9B, 0x06, 0xBB,
     0x7D, 0x1F, 0xFA, 0xB0, 0x07, 0x6A, 0x1A, 0x6A, 0xD7, 0x46, 0x5C, 0x5E, 0x5E, 0x17, 0x44, 0x5F,
     0x93, 0x7F, 0x59, 0xDC, 0xD5, 0x2B, 0x18, 0xA3, 0x0C, 0x68, 0x0F, 0xAC, 0x04, 0x15, 0x67, 0x81,
     0x34, 0x62, 0x31, 0x3B, 0xCC, 0x4B, 0xA5, 0xA3, 0x92, 0x02, 0x01, 0xF0, 0x19, 0x45, 0x4F, 0xAD]"

definition client_kSecret_11 :: "u8 list" where
  "client_kSecret_11 =
    [0xC4, 0xA8, 0x89, 0x99, 0xD3, 0xA1, 0x3C, 0xE0, 0x09, 0x4B, 0x8C, 0x0D, 0x60, 0xF4, 0x8E, 0x94,
     0x56, 0xBF, 0xCF, 0x22, 0x0B, 0x75, 0xC5, 0x9D, 0x77, 0xC6, 0x8D, 0x90, 0x0C, 0xDC, 0x3D, 0xD0,
     0x84, 0xC6, 0x6A, 0x57, 0x67, 0xA6, 0x37, 0x71, 0xF2, 0xC4, 0x7E, 0x52, 0xB8, 0x0D, 0xE7, 0x0E,
     0xCC, 0xB6, 0x30, 0xD7, 0x2B, 0xF5, 0x74, 0xA2, 0xBB, 0x01, 0x33, 0xC7, 0xDD, 0x70, 0x98, 0x61,
     0x37, 0x02, 0xB9, 0x9E, 0xA8, 0xF0, 0x0F, 0x9A, 0xB4, 0x8E, 0xED, 0x6C, 0x9B, 0xD4, 0x7A, 0x67,
     0x8A, 0xAA, 0x3F, 0xB6, 0x9F, 0xB3, 0x58, 0x5B, 0xB5, 0x8B, 0x22, 0x92, 0xFC, 0xBA, 0xF4, 0x33,
     0xBC, 0xAD, 0xD1, 0x65, 0x9D, 0xE1, 0xFF, 0x52, 0x6F, 0xEC, 0xBE, 0x0A, 0xC0, 0x39, 0x71, 0x4B,
     0xE3, 0xB0, 0x01, 0x83, 0x64, 0x59, 0xDE, 0x19, 0xE5, 0x00, 0xAB, 0xE1, 0xBB, 0x9F, 0x14, 0x77,
     0x4C, 0xE5, 0xDC, 0xEA, 0xC6, 0xDC, 0x3C, 0x35, 0xC8, 0xFA, 0x3F, 0x89, 0x33, 0xB1, 0xD4, 0x17,
     0x61, 0xD5, 0x9A, 0xC5, 0x2E, 0x78, 0xDE, 0x13, 0x78, 0x8A, 0xF4, 0x33, 0x29, 0x08, 0xAB, 0x76,
     0xEE, 0x87, 0x60, 0xB4, 0x63, 0x9C, 0xEA, 0x2C, 0x96, 0x29, 0xB5, 0xCA, 0xDA, 0x89, 0xE1, 0x3C,
     0x5E, 0x7B, 0x01, 0x8C, 0xF3, 0xE0, 0xA0, 0x6B, 0x6A, 0x94, 0x9F, 0x93, 0x9D, 0x4A, 0x09, 0x8B,
     0xD1, 0x69, 0x3F, 0x35, 0x05, 0x29, 0x61, 0x9C, 0x53, 0x16, 0x66, 0x2D, 0x9F, 0x47, 0x69, 0xFD,
     0xC2, 0x6B, 0x89, 0xB5, 0x4B, 0x29, 0x20, 0xB5, 0xBE, 0xBF, 0x48, 0x5B, 0x09, 0x52, 0xE6, 0xDB,
     0xBB, 0x25, 0x10, 0xC1, 0x4F, 0x71, 0x5D, 0xA2, 0x87, 0xC3, 0xCF, 0x26, 0x0A, 0x39, 0x23, 0xCC,
     0xA4, 0xAC, 0x81, 0xEF, 0xD6, 0xA1, 0xA4, 0x94, 0x61, 0xEC, 0xEF, 0x6A, 0x3E, 0xD5, 0x45, 0xFA]"

definition client_kSecret_12 :: "u8 list" where
  "client_kSecret_12 =
    [0xFA, 0x55, 0xBB, 0x49, 0xC6, 0x18, 0xEB, 0x4D, 0xDB, 0xBB, 0x73, 0xE5, 0xF4, 0x96, 0xB1, 0x98,
     0x43, 0x32, 0x87, 0x19, 0xD3, 0x2B, 0xAD, 0x34, 0x17, 0x9C, 0x9F, 0x56, 0x71, 0xE4, 0x50, 0x6B,
     0x3A, 0x0B, 0xB5, 0x00, 0x23, 0xA0, 0x4E, 0xFE, 0x5B, 0xC1, 0xE3, 0x4F, 0x58, 0x94, 0xE7, 0x9B,
     0xC6, 0x6E, 0xB4, 0x99, 0x99, 0x61, 0xCE, 0xB1, 0xFD, 0x6D, 0x07, 0x6E, 0x51, 0x57, 0xD9, 0x8B,
     0x62, 0x8E, 0x8C, 0x85, 0x2F, 0xDA, 0x83, 0x8A, 0x9B, 0x66, 0xDA, 0xF3, 0xFA, 0xC1, 0x8E, 0xC0,
     0x30, 0x42, 0x59, 0xC9, 0xA3, 0x27, 0x7A, 0xA0, 0x94, 0x81, 0x0E, 0xE6, 0xD8, 0xE8, 0x71, 0x3A,
     0x76, 0xFD, 0xBF, 0xA5, 0xD7, 0x42, 0x30, 0x73, 0xA8, 0x0A, 0x66, 0xA2, 0xCB, 0xF5, 0x62, 0xFB,
     0x37, 0xBC, 0xC5, 0xDB, 0xE3, 0x3F, 0x7B, 0x78, 0xC1, 0x8A, 0x5E, 0x99, 0x72, 0xCF, 0xD4, 0xE8,
     0xCD, 0x93, 0x8E, 0xA4, 0xD6, 0xBE, 0x17, 0x7E, 0xC8, 0x7E, 0x21, 0x93, 0x73, 0x83, 0x8F, 0xAA,
     0x3F, 0x54, 0x85, 0x23, 0x93, 0x01, 0x9B, 0x54, 0x8B, 0xF9, 0xEE, 0xFD, 0xC8, 0xC2, 0xE5, 0x95,
     0x55, 0x73, 0x3A, 0x2B, 0x31, 0x51, 0xAA, 0xF9, 0xCF, 0xCB, 0x8D, 0x42, 0x4E, 0x1C, 0xED, 0x8E,
     0x70, 0x72, 0xB1, 0x03, 0x73, 0x4C, 0x58, 0xFE, 0x45, 0x46, 0xFB, 0x0D, 0x08, 0xE1, 0xA3, 0x5D,
     0x54, 0xDD, 0x89, 0x86, 0x2E, 0x33, 0x7F, 0xFE, 0xFE, 0x0C, 0x40, 0x4C, 0x28, 0x2D, 0xDA, 0x98,
     0xA0, 0x8B, 0x9C, 0x13, 0xD7, 0xF4, 0x12, 0x1C, 0x3A, 0x0D, 0x2A, 0x42, 0xEE, 0xCD, 0x9F, 0x43,
     0xAA, 0x28, 0xC9, 0xD8, 0x5B, 0x48, 0xD6, 0x59, 0x55, 0x17, 0xA6, 0x7D, 0x44, 0x80, 0x16, 0xE4,
     0x0C, 0xB2, 0xF8, 0xE3, 0xA6, 0x0A, 0x00, 0xE0, 0x17, 0x2A, 0x22, 0x06, 0xF7, 0xC1, 0x49, 0xA1]"

definition client_kSecret_13 :: "u8 list" where
  "client_kSecret_13 =
    [0xEA, 0x12, 0x79, 0x45, 0x5A, 0x50, 0x9F, 0xAF, 0x67, 0x45, 0x2D, 0xAB, 0xC5, 0x43, 0x90, 0xD1,
     0xF5, 0x88, 0xB5, 0x9B, 0x92, 0xB5, 0x7B, 0xA9, 0xDF, 0x9D, 0xAF, 0xD6, 0x5E, 0xF8, 0x77, 0x48,
     0x0A, 0xF0, 0x8E, 0x65, 0x40, 0x2D, 0x14, 0xA7, 0x72, 0x41, 0x53, 0x37, 0x84, 0xE3, 0x09, 0x79,
     0x6B, 0xBE, 0x14, 0xFD, 0x73, 0x8F, 0xA6, 0x52, 0x2C, 0x56, 0x28, 0x8B, 0x4E, 0x9F, 0xD3, 0x59,
     0x8F, 0x61, 0xBE, 0xD0, 0x8E, 0xD2, 0x77, 0x00, 0x14, 0xCA, 0x38, 0x98, 0xAD, 0x41, 0x12, 0x18,
     0xFF, 0x26, 0x15, 0x72, 0xB6, 0xBC, 0xC4, 0xE2, 0x12, 0xEC, 0x6D, 0x60, 0x8B, 0x41, 0xB9, 0x1A,
     0xA2, 0x77, 0xEA, 0x31, 0x4A, 0x62, 0x31, 0x5E, 0x2C, 0x69, 0xF6, 0xDA, 0xAA, 0x08, 0xF2, 0xA9,
     0x2F, 0x08, 0x1B, 0xE5, 0xC4, 0xDF, 0xC7, 0xD6, 0xCB, 0x35, 0x36, 0x56, 0x76, 0xF0, 0x71, 0x18,
     0x67, 0x5B, 0x49, 0xB1, 0xBD, 0x7B, 0x0F, 0xEA, 0xE4, 0x06, 0xC4, 0x8F, 0x0E, 0xB6, 0x38, 0x3D,
     0xBE, 0x54, 0x22, 0x82, 0x33, 0xEA, 0x58, 0xFF, 0x1F, 0x8F, 0x55, 0x95, 0x7F, 0xC6, 0xAD, 0xE6,
     0x22, 0xF7, 0x98, 0xDF, 0x72, 0xA7, 0xC9, 0x56, 0xAD, 0x8D, 0xE5, 0xBC, 0x44, 0x1E, 0xF9, 0x02,
     0x72, 0x1C, 0x85, 0xA5, 0x06, 0xDD, 0xA4, 0x25, 0x6C, 0xFA, 0xBA, 0xEB, 0xC0, 0x67, 0xD2, 0xE2,
     0x5E, 0x6A, 0xC2, 0xD0, 0x11, 0x8B, 0x27, 0xBF, 0x19, 0x0C, 0x7B, 0x5D, 0x2A, 0x74, 0x5F, 0x9C,
     0x90, 0xE4, 0x42, 0x96, 0xC2, 0xE6, 0xBB, 0x2E, 0xE0, 0x75, 0x1A, 0xA1, 0xDD, 0xEC, 0x83, 0x3B,
     0x56, 0x45, 0x0C, 0x67, 0xD1, 0x33, 0x26, 0xEA, 0x3F, 0xA1, 0x47, 0x6A, 0x16, 0xA6, 0x06, 0xA6,
     0x8B, 0x48, 0x3D, 0x4D, 0x2F, 0xF8, 0x7B, 0x0F, 0x6E, 0x95, 0xB0, 0x4B, 0x81, 0x34, 0x86, 0xD7]"

definition client_kSecret_14 :: "u8 list" where
  "client_kSecret_14 =
    [0x79, 0x92, 0x3F, 0x4A, 0xC5, 0x65, 0x34, 0x05, 0x07, 0x7B, 0x6F, 0x1D, 0x22, 0x75, 0xC3, 0xAD,
     0xBE, 0x00, 0xFA, 0xED, 0xF9, 0x75, 0xFC, 0x67, 0x0B, 0xAD, 0xB2, 0x8C, 0xE1, 0x38, 0x64, 0x5A,
     0xCB, 0xA3, 0xA5, 0x90, 0x08, 0xD9, 0x95, 0x0F, 0x55, 0x04, 0x2C, 0x77, 0x7A, 0xF0, 0x24, 0x38,
     0xF0, 0x1E, 0x25, 0xE9, 0x93, 0x21, 0x50, 0x9E, 0xCE, 0x02, 0x2B, 0xAF, 0x3B, 0x8F, 0x0A, 0x06,
     0x32, 0xAF, 0x96, 0x3A, 0x88, 0x2C, 0x4A, 0xDD, 0x30, 0x76, 0x54, 0xAA, 0x66, 0x78, 0xE2, 0x57,
     0x96, 0x07, 0x40, 0x2A, 0x29, 0x91, 0xC8, 0xF7, 0x93, 0xF3, 0xA7, 0xCE, 0x82, 0xB1, 0xD4, 0xB4,
     0x60, 0x6B, 0xEF, 0xE8, 0x97, 0x39, 0xC6, 0xC7, 0xAF, 0x1A, 0x72, 0x16, 0x93, 0x54, 0x6D, 0x29,
     0x5C, 0xAD, 0x53, 0x85, 0x3E, 0x1C, 0x7C, 0xD2, 0x0F, 0x23, 0xA0, 0x92, 0xD4, 0x75, 0x46, 0x34,
     0xE0, 0x35, 0x1D, 0x77, 0x6E, 0xE3, 0x3E, 0x1E, 0xFD, 0xB0, 0x34, 0x90, 0x05, 0xA1, 0xBA, 0x61,
     0x4E, 0x0D, 0xE6, 0x8D, 0x29, 0x62, 0x5F, 0x39, 0x86, 0xFF, 0xCB, 0x5A, 0x74, 0x11, 0x8F, 0x54,
     0x47, 0xAC, 0xCB, 0xB5, 0x8F, 0x0A, 0xD3, 0x8C, 0xBA, 0x07, 0x1D, 0xBF, 0xA8, 0xD7, 0x20, 0xF7,
     0xE4, 0x06, 0x84, 0x0E, 0x69, 0xE3, 0x47, 0xEF, 0xE2, 0x12, 0x49, 0x57, 0x23, 0xD8, 0xAB, 0x6A,
     0x84, 0x77, 0x20, 0x13, 0x81, 0xF3, 0xA0, 0x3B, 0xFB, 0xBD, 0xFB, 0xA3, 0x94, 0x1B, 0x9A, 0x78,
     0x22, 0x1E, 0x86, 0x8B, 0x01, 0xCD, 0x7A, 0xE4, 0xDF, 0xC3, 0x3B, 0x03, 0x9C, 0xE6, 0x6D, 0x20,
     0x5D, 0x8D, 0x34, 0xDE, 0x81, 0xD4, 0x1A, 0x7C, 0x91, 0x15, 0x1F, 0x25, 0x30, 0xBA, 0x9D, 0x52,
     0xD8, 0x24, 0xDD, 0xDA, 0xF1, 0x57, 0xBE, 0xD1, 0x1B, 0xF9, 0xD4, 0xB7, 0xDF, 0x41, 0xD7, 0x3D]"

definition client_kSecret_15 :: "u8 list" where
  "client_kSecret_15 =
    [0xCF, 0x0B, 0x1B, 0x50, 0xDF, 0x35, 0xCC, 0x70, 0x4A, 0xEB, 0x95, 0x7B, 0xA5, 0x33, 0xCD, 0x7E,
     0x57, 0xAB, 0x58, 0x48, 0x02, 0x16, 0x19, 0x1D, 0x0F, 0xED, 0xD4, 0xEE, 0x2F, 0xAC, 0x2B, 0xFE,
     0xB7, 0x47, 0x4E, 0x97, 0x7C, 0x1A, 0x07, 0xC7, 0x05, 0x9D, 0x42, 0xAB, 0xD0, 0x0F, 0x29, 0x27,
     0xBA, 0x81, 0x6F, 0xBD, 0x97, 0x89, 0xDA, 0xA6, 0x76, 0xAF, 0x94, 0xA5, 0x5B, 0xC0, 0xA3, 0x12,
     0x07, 0xF1, 0xA9, 0x83, 0x0B, 0xB1, 0x4A, 0x11, 0x4E, 0x8C, 0xBC, 0x1E, 0x9C, 0xE5, 0x45, 0x56,
     0x66, 0xB4, 0x13, 0xFD, 0x3D, 0xEE, 0xA3, 0xB4, 0x9D, 0x37, 0x59, 0xF8, 0xF7, 0xFD, 0x0A, 0xFE,
     0xEE, 0xB4, 0x82, 0xFA, 0x65, 0xCC, 0x0B, 0xB3, 0x59, 0xC7, 0xD1, 0xF5, 0xAC, 0x16, 0x4B, 0x12,
     0xCA, 0x5F, 0x0F, 0x08, 0x4D, 0xB2, 0xBC, 0xEA, 0xE9, 0x15, 0xE2, 0xE1, 0x12, 0xEC, 0xDF, 0x01,
     0xA0, 0x61, 0xFB, 0x05, 0x2E, 0x06, 0xB8, 0x87, 0xCD, 0x89, 0x7C, 0x79, 0x9F, 0xC7, 0x8B, 0x6A,
     0x26, 0x9A, 0x72, 0x73, 0x4C, 0x2E, 0x5D, 0x35, 0x43, 0x3F, 0x16, 0x56, 0x2C, 0xF6, 0x57, 0xCC,
     0x57, 0x52, 0xD2, 0x85, 0x58, 0x8A, 0x0C, 0x25, 0x14, 0x88, 0x9E, 0xB3, 0x50, 0x29, 0x1D, 0x76,
     0xC3, 0x8F, 0xEA, 0x0F, 0xBD, 0x47, 0x44, 0x01, 0x87, 0x5B, 0x57, 0xB3, 0x51, 0xAE, 0x7F, 0xA8,
     0x00, 0x51, 0x2E, 0x58, 0xDC, 0x3A, 0x7D, 0xF0, 0xC3, 0x1B, 0xA3, 0x13, 0x44, 0xC1, 0x89, 0x07,
     0x50, 0x73, 0x16, 0x0E, 0xBB, 0x5A, 0x0F, 0x42, 0xB5, 0x66, 0xF5, 0x06, 0x14, 0x74, 0xAF, 0x14,
     0xC6, 0xDD, 0x6C, 0xA2, 0x17, 0xE9, 0x92, 0xDA, 0x04, 0x35, 0xED, 0x48, 0xF6, 0x77, 0x4F, 0x47,
     0xEA, 0x65, 0x55, 0xA5, 0xBF, 0x64, 0xE7, 0x75, 0xCA, 0xDC, 0x7B, 0xDE, 0x51, 0x2A, 0xF2, 0x17]"

definition client_kSecret :: "u8 list" where
  "client_kSecret =
     client_kSecret_00 @ client_kSecret_01 @
     client_kSecret_02 @ client_kSecret_03 @
     client_kSecret_04 @ client_kSecret_05 @
     client_kSecret_06 @ client_kSecret_07 @
     client_kSecret_08 @ client_kSecret_09 @
     client_kSecret_10 @ client_kSecret_11 @
     client_kSecret_12 @ client_kSecret_13 @
     client_kSecret_14 @ client_kSecret_15"

lemmas client_kSecret_block_defs =
  client_kSecret_00_def client_kSecret_01_def
  client_kSecret_02_def client_kSecret_03_def
  client_kSecret_04_def client_kSecret_05_def
  client_kSecret_06_def client_kSecret_07_def
  client_kSecret_08_def client_kSecret_09_def
  client_kSecret_10_def client_kSecret_11_def
  client_kSecret_12_def client_kSecret_13_def
  client_kSecret_14_def client_kSecret_15_def

lemma length_client_kSecret_blocks:
  "length client_kSecret_00 = 256"
  "length client_kSecret_01 = 256"
  "length client_kSecret_02 = 256"
  "length client_kSecret_03 = 256"
  "length client_kSecret_04 = 256"
  "length client_kSecret_05 = 256"
  "length client_kSecret_06 = 256"
  "length client_kSecret_07 = 256"
  "length client_kSecret_08 = 256"
  "length client_kSecret_09 = 256"
  "length client_kSecret_10 = 256"
  "length client_kSecret_11 = 256"
  "length client_kSecret_12 = 256"
  "length client_kSecret_13 = 256"
  "length client_kSecret_14 = 256"
  "length client_kSecret_15 = 256"
  by (simp_all add: client_kSecret_block_defs)

lemma length_client_kSecret [simp]: "length client_kSecret = 4096"
  by (simp add: client_kSecret_def length_client_kSecret_blocks)

end
