(* ===== verification/Cipher.thy ===== *)
theory Cipher
  imports Server_Secret Client_Secret
begin

text \<open>
  \<^verbatim>\<open>encrypt_auth\<close> and \<^verbatim>\<open>decrypt_auth\<close>: the byte stream of the table \<open>kSecret\<close>, read cyclically
  modulo 4093 from a position the sender draws, is XORed over the message, and the receiver
  compares the end of the result with a constant. Server (\<^verbatim>\<open>server/src/presentation.cpp\<close>) and
  client (\<^verbatim>\<open>client/shared_library.cpp\<close>) have the same text over their own tables, so the loops
  take the table as an argument and each program's functions instantiate it.

  An array argument with its \<^verbatim>\<open>length\<close> is the list of its first \<^verbatim>\<open>length\<close> bytes. \<^verbatim>\<open>time(0)\<close> is
  the argument \<open>now\<close> (already cast to \<^verbatim>\<open>u_int\<close>) and \<open>rnd seed\<close> is what the first \<^verbatim>\<open>rand()\<close>
  after \<^verbatim>\<open>srand(seed)\<close> returns, both properties of the C library.
\<close>

section \<open>The loops\<close>

definition kPeriod :: nat where
  "kPeriod = 4093"

fun encrypt_loop :: "bytes \<Rightarrow> nat \<Rightarrow> bytes \<Rightarrow> bytes" where
  "encrypt_loop tbl pos [] = []"
| "encrypt_loop tbl pos (a # as) =
     (a XOR tbl ! pos) # encrypt_loop tbl ((pos + 1) mod kPeriod) as"

text \<open>\<^verbatim>\<open>"yzmond:id*str&to!tongji@by#Auth^"\<close>, its 32 bytes without the terminator.\<close>

definition c_auth :: bytes where
  "c_auth = map (\<lambda>c. of_nat (of_char c)) ''yzmond:id*str&to!tongji@by#Auth^''"

text \<open>
  The loop of \<^verbatim>\<open>decrypt_auth\<close> from index \<open>i\<close> on: the rest of the array as the call leaves it
  and the value returned. The early \<^verbatim>\<open>return false\<close> leaves the bytes after it as they were.
\<close>

fun decrypt_loop :: "bytes \<Rightarrow> nat \<Rightarrow> nat \<Rightarrow> nat \<Rightarrow> bytes \<Rightarrow> bytes \<times> bool" where
  "decrypt_loop tbl len i pos [] = ([], True)"
| "decrypt_loop tbl len i pos (a # as) =
     (let a' = a XOR tbl ! pos in
      if int i > int len - 32 \<and> a' \<noteq> c_auth ! nat (int i - int len + 32) then (a' # as, False)
      else (let (as', ok) = decrypt_loop tbl len (i + 1) ((pos + 1) mod kPeriod) as
            in (a' # as', ok)))"

definition encrypt_auth :: "bytes \<Rightarrow> u32 \<Rightarrow> (u32 \<Rightarrow> u32) \<Rightarrow> bytes \<Rightarrow> u32 \<times> u32 \<times> bytes" where
  "encrypt_auth tbl now rnd auth =
     (let svr_time = now XOR 0xFFFFFFFF;
          random_num = rnd svr_time
      in (random_num, svr_time, encrypt_loop tbl (unat random_num mod kPeriod) auth))"

definition decrypt_auth :: "bytes \<Rightarrow> u32 \<Rightarrow> bytes \<Rightarrow> bytes \<times> bool" where
  "decrypt_auth tbl random_num auth =
     decrypt_loop tbl (length auth) 0 (unat random_num mod kPeriod) auth"

definition server_encrypt_auth :: "u32 \<Rightarrow> (u32 \<Rightarrow> u32) \<Rightarrow> bytes \<Rightarrow> u32 \<times> u32 \<times> bytes" where
  "server_encrypt_auth = encrypt_auth server_kSecret"

definition server_decrypt_auth :: "u32 \<Rightarrow> bytes \<Rightarrow> bytes \<times> bool" where
  "server_decrypt_auth = decrypt_auth server_kSecret"

definition client_encrypt_auth :: "u32 \<Rightarrow> (u32 \<Rightarrow> u32) \<Rightarrow> bytes \<Rightarrow> u32 \<times> u32 \<times> bytes" where
  "client_encrypt_auth = encrypt_auth client_kSecret"

definition client_decrypt_auth :: "u32 \<Rightarrow> bytes \<Rightarrow> bytes \<times> bool" where
  "client_decrypt_auth = decrypt_auth client_kSecret"

section \<open>The stream, position by position\<close>

text \<open>\<open>stream tbl r i\<close> is the key byte used for byte \<open>i\<close> of a message sent with number \<open>r\<close>.\<close>

definition stream :: "bytes \<Rightarrow> u32 \<Rightarrow> nat \<Rightarrow> u8" where
  "stream tbl r i = tbl ! ((unat r + i) mod kPeriod)"

definition crypt :: "bytes \<Rightarrow> u32 \<Rightarrow> bytes \<Rightarrow> bytes" where
  "crypt tbl r m = encrypt_loop tbl (unat r mod kPeriod) m"

lemma length_c_auth [simp]: "length c_auth = 32"
  by (simp add: c_auth_def)

lemma length_encrypt_loop [simp]: "length (encrypt_loop tbl pos m) = length m"
  by (induction tbl pos m rule: encrypt_loop.induct) simp_all

lemma nth_encrypt_loop:
  "i < length m \<Longrightarrow> pos < kPeriod \<Longrightarrow>
     encrypt_loop tbl pos m ! i = m ! i XOR tbl ! ((pos + i) mod kPeriod)"
proof (induction tbl pos m arbitrary: i rule: encrypt_loop.induct)
  case (2 tbl pos a as)
  then show ?case
    by (cases i) (auto simp: kPeriod_def mod_simps)
qed simp

lemma length_crypt [simp]: "length (crypt tbl r m) = length m"
  by (simp add: crypt_def)

lemma nth_crypt: "i < length m \<Longrightarrow> crypt tbl r m ! i = m ! i XOR stream tbl r i"
  by (simp add: crypt_def nth_encrypt_loop stream_def kPeriod_def mod_simps)

lemma crypt_crypt [simp]: "crypt tbl r (crypt tbl r m) = m"
  by (rule nth_equalityI) (simp_all add: nth_crypt xor.assoc)

lemma encrypt_auth_eq:
  "encrypt_auth tbl now rnd m =
     (rnd (NOT now), NOT now, crypt tbl (rnd (NOT now)) m)"
proof -
  have "(0xFFFFFFFF :: u32) = - 1"
    by simp
  then have "now XOR 0xFFFFFFFF = NOT now"
    by (simp only: bit.xor_one_right)
  then show ?thesis
    by (simp add: encrypt_auth_def crypt_def Let_def)
qed

text \<open>
  The test of the loop at index \<open>i\<close> of a message of \<open>len\<close> bytes: it compares only from
  index \<open>len - 31\<close> on, so the first of the 32 constant's bytes is never compared.
\<close>

definition tail_ok :: "nat \<Rightarrow> nat \<Rightarrow> bytes \<Rightarrow> bool" where
  "tail_ok len i m \<longleftrightarrow> (\<forall>k < length m. len < i + k + 32 \<longrightarrow> m ! k = c_auth ! (i + k + 32 - len))"

lemma tail_ok_Cons:
  "tail_ok len i (a # m) \<longleftrightarrow>
     (len < i + 32 \<longrightarrow> a = c_auth ! (i + 32 - len)) \<and> tail_ok len (Suc i) m"
  by (auto simp: tail_ok_def All_less_Suc2 less_Suc_eq_0_disj nth_Cons' split: if_splits)

lemma decrypt_loop_eq:
  "pos < kPeriod \<Longrightarrow>
     snd (decrypt_loop tbl len i pos m) = tail_ok len i (encrypt_loop tbl pos m) \<and>
     length (fst (decrypt_loop tbl len i pos m)) = length m \<and>
     (tail_ok len i (encrypt_loop tbl pos m) \<longrightarrow>
        fst (decrypt_loop tbl len i pos m) = encrypt_loop tbl pos m)"
proof (induction tbl len i pos m rule: decrypt_loop.induct)
  case (1 tbl len i pos)
  show ?case by (simp add: tail_ok_def)
next
  case (2 tbl len i pos a as)
  let ?a = "a XOR tbl ! pos" and ?pos = "(pos + 1) mod kPeriod"
  have test: "int i > int len - 32 \<longleftrightarrow> len < i + 32" "nat (int i - int len + 32) = i + 32 - len"
    by linarith+
  have "?pos < kPeriod" by (simp add: kPeriod_def)
  with 2 show ?case
    by (auto simp: Let_def test tail_ok_Cons split: prod.splits)
qed

lemma decrypt_auth_snd:
  "snd (decrypt_auth tbl r m) \<longleftrightarrow> tail_ok (length m) 0 (crypt tbl r m)"
  by (simp add: decrypt_auth_def crypt_def decrypt_loop_eq kPeriod_def)

lemma decrypt_auth_fst:
  "snd (decrypt_auth tbl r m) \<Longrightarrow> fst (decrypt_auth tbl r m) = crypt tbl r m"
  by (simp add: decrypt_auth_def crypt_def decrypt_loop_eq kPeriod_def)

lemma length_decrypt_auth [simp]: "length (fst (decrypt_auth tbl r m)) = length m"
  by (simp add: decrypt_auth_def decrypt_loop_eq kPeriod_def)

lemma tail_ok_iff:
  assumes "32 \<le> length m"
  shows "tail_ok (length m) 0 m \<longleftrightarrow> drop (length m - 31) m = drop 1 c_auth"
proof -
  have "tail_ok (length m) 0 m \<longleftrightarrow> (\<forall>j < 31. m ! (length m - 31 + j) = c_auth ! Suc j)"
    (is "_ \<longleftrightarrow> ?r")
  proof
    assume t: "tail_ok (length m) 0 m"
    show ?r
    proof (intro allI impI)
      fix j :: nat assume "j < 31"
      with assms have "length m - 31 + j < length m" "length m < 0 + (length m - 31 + j) + 32"
        "0 + (length m - 31 + j) + 32 - length m = Suc j"
        by linarith+
      with t show "m ! (length m - 31 + j) = c_auth ! Suc j"
        unfolding tail_ok_def by metis
    qed
  next
    assume r: ?r
    show "tail_ok (length m) 0 m"
      unfolding tail_ok_def
    proof (intro allI impI)
      fix k assume k: "k < length m" "length m < 0 + k + 32"
      with assms have "k - (length m - 31) < 31" "length m - 31 + (k - (length m - 31)) = k"
        "Suc (k - (length m - 31)) = 0 + k + 32 - length m"
        by linarith+
      with r show "m ! k = c_auth ! (0 + k + 32 - length m)"
        by metis
    qed
  qed
  also have "\<dots> \<longleftrightarrow> drop (length m - 31) m = drop 1 c_auth"
    using assms by (auto simp: list_eq_iff_nth_eq)
  finally show ?thesis .
qed

section \<open>The interface between sender and receiver\<close>

text \<open>
  What the protocol relies on when one program encrypts and the other decrypts: the sender's
  core \<open>enc r m\<close> and the receiver's \<open>dec r c\<close>, whose second component is the verdict. The laws:
  lengths are kept, an accepted ciphertext is decrypted to the message it was made from, and
  the verdict is a test of the plaintext alone.
\<close>

locale authenticated_link =
  fixes enc :: "u32 \<Rightarrow> bytes \<Rightarrow> bytes"
    and dec :: "u32 \<Rightarrow> bytes \<Rightarrow> bytes \<times> bool"
    and passes :: "bytes \<Rightarrow> bool"
  assumes length_enc: "length (enc r m) = length m"
    and length_dec: "length (fst (dec r m)) = length m"
    and dec_enc: "passes m \<Longrightarrow> dec r (enc r m) = (m, True)"
    and verdict: "snd (dec r (enc r m)) \<longleftrightarrow> passes m"
    and enc_onto: "enc r (enc r m) = m"
begin

lemma accepted_iff: "snd (dec r c) \<longleftrightarrow> passes (enc r c)"
  using verdict [of r "enc r c"] by (simp add: enc_onto)

lemma accepted_plain: "snd (dec r c) \<Longrightarrow> fst (dec r c) = enc r c \<and> enc r (fst (dec r c)) = c"
  using dec_enc [of "enc r c" r] accepted_iff [of r c] by (simp add: enc_onto)

lemma accepted_inj:
  "snd (dec r c) \<Longrightarrow> snd (dec r d) \<Longrightarrow> fst (dec r c) = fst (dec r d) \<Longrightarrow> c = d"
  using accepted_plain by metis

end

definition server_crypt :: "u32 \<Rightarrow> bytes \<Rightarrow> bytes" where
  "server_crypt = crypt server_kSecret"

definition client_crypt :: "u32 \<Rightarrow> bytes \<Rightarrow> bytes" where
  "client_crypt = crypt client_kSecret"

definition auth_tail :: "bytes \<Rightarrow> bool" where
  "auth_tail m \<longleftrightarrow> tail_ok (length m) 0 m"

lemma tables_equal: "client_kSecret = server_kSecret"
  by (simp add: server_kSecret_def client_kSecret_def server_kSecret_block_defs
      client_kSecret_block_defs)

lemma decrypt_crypt:
  "auth_tail m \<Longrightarrow> decrypt_auth tbl r (crypt tbl r m) = (m, True)"
  using decrypt_auth_snd [of tbl r "crypt tbl r m"] decrypt_auth_fst [of tbl r "crypt tbl r m"]
  by (simp add: auth_tail_def prod_eq_iff)

lemma decrypt_crypt_verdict: "snd (decrypt_auth tbl r (crypt tbl r m)) \<longleftrightarrow> auth_tail m"
  by (simp add: decrypt_auth_snd auth_tail_def)

interpretation s2c: authenticated_link server_crypt client_decrypt_auth auth_tail
  by unfold_locales
    (simp_all add: server_crypt_def client_decrypt_auth_def tables_equal decrypt_crypt
      decrypt_crypt_verdict)

interpretation c2s: authenticated_link client_crypt server_decrypt_auth auth_tail
  by unfold_locales
    (simp_all add: client_crypt_def server_decrypt_auth_def tables_equal decrypt_crypt
      decrypt_crypt_verdict)

section \<open>What the exchange promises, and what it does not\<close>

lemma auth_tail_append: "auth_tail (p @ x # drop 1 c_auth)"
  using tail_ok_iff [of "p @ x # drop 1 c_auth"] by (simp add: auth_tail_def)

lemma c_auth_Cons: "c_auth = hd c_auth # drop 1 c_auth"
  by (metis Cons_nth_drop_Suc One_nat_def drop0 hd_conv_nth length_c_auth length_greater_0_conv
      zero_less_numeral)

lemma c2s_encrypt:
  "auth_tail m \<Longrightarrow> (let (r, t, c) = client_encrypt_auth now rnd m in server_decrypt_auth r c = (m, True))"
  using c2s.dec_enc by (simp add: client_encrypt_auth_def encrypt_auth_eq client_crypt_def)

lemma s2c_encrypt:
  "auth_tail m \<Longrightarrow> (let (r, t, c) = server_encrypt_auth now rnd m in client_decrypt_auth r c = (m, True))"
  using s2c.dec_enc by (simp add: server_encrypt_auth_def encrypt_auth_eq server_crypt_def)

text \<open>
  C20: whatever the clock and the random generator give, what one program encrypts
  the other accepts and decrypts to the original, in both directions, for every message that ends
  in the 32 bytes of the secret string.
\<close>

theorem handshake_roundtrip:
  "(let (r, t, c) = client_encrypt_auth now rnd (p @ c_auth)
    in server_decrypt_auth r c = (p @ c_auth, True)) \<and>
   (let (r, t, c) = server_encrypt_auth now rnd (p @ c_auth)
    in client_decrypt_auth r c = (p @ c_auth, True))"
  using c2s_encrypt [of "p @ c_auth"] s2c_encrypt [of "p @ c_auth"]
    auth_tail_append [of p "hd c_auth"] c_auth_Cons by simp

lemma server_verdict:
  assumes "32 \<le> length c"
  shows "snd (server_decrypt_auth r c) \<longleftrightarrow>
    (\<forall>k < 31. c ! (length c - 31 + k) XOR
       server_kSecret ! ((unat r + (length c - 31 + k)) mod 4093) = c_auth ! (k + 1))"
proof -
  have "snd (server_decrypt_auth r c) \<longleftrightarrow>
      drop (length c - 31) (crypt server_kSecret r c) = drop 1 c_auth"
    using assms tail_ok_iff [of "crypt server_kSecret r c"]
    by (simp add: server_decrypt_auth_def decrypt_auth_snd)
  also have "\<dots> \<longleftrightarrow> (\<forall>k < 31. crypt server_kSecret r c ! (length c - 31 + k) = c_auth ! (k + 1))"
    using assms by (auto simp: list_eq_iff_nth_eq)
  also have "\<dots> \<longleftrightarrow> (\<forall>k < 31. c ! (length c - 31 + k) XOR
       server_kSecret ! ((unat r + (length c - 31 + k)) mod 4093) = c_auth ! (k + 1))"
    using assms by (auto simp: nth_crypt stream_def kPeriod_def)
  finally show ?thesis .
qed

text \<open>
  The server's verdict on a message of at least 32 bytes depends on its last 31
  bytes alone, and is positive if these, combined with the table from the position the client
  named, are the last 31 bytes of the secret string.
\<close>

theorem verdict_last_31:
  assumes "32 \<le> length c"
  shows "snd (server_decrypt_auth r c) \<longleftrightarrow>
    (\<forall>k < 31. c ! (length c - 31 + k) XOR
       server_kSecret ! ((unat r + (length c - 31 + k)) mod 4093) = c_auth ! (k + 1))"
  by (rule server_verdict [OF assms])

theorem verdict_last_31_witness:
  "\<forall>r. snd (server_decrypt_auth r (replicate 104 0)) \<longleftrightarrow>
    (\<forall>k < 31. server_kSecret ! ((unat r + (73 + k)) mod 4093) = c_auth ! (k + 1))"
proof
  fix r :: u32
  have "(replicate 104 (0 :: u8)) ! (73 + k) = 0" if "k < 31" for k
    using that by (intro nth_replicate) simp
  then show "snd (server_decrypt_auth r (replicate 104 0)) \<longleftrightarrow>
    (\<forall>k < 31. server_kSecret ! ((unat r + (73 + k)) mod 4093) = c_auth ! (k + 1))"
    using verdict_last_31 [of "replicate 104 0" r] by simp
qed

text \<open>
  A message whose first byte of the secret string is wrong is accepted like
  the right one: the loop compares from \<^verbatim>\<open>i > length-32\<close> on, one byte too late.
\<close>

theorem first_byte_ignored:
  "(let (r, t, c) = client_encrypt_auth now rnd (p @ x # drop 1 c_auth)
    in server_decrypt_auth r c = (p @ x # drop 1 c_auth, True))"
  by (rule c2s_encrypt [OF auth_tail_append])

lemma unat_of_nat32: "n < 2 ^ 32 \<Longrightarrow> unat (of_nat n :: u32) = n"
  by (simp add: unat_of_nat take_bit_eq_mod)

lemma echo_accepted:
  assumes s: "(unat s + length g) mod kPeriod = unat r mod kPeriod"
  shows "snd (server_decrypt_auth s (g @ crypt server_kSecret r c_auth))"
proof -
  have "(unat s + (length g + i)) mod kPeriod = (unat r + i) mod kPeriod" for i
    using s by (metis add.assoc mod_add_left_eq)
  then have "stream server_kSecret s (length g + i) = stream server_kSecret r i" for i
    by (simp add: stream_def)
  then have "crypt server_kSecret s (g @ crypt server_kSecret r c_auth) ! (length g + i) = c_auth ! i"
    if "i < 32" for i
    using that by (simp add: nth_crypt xor.assoc)
  then have "auth_tail (crypt server_kSecret s (g @ crypt server_kSecret r c_auth))"
    unfolding auth_tail_def tail_ok_def
  proof (intro allI impI)
    fix k
    let ?m = "crypt server_kSecret s (g @ crypt server_kSecret r c_auth)"
    assume eq: "crypt server_kSecret s (g @ crypt server_kSecret r c_auth) ! (length g + i) = c_auth ! i"
      if "i < 32" for i
    assume "k < length ?m" "length ?m < 0 + k + 32"
    then have "length g + (k - length g) = k" "k - length g < 32" "0 + k + 32 - length ?m = k - length g"
      by simp_all
    then show "?m ! k = c_auth ! (0 + k + 32 - length ?m)"
      using eq by metis
  qed
  then show ?thesis
    by (simp add: server_decrypt_auth_def decrypt_auth_snd auth_tail_def)
qed

text \<open>
  C21: the exchange authenticates nobody. A client that knows neither the table nor the
  secret string is accepted when it sends back the 32 encrypted bytes of the server's own
  AuthRequest behind any other bytes, and a position that makes up for those bytes.
\<close>

theorem echo_passes:
  "(let (r, t, c) = server_encrypt_auth now rnd c_auth;
        s = of_nat ((unat r + (kPeriod - length g mod kPeriod)) mod kPeriod)
    in snd (server_decrypt_auth s (g @ c)))"
proof -
  let ?r = "rnd (NOT now)" and ?P = kPeriod
  let ?n = "(unat ?r + (?P - length g mod ?P)) mod ?P"
  have P: "0 < ?P" "?P < 2 ^ 32"
    by (simp_all add: kPeriod_def)
  have n: "unat (of_nat ?n :: u32) = ?n"
    by (rule unat_of_nat32 [OF less_trans [OF mod_less_divisor [OF P(1)] P(2)]])
  have "(?n + length g) mod ?P = (unat ?r + (?P - length g mod ?P + length g)) mod ?P"
    by (simp add: mod_simps add.assoc)
  also have "(?P - length g mod ?P + length g) = ?P + ?P * (length g div ?P)"
    using P mod_less_divisor [of ?P "length g"] mult_div_mod_eq [of ?P "length g"] by linarith
  also have "(unat ?r + (?P + ?P * (length g div ?P))) mod ?P = unat ?r mod ?P"
    by (simp flip: mult_Suc_right)
  finally have "snd (server_decrypt_auth (of_nat ?n) (g @ crypt server_kSecret ?r c_auth))"
    by (intro echo_accepted) (simp only: n)
  then show ?thesis
    by (simp only: server_encrypt_auth_def encrypt_auth_eq Let_def prod.case)
qed

end
