(* ===== verification/Strings.thy ===== *)
theory Strings
  imports Prelude
begin

text \<open>
  Text as the program produces and reads it, a \<open>char list\<close> holding the bytes of a
  \<^verbatim>\<open>std::string\<close>: decimal (\<^verbatim>\<open>std::to_string\<close>) and hexadecimal (\<^verbatim>\<open>std::hex\<close>) rendering,
  \<^verbatim>\<open>std::stoi\<close>, NUL-terminated reads of a byte array (\<^verbatim>\<open>ostream << unsigned char*\<close>), and
  string constants given by their GBK bytes, which the sources are encoded in.
\<close>

section \<open>Rendering numbers\<close>

definition digit_char :: "nat \<Rightarrow> char" where
  "digit_char d = (if d < 10 then char_of (48 + d) else char_of (87 + d))"

fun radix :: "nat \<Rightarrow> nat \<Rightarrow> string" where
  "radix b n =
     (if n < b \<or> b < 2 then [digit_char n] else radix b (n div b) @ [digit_char (n mod b)])"

declare radix.simps [simp del]

definition dec :: "nat \<Rightarrow> string" where
  "dec n = radix 10 n"

definition hex :: "nat \<Rightarrow> string" where
  "hex n = radix 16 n"

definition dec_int :: "int \<Rightarrow> string" where
  "dec_int i = (if i < 0 then CHR ''-'' # dec (nat (- i)) else dec (nat i))"

section \<open>\<^verbatim>\<open>std::stoi\<close>\<close>

definition is_space :: "char \<Rightarrow> bool" where
  "is_space c \<longleftrightarrow> (of_char c :: nat) = 32 \<or> 9 \<le> (of_char c :: nat) \<and> (of_char c :: nat) \<le> 13"

definition is_digit :: "char \<Rightarrow> bool" where
  "is_digit c \<longleftrightarrow> 48 \<le> (of_char c :: nat) \<and> (of_char c :: nat) \<le> 57"

definition digit_val :: "char \<Rightarrow> nat" where
  "digit_val c = of_char c - 48"

definition number :: "string \<Rightarrow> nat" where
  "number s = foldl (\<lambda>n c. 10 * n + digit_val c) 0 s"

definition stoi :: "string \<Rightarrow> fault + int" where
  "stoi s =
     (let s1 = dropWhile is_space s;
          neg = (case s1 of c # _ \<Rightarrow> c = CHR ''-'' | [] \<Rightarrow> False);
          s2 = (case s1 of c # cs \<Rightarrow> if c = CHR ''-'' \<or> c = CHR ''+'' then cs else s1 | [] \<Rightarrow> []);
          ds = takeWhile is_digit s2;
          v = (if neg then - int (number ds) else int (number ds))
      in if ds = [] \<or> v < - (2 ^ 31) \<or> v > 2 ^ 31 - 1 then Inl Bad_Number else Inr v)"

lemma of_char_digit_char: "d < 10 \<Longrightarrow> (of_char (digit_char d) :: nat) = 48 + d"
  by (simp add: digit_char_def)

lemma is_digit_digit_char [simp]: "d < 10 \<Longrightarrow> is_digit (digit_char d)"
  by (simp add: is_digit_def of_char_digit_char)

lemma digit_val_digit_char [simp]: "d < 10 \<Longrightarrow> digit_val (digit_char d) = d"
  by (simp add: digit_val_def of_char_digit_char)

lemma number_snoc [simp]: "number (s @ [c]) = 10 * number s + digit_val c"
  by (simp add: number_def)

lemma radix_digits: "\<forall>c \<in> set (radix 10 n). is_digit c"
proof (induction "10::nat" n rule: radix.induct)
  case (1 n)
  then show ?case by (subst radix.simps) auto
qed

lemma radix_nonempty [simp]: "radix b n \<noteq> []"
  by (subst radix.simps) simp

lemma length_radix:
  assumes "2 \<le> b"
  shows "n < b ^ Suc k \<Longrightarrow> length (radix b n) \<le> Suc k"
proof (induction k arbitrary: n)
  case 0
  then show ?case
    by (subst radix.simps) simp
next
  case (Suc k)
  then have "n div b < b ^ Suc k"
    using assms by (simp add: less_mult_imp_div_less mult.commute)
  from Suc.IH [OF this] show ?case
    by (subst radix.simps) simp
qed

lemma number_radix [simp]: "number (radix 10 n) = n"
proof (induction "10::nat" n rule: radix.induct)
  case (1 n)
  show ?case
  proof (cases "n < 10")
    case True
    then show ?thesis by (subst radix.simps) (simp add: number_def)
  next
    case False
    with 1 show ?thesis by (subst radix.simps) simp
  qed
qed

lemma dec_digits: "\<forall>c \<in> set (dec n). is_digit c"
  by (simp add: dec_def radix_digits)

lemma dec_inj: "dec m = dec n \<longleftrightarrow> m = n"
  unfolding dec_def by (metis number_radix)

lemma digit_not_special: "is_digit c \<Longrightarrow> \<not> is_space c \<and> c \<noteq> CHR ''-'' \<and> c \<noteq> CHR ''+''"
  by (auto simp: is_digit_def is_space_def)

lemma takeWhile_digits: "\<forall>c \<in> set s. is_digit c \<Longrightarrow> takeWhile is_digit s = s"
  by (simp add: takeWhile_eq_all_conv)

lemma stoi_dec: "n < 2 ^ 31 \<Longrightarrow> stoi (dec n) = Inr (int n)"
proof -
  assume n: "n < 2 ^ 31"
  obtain c cs where s: "dec n = c # cs"
    using radix_nonempty [of 10 n] by (cases "dec n") (auto simp: dec_def)
  have c: "is_digit c" and ds: "takeWhile is_digit (c # cs) = c # cs"
    using dec_digits [of n] takeWhile_digits [of "dec n"] by (auto simp: s)
  have "number (c # cs) = n"
    using s by (simp add: dec_def flip: s)
  with n digit_not_special [OF c] ds show ?thesis
    by (simp add: stoi_def s Let_def)
qed

section \<open>NUL-terminated reads and GBK constants\<close>

text \<open>
  \<^verbatim>\<open>stream << p\<close> for \<^verbatim>\<open>p\<close> of type \<^verbatim>\<open>unsigned char*\<close> appends the bytes from \<^verbatim>\<open>p\<close> up to the
  first NUL. The argument is the memory from \<^verbatim>\<open>p\<close> to the end of the object \<^verbatim>\<open>p\<close> points into; a
  read that meets no NUL there leaves the object.
\<close>

fun cstr :: "bytes \<Rightarrow> fault + string" where
  "cstr [] = Inl Out_Of_Bounds"
| "cstr (b # bs) =
     (if b = 0 then Inr [] else and_then (cstr bs) (\<lambda>s. Inr (char_of (unat b) # s)))"

definition chars_of :: "bytes \<Rightarrow> string" where
  "chars_of bs = map (\<lambda>b. char_of (unat b)) bs"

lemma cstr_append_nul:
  "0 \<notin> set bs \<Longrightarrow> cstr (bs @ 0 # rest) = Inr (chars_of bs)"
  by (induction bs) (auto simp: chars_of_def)

lemma cstr_no_nul: "0 \<notin> set bs \<Longrightarrow> cstr bs = Inl Out_Of_Bounds"
  by (induction bs) auto

lemma cstr_append:
  "0 \<notin> set bs \<Longrightarrow> cstr (bs @ rest) = and_then (cstr rest) (\<lambda>s. Inr (chars_of bs @ s))"
  by (induction bs) (auto simp: chars_of_def and_then_def split: sum.splits)

definition gbk :: "nat list \<Rightarrow> string" where
  "gbk ns = map char_of ns"

end
