(* ===== verification/Session.thy ===== *)
theory Session
  imports Recv_Packet Cipher Strings
begin

text \<open>
  The session of one connected client: \<^verbatim>\<open>struct Client\<close> and \<^verbatim>\<open>enum class SessionState\<close> of
  \<^verbatim>\<open>server/include/types.hpp\<close>, the surroundings one call of the state machine sees, and the
  bytes of the request messages every state sends.
\<close>

section \<open>States\<close>

datatype SessionState =
    Acceptance | WaitAuth | WaitSysInfo | WaitConfigInfo | WaitProcInfo | WaitEtheInfo
  | WaitUsbInfo | WaitUsbFile | WaitPrnInfo | WaitPrnQueue | WaitTermInfo | WaitIPTermInfo
  | WaitScrInfo | Ended

fun state_code :: "SessionState \<Rightarrow> nat" where
  "state_code Acceptance = 0x00"
| "state_code WaitAuth = 0x01"
| "state_code WaitSysInfo = 0x02"
| "state_code WaitConfigInfo = 0x03"
| "state_code WaitProcInfo = 0x04"
| "state_code WaitEtheInfo = 0x05"
| "state_code WaitUsbInfo = 0x06"
| "state_code WaitUsbFile = 0x07"
| "state_code WaitPrnInfo = 0x08"
| "state_code WaitPrnQueue = 0x09"
| "state_code WaitTermInfo = 0x0a"
| "state_code WaitIPTermInfo = 0x0b"
| "state_code WaitScrInfo = 0x0c"
| "state_code Ended = 0x0d"

lemma state_code_inj: "state_code a = state_code b \<longleftrightarrow> a = b"
  by (cases a; cases b) simp_all

text \<open>The order of the enumerators, which is the order of the protocol.\<close>

instantiation SessionState :: linorder
begin

definition less_eq_SessionState :: "SessionState \<Rightarrow> SessionState \<Rightarrow> bool" where
  "s \<le> t \<longleftrightarrow> state_code s \<le> state_code t"

definition less_SessionState :: "SessionState \<Rightarrow> SessionState \<Rightarrow> bool" where
  "s < t \<longleftrightarrow> state_code s < state_code t"

instance
  by standard (auto simp: less_eq_SessionState_def less_SessionState_def state_code_inj)

end

lemmas state_order = less_eq_SessionState_def less_SessionState_def

section \<open>The client record\<close>

record Client =
  recv_buffer :: circ_queue
  send_buffer :: "bytes list"
  socket_fd :: int
  state :: SessionState
  ipaddr :: string
  devid :: string
  devno :: string
  ram :: u16
  ethnum :: u8
  usbnum :: u8
  prnnum :: u8
  tty_connected :: int
  current_tty :: u16
  tty_cnt :: int
  scr_num :: int
  current_scr :: u8
  ether_last :: u8
  dumb_term :: bytes
  ip_term :: bytes
  current_ipterm :: Packet
  is_scr :: bool
  scr_packet_size :: int

text \<open>
  \<^verbatim>\<open>Client(int, size_t)\<close>: the members without an initialiser keep what the memory held, which
  is the argument \<open>u\<close>; \<open>fresh\<close> is the content of the new queue's array.
\<close>

definition new_client :: "Client \<Rightarrow> (nat \<Rightarrow> u8) \<Rightarrow> int \<Rightarrow> nat \<Rightarrow> Client" where
  "new_client u fresh fd buffer_size =
     u\<lparr>recv_buffer := new_queue fresh buffer_size, send_buffer := [], socket_fd := fd,
       state := Acceptance, ipaddr := [], devid := [], devno := [], tty_cnt := 0,
       ether_last := 0, dumb_term := replicate 16 0, ip_term := replicate 254 0,
       is_scr := False\<rparr>"

lemma new_client_fields [simp]:
  "state (new_client u fresh fd n) = Acceptance" "send_buffer (new_client u fresh fd n) = []"
  "recv_buffer (new_client u fresh fd n) = new_queue fresh n"
  by (simp_all add: new_client_def)

section \<open>Surroundings of a call\<close>

text \<open>
  \<open>opt\<close> is the map of options the server has read; \<open>env_now\<close> and \<open>env_rnd\<close> are \<^verbatim>\<open>time(0)\<close>
  and the C library's generator; \<open>env_junk i\<close> is what the uninitialised \<^verbatim>\<open>PacketHeader header\<close>
  holds in the \<open>i\<close>-th screen read of the call; \<open>env_freed\<close> maps the bytes of a struct to what is
  read from its memory after \<^verbatim>\<open>delete\<close>.
\<close>

record env =
  opt :: "string \<Rightarrow> string option"
  env_now :: u32
  env_rnd :: "u32 \<Rightarrow> u32"
  env_junk :: "nat \<Rightarrow> PacketHeader"
  env_freed :: "bytes \<Rightarrow> bytes"

section \<open>Messages\<close>

text \<open>The two loops that copy header and struct into \<^verbatim>\<open>temp_vec\<close>.\<close>

definition message :: "PacketHeader \<Rightarrow> bytes \<Rightarrow> bytes" where
  "message h body = PacketHeader_mem h @ body"

definition plain_header :: "u8 \<Rightarrow> PacketHeader" where
  "plain_header t = \<lparr>hd_direction = 0x11, hd_packet_type = t, hd_packet_size = htons 8\<rparr>"

definition plain_request :: "u8 \<Rightarrow> bytes" where
  "plain_request t =
     message (plain_header t) (PlainPacket_mem \<lparr>pp_pad_1 = [0, 0], pp_payload_size = 0\<rparr>)"

definition ether_request :: "u16 \<Rightarrow> bytes" where
  "ether_request prt =
     message (plain_header 0x05)
       (EtherInfoRequestPacket_mem \<lparr>eq_port = htons prt, eq_payload_size = 0\<rparr>)"

definition term_request :: "u8 \<Rightarrow> nat \<Rightarrow> bytes" where
  "term_request t i =
     message (plain_header t)
       (IPTermRequestPacket_mem \<lparr>iq_ttyno = htons (of_nat (i + 1)), iq_payload_size = 0\<rparr>)"

definition push_message :: "bytes \<Rightarrow> Client \<Rightarrow> Client" where
  "push_message m c = c\<lparr>send_buffer := send_buffer c @ [m]\<rparr>"

lemma length_plain_request [simp]: "length (plain_request t) = 8"
  by (simp add: plain_request_def message_def sizeof_defs PlainPacket_mem_def)

lemma length_ether_request [simp]: "length (ether_request p) = 8"
  by (simp add: ether_request_def message_def sizeof_defs EtherInfoRequestPacket_mem_def)

lemma length_term_request [simp]: "length (term_request t i) = 8"
  by (simp add: term_request_def message_def sizeof_defs IPTermRequestPacket_mem_def)

text \<open>
  Reading the struct \<^verbatim>\<open>packet.payload.first\<close> points to, when \<^verbatim>\<open>dequeue\<close> filled it.
\<close>

definition payload_of :: "Packet \<Rightarrow> fault + bytes" where
  "payload_of p = (case pk_first p of None \<Rightarrow> Inl Uninitialised_Read | Some bs \<Rightarrow> Inr bs)"

lemma payload_of_Some [simp]: "pk_first p = Some bs \<Longrightarrow> payload_of p = Inr bs"
  by (simp add: payload_of_def)

definition take_packet :: "PacketHeader \<Rightarrow> bool \<Rightarrow> Client \<Rightarrow> fault + Packet \<times> Client" where
  "take_packet junk scr c =
     and_then (dequeue_packet junk scr (recv_buffer c))
       (\<lambda>(p, q). Inr (p, c\<lparr>recv_buffer := q\<rparr>))"

lemma take_packet_inv:
  "take_packet junk scr c = Inr (p, c') \<Longrightarrow> cq_inv (recv_buffer c) \<Longrightarrow>
     \<exists>q. c' = c\<lparr>recv_buffer := q\<rparr> \<and> cq_inv q \<and> cq_size q = cq_size (recv_buffer c)"
  by (auto simp: take_packet_def and_then_eq_Inr_iff dest: dequeue_packet_inv)

end
