(* ===== verification/Decimals.thy ===== *)
theory Decimals
  imports Strings "HOL-Library.Code_Target_Numeral"
begin

text \<open>
  The floating-point values the server prints into its SQL text: a quotient of two 32-bit
  counters as a \<^verbatim>\<open>double\<close> with \<^verbatim>\<open>fixed << setprecision(2)\<close>, and a tenth of a 32-bit counter as a
  \<^verbatim>\<open>float\<close> in the stream's default format. A finite value is a pair of naturals, numerator and
  denominator; rounding is to nearest, ties to even, both in the IEEE operations and in the
  printing (glibc on x86-64). No operand here is small enough for a subnormal result.
\<close>

section \<open>Rounding\<close>

definition round_div :: "nat \<Rightarrow> nat \<Rightarrow> nat" where
  "round_div n d =
     (let q = n div d; r = n mod d
      in if 2 * r < d \<or> 2 * r = d \<and> even q then q else q + 1)"

fun bit_len :: "nat \<Rightarrow> nat" where
  "bit_len n = (if n = 0 then 0 else Suc (bit_len (n div 2)))"

declare bit_len.simps [simp del]

text \<open>
  The \<open>p\<close>-bit binary number nearest to \<open>n / d\<close>: the quotient is scaled by a power of two to
  lie between \<open>2 ^ (p - 1)\<close> and \<open>2 ^ p\<close>, rounded to an integer and scaled back.
\<close>

definition scale :: "int \<Rightarrow> nat \<times> nat \<Rightarrow> nat \<times> nat" where
  "scale k x = (if 0 \<le> k then (fst x * 2 ^ nat k, snd x) else (fst x, snd x * 2 ^ nat (- k)))"

definition exponent :: "nat \<Rightarrow> nat \<times> nat \<Rightarrow> int" where
  "exponent p x =
     (let k = int p + int (bit_len (snd x)) - int (bit_len (fst x)); (n, d) = scale k x
      in if 2 ^ p * d \<le> n then k - 1 else k)"

definition to_binary :: "nat \<Rightarrow> nat \<times> nat \<Rightarrow> nat \<times> nat" where
  "to_binary p x =
     (if fst x = 0 then (0, 1)
      else (let k = exponent p x; (n, d) = scale k x in scale (- k) (round_div n d, 1)))"

abbreviation double_of :: "nat \<times> nat \<Rightarrow> nat \<times> nat" where
  "double_of \<equiv> to_binary 53"

abbreviation float_of :: "nat \<times> nat \<Rightarrow> nat \<times> nat" where
  "float_of \<equiv> to_binary 24"

section \<open>Printing\<close>

definition pad_left :: "nat \<Rightarrow> string \<Rightarrow> string" where
  "pad_left k s = replicate (k - length s) (CHR ''0'') @ s"

definition fixed2 :: "nat \<times> nat \<Rightarrow> string" where
  "fixed2 x =
     (let c = round_div (100 * fst x) (snd x)
      in dec (c div 100) @ ''.'' @ pad_left 2 (dec (c mod 100)))"

text \<open>\<^verbatim>\<open>(double) a / b\<close> printed with two decimals; division by zero gives infinity or NaN.\<close>

definition ratio_text :: "u32 \<Rightarrow> u32 \<Rightarrow> string" where
  "ratio_text a b =
     (if b = 0 then (if a = 0 then ''-nan'' else ''inf'')
      else fixed2 (double_of (unat a, unat b)))"

definition strip_zeros :: "string \<Rightarrow> string" where
  "strip_zeros s = rev (dropWhile (\<lambda>c. c = CHR ''0'') (rev s))"

definition fraction :: "nat \<Rightarrow> nat \<Rightarrow> string" where
  "fraction k n = (let s = strip_zeros (pad_left k (dec n)) in if s = [] then [] else ''.'' @ s)"

text \<open>
  The default format (six significant digits, as \<^verbatim>\<open>%g\<close>) of a value that is 0 or at least 1/10:
  \<open>e\<close> is its decimal exponent and \<open>s\<close> its six digits.
\<close>

definition general6 :: "nat \<times> nat \<Rightarrow> string" where
  "general6 x =
     (if fst x = 0 then ''0''
      else
        (let (n, d) = x;
             e0 = (if n < d then - 1 else int (length (dec (n div d))) - 1);
             s0 = (if e0 \<le> 5 then round_div (n * 10 ^ nat (5 - e0)) d
                   else round_div n (d * 10 ^ nat (e0 - 5)));
             e = (if s0 = 10 ^ 6 then e0 + 1 else e0);
             s = (if s0 = 10 ^ 6 then 10 ^ 5 else s0)
         in if e < 6
            then dec (s div 10 ^ nat (5 - e)) @ fraction (nat (5 - e)) (s mod 10 ^ nat (5 - e))
            else dec (s div 10 ^ 5) @ fraction 5 (s mod 10 ^ 5) @ ''e+'' @ pad_left 2 (dec (nat e))))"

text \<open>\<^verbatim>\<open>float f = n / 10.0; stream << f\<close>\<close>

definition tenth_text :: "u32 \<Rightarrow> string" where
  "tenth_text n = general6 (float_of (double_of (unat n, 10)))"

section \<open>Error of the rounding\<close>

lemma round_div_error:
  assumes "0 < d"
  shows "2 * (round_div n d * d) \<le> 2 * n + d \<and> 2 * n \<le> 2 * (round_div n d * d) + d"
proof -
  define q r where qr: "q = n div d" "r = n mod d"
  have "n = q * d + r" "r < d"
    using assms by (simp_all add: qr)
  then show ?thesis
    by (auto simp: round_div_def qr [symmetric] Let_def algebra_simps)
qed

end
