(* ===== verification/Database.thy ===== *)
theory Database
  imports Session Decimals
begin

text \<open>
  \<^verbatim>\<open>server/src/DatabaseConnection.cpp\<close>: each answer of a client becomes one SQL text, which
  \<^verbatim>\<open>MysqlExecCommand\<close> sends, retrying until the server takes it.

  The MySQL client library is not part of the repository. What its calls return is input: one
  \<open>reply\<close> for every \<^verbatim>\<open>mysql_query\<close> (whether it succeeded, whether \<^verbatim>\<open>mysql_store_result\<close> gives
  NULL after it, and what \<^verbatim>\<open>mysql_error\<close> says then) and one truth value for every
  \<^verbatim>\<open>mysql_init\<close> and \<^verbatim>\<open>mysql_real_connect\<close>. A loop that has used up its input is still waiting
  (\<open>Waiting\<close>). \<open>db_sent\<close> is the text of every \<^verbatim>\<open>mysql_query\<close> call, in order. Log lines and the
  pauses between attempts leave no trace in the model.
\<close>

section \<open>Connection and commands\<close>

record reply =
  rp_ok :: bool
  rp_null :: bool
  rp_error :: string

record Database =
  db_inits :: "bool list"
  db_connects :: "bool list"
  db_queries :: "reply list"
  db_sent :: "string list"
  db_error :: string
  global_number :: int

fun retry_until :: "bool list \<Rightarrow> fault + bool list" where
  "retry_until [] = Inl Waiting"
| "retry_until (ok # rest) = (if ok then Inr rest else retry_until rest)"

definition DatabaseInit :: "Database \<Rightarrow> fault + Database" where
  "DatabaseInit db =
     and_then (retry_until (db_inits db)) (\<lambda>is.
     and_then (retry_until (db_connects db)) (\<lambda>cs.
     Inr (db\<lparr>db_inits := is, db_connects := cs, db_error := []\<rparr>)))"

text \<open>\<^verbatim>\<open>mysql_query\<close> gets \<^verbatim>\<open>command.c_str()\<close>, the text up to its first NUL.\<close>

definition c_str :: "string \<Rightarrow> string" where
  "c_str s = takeWhile (\<lambda>ch. ch \<noteq> CHR 0x00) s"

definition sent :: "string \<Rightarrow> reply \<Rightarrow> reply list \<Rightarrow> Database \<Rightarrow> Database" where
  "sent cmd r rs db = db\<lparr>db_sent := db_sent db @ [c_str cmd], db_queries := rs, db_error := rp_error r\<rparr>"

text \<open>What the body of the first loop does about a failed \<^verbatim>\<open>mysql_query\<close>.\<close>

definition after_failure :: "reply \<Rightarrow> Database \<Rightarrow> fault + Database" where
  "after_failure r db =
     (if length (rp_error r) < 3 then Inl Range_Error
      else if drop 3 (rp_error r) = ''Dup'' then Inr db
      else DatabaseInit db)"

text \<open>The first loop; the second argument is the list of replies to come.\<close>

fun query_loop :: "string \<Rightarrow> reply list \<Rightarrow> Database \<Rightarrow> fault + reply \<times> Database" where
  "query_loop cmd [] db = Inl Waiting"
| "query_loop cmd (r # rs) db =
     (let db' = sent cmd r rs db in
      if rp_ok r then Inr (r, db')
      else and_then (after_failure r db') (query_loop cmd rs))"

text \<open>The second loop, entered with the reply to the last \<^verbatim>\<open>mysql_query\<close>.\<close>

fun store_loop :: "string \<Rightarrow> reply \<Rightarrow> reply list \<Rightarrow> Database \<Rightarrow> fault + Database" where
  "store_loop cmd r [] db =
     (if \<not> rp_null r \<or> rp_error r = [] then Inr db else Inl Waiting)"
| "store_loop cmd r (r' # rs) db =
     (if \<not> rp_null r \<or> rp_error r = [] then Inr db
      else and_then (DatabaseInit db) (\<lambda>db'. store_loop cmd r' rs (sent cmd r' rs db')))"

definition MysqlExecCommand :: "string \<Rightarrow> Database \<Rightarrow> fault + Database" where
  "MysqlExecCommand cmd db =
     and_then (query_loop cmd (db_queries db) db) (\<lambda>(r, db'). store_loop cmd r (db_queries db') db')"

text \<open>The end of every handler: execute, then test \<^verbatim>\<open>*mysql_error(MysqlHandler)\<close>.\<close>

definition execute :: "string \<Rightarrow> Database \<Rightarrow> fault + bool \<times> Database" where
  "execute cmd db = and_then (MysqlExecCommand cmd db) (\<lambda>db'. Inr (db_error db' = [], db'))"

section \<open>Pieces of SQL text\<close>

definition sq :: "string \<Rightarrow> string" where
  "sq s = [CHR 0x27] @ s @ [CHR 0x27]"

definition num8 :: "u8 \<Rightarrow> string" where
  "num8 w = dec (unat w)"

definition num16 :: "u16 \<Rightarrow> string" where
  "num16 w = dec (unat w)"

definition num32 :: "u32 \<Rightarrow> string" where
  "num32 w = dec (unat w)"

definition where_dev :: "Client \<Rightarrow> string" where
  "where_dev c = '' where devstate_base_devid = '' @ devid c @ '' and devstate_base_devno = '' @ devno c"

definition int32_t2ipaddr :: "u32 \<Rightarrow> string" where
  "int32_t2ipaddr addr =
     num8 (byte_of 3 addr) @ ''.'' @ num8 (byte_of 2 addr) @ ''.'' @
     num8 (byte_of 1 addr) @ ''.'' @ num8 (byte_of 0 addr)"

text \<open>
  \<^verbatim>\<open>command << packet.payload.second.data() << "'"\<close> and the rest of the text. An empty vector's
  \<^verbatim>\<open>data()\<close> is null; inserting a null pointer sets the stream's \<^verbatim>\<open>badbit\<close>, after which nothing
  more is written.
\<close>

definition payload_update :: "string \<Rightarrow> bytes \<Rightarrow> Client \<Rightarrow> fault + string" where
  "payload_update column second c =
     (let start = ''update devstate_base set '' @ column @ '' = '' @ [CHR 0x27] in
      if second = [] then Inr start
      else and_then (cstr second) (\<lambda>s. Inr (start @ s @ [CHR 0x27] @ where_dev c)))"

section \<open>The handlers\<close>

text \<open>
  A \<^verbatim>\<open>Packet\<close> argument points to the struct, whose members the caller has already converted to
  host order. \<^verbatim>\<open>command << array\<close> for a member \<^verbatim>\<open>uint8_t array[n]\<close> reads from the member up to the
  first NUL byte, through the following members if the array holds none.
\<close>

definition auth_insert :: "AuthResponsePacket \<Rightarrow> Client \<Rightarrow> fault + string" where
  "auth_insert p c =
     (let m = AuthResponsePacket_mem p in
      and_then (cstr (drop 12 m)) (\<lambda>serial.
      and_then (cstr (drop 28 m)) (\<lambda>type.
      and_then (cstr (drop 44 m)) (\<lambda>version.
      Inr (''insert into devstate_base (devstate_base_devid, devstate_base_devno, devstate_base_time, devstate_base_ipaddr, devstate_base_sid, '' @
        ''devstate_base_type , devstate_base_version, devstate_base_cpu, devstate_base_sdram, devstate_base_flash, devstate_base_ethnum, devstate_base_syncnum, '' @
        ''devstate_base_asyncnum, devstate_base_switchnum, devstate_base_usbnum, devstate_base_prnnum, devstate_base_cpu_used, devstate_base_sdram_used, devstate_base_tty_configed, devstate_base_tty_connected) values ('' @
        sq (num32 (ar_devid p)) @ '', '' @ sq (num8 (ar_devno p)) @ '', '' @ ''now(), '' @
        sq (ipaddr c) @ '', '' @ sq (serial @ num16 (ar_internal_serial p)) @ '', '' @
        sq type @ '', '' @ sq version @ '', '' @ num16 (ar_cpu_frequence p) @ '', '' @
        num16 (ar_ram p) @ '', '' @ num16 (ar_flash p) @ '', '' @ num8 (ar_ethnum p) @ '', '' @
        num8 (ar_syncnum p) @ '', '' @ num8 (ar_asyncnum p) @ '', '' @
        num8 (ar_switchnum p) @ '', '' @ sq (num8 (ar_usbnum p)) @ '', '' @
        sq (num8 (ar_prnnum p)) @ '', 0, 0, 0, 0);'' @ [CHR 0x0A])))))"

definition OnRecvAuthResponse :: "Packet \<Rightarrow> Client \<Rightarrow> Database \<Rightarrow> fault + bool \<times> Client \<times> Database" where
  "OnRecvAuthResponse packet c db =
     and_then (payload_of packet) (\<lambda>bs.
     (let p = AuthResponsePacket_of bs in
      and_then (MysqlExecCommand ''delete from devstate_base;'' db) (\<lambda>db1.
      and_then (MysqlExecCommand ''delete from devstate_ttyinfo;'' db1) (\<lambda>db2.
      and_then (MysqlExecCommand ''delete from devstate_scrinfo;'' db2) (\<lambda>db3.
      and_then (auth_insert p c) (\<lambda>command.
      (let c' = c\<lparr>devid := num32 (ar_devid p), devno := num8 (ar_devno p), ram := ar_ram p,
                  ethnum := ar_ethnum p, usbnum := ar_usbnum p, prnnum := ar_prnnum p\<rparr>
       in and_then (execute command db3) (\<lambda>(ok, db4). Inr (ok, c', db4)))))))))"

definition sysinfo_update :: "SysInfoResponsePacket \<Rightarrow> Client \<Rightarrow> string" where
  "sysinfo_update p c =
     ''update devstate_base set devstate_base_cpu_used = '' @
     ratio_text (sr_user_cpu_time p + sr_system_cpu_time p)
       (sr_user_cpu_time p + sr_nice_cpu_time p + sr_idle_cpu_time p) @
     '', devstate_base_sdram_used = '' @ ratio_text (sr_freed_memory p) (ucast (ram c)) @ where_dev c"

definition OnRecvSysInfoResponse :: "Packet \<Rightarrow> Client \<Rightarrow> Database \<Rightarrow> fault + bool \<times> Database" where
  "OnRecvSysInfoResponse packet c db =
     and_then (payload_of packet) (\<lambda>bs. execute (sysinfo_update (SysInfoResponsePacket_of bs) c) db)"

definition OnRecvConfInfoResponse :: "Packet \<Rightarrow> Client \<Rightarrow> Database \<Rightarrow> fault + bool \<times> Database" where
  "OnRecvConfInfoResponse packet c db =
     and_then (payload_update ''devstate_base_config'' (pk_second packet) c) (\<lambda>command. execute command db)"

definition OnRecvProcInfoResponse :: "Packet \<Rightarrow> Client \<Rightarrow> Database \<Rightarrow> fault + bool \<times> Database" where
  "OnRecvProcInfoResponse packet c db =
     and_then (payload_update ''devstate_base_process'' (pk_second packet) c) (\<lambda>command. execute command db)"

text \<open>The texts of the duplex and negotiation columns, byte by byte as they stand in the file.\<close>

definition full_duplex :: string where
  "full_duplex = gbk [39, 200, 171, 203, 171, 239, 191, 189, 239, 191, 189, 39]"

definition half_duplex :: string where
  "half_duplex = gbk [39, 239, 191, 189, 239, 191, 189, 203, 171, 239, 191, 189, 239, 191, 189, 39]"

definition autonego_yes :: string where
  "autonego_yes = gbk [39, 239, 191, 189, 239, 191, 189, 39]"

definition autonego_no :: string where
  "autonego_no = gbk [39, 239, 191, 189, 239, 191, 189, 39]"

definition mac_text :: "bytes \<Rightarrow> string" where
  "mac_text m =
     (let h = (\<lambda>i. hex (unat (m ! i)))
      in h 0 @ h 1 @ '':'' @ h 2 @ h 3 @ '':'' @ h 4 @ h 5)"

definition ether_update :: "EtherInfoResponsePacket \<Rightarrow> Client \<Rightarrow> string" where
  "ether_update p c =
     (let col = ''devstate_base_eth'' @ (if er_port p = 0 then ''0'' else ''1'') in
      ''update devstate_base set '' @ col @ ''_ip = '' @ sq (int32_t2ipaddr (er_addr p)) @ '', '' @
      col @ ''_mask = '' @ sq (int32_t2ipaddr (er_mask p)) @ '', '' @
      col @ ''_mac = '' @ sq (mac_text (er_mac p)) @ '', '' @
      col @ ''_state = '' @ (if er_state p = 1 then sq ''UP'' else sq ''DOWN'') @ '', '' @
      col @ ''_speed = '' @ (if er_options p AND 1 = 1 then sq ''100MB'' else sq ''10MB'') @ '', '' @
      col @ ''_duplex = '' @ (if er_options p AND 2 = 2 then full_duplex else half_duplex) @ '', '' @
      col @ ''_autonego = '' @ (if er_options p AND 4 = 4 then autonego_yes else autonego_no) @ '', '' @
      col @ ''_txbytes = '' @ num32 (er_send_bytes p) @ '', '' @
      col @ ''_txpackets = '' @ num32 (er_send_packets p) @ '', '' @
      col @ ''_rxbytes = '' @ num32 (er_recv_bytes p) @ '', '' @
      col @ ''_txpackets = '' @ num32 (er_recv_packets p) @ where_dev c)"

definition OnRecvEtherInfoResponse :: "Packet \<Rightarrow> Client \<Rightarrow> Database \<Rightarrow> fault + bool \<times> Database" where
  "OnRecvEtherInfoResponse packet c db =
     and_then (payload_of packet) (\<lambda>bs. execute (ether_update (EtherInfoResponsePacket_of bs) c) db)"

definition OnRecvUsbStateResponse :: "Packet \<Rightarrow> Client \<Rightarrow> Database \<Rightarrow> fault + bool \<times> Database" where
  "OnRecvUsbStateResponse packet c db =
     and_then (payload_of packet) (\<lambda>bs.
       execute (''update devstate_base set devstate_base_usbstate = '' @ [CHR 0x27] @
         (if us_usb_is_inserted (USBStateResponsePacket_of bs) = 1
          then gbk [239, 191, 189, 209, 178, 239, 191, 189, 239, 191, 189, 239, 191, 189]
          else gbk [206, 180, 239, 191, 189, 239, 191, 189, 239, 191, 189, 239, 191, 189]) @
         [CHR 0x27] @ where_dev c) db)"

definition OnRecvUsbInfoResponse :: "Packet \<Rightarrow> Client \<Rightarrow> Database \<Rightarrow> fault + bool \<times> Database" where
  "OnRecvUsbInfoResponse packet c db =
     and_then (payload_update ''devstate_base_usbfiles'' (pk_second packet) c) (\<lambda>command. execute command db)"

text \<open>\<^verbatim>\<open>std::string s(printer_name, printer_name + 32)\<close> keeps all 32 bytes, NUL bytes included.\<close>

definition OnRecvPrintDevResponse :: "Packet \<Rightarrow> Client \<Rightarrow> Database \<Rightarrow> fault + bool \<times> Database" where
  "OnRecvPrintDevResponse packet c db =
     and_then (payload_of packet) (\<lambda>bs.
     (let p = PrintDevResponsePacket_of bs in
      execute (''update devstate_base set devstate_base_prnname = '' @
        sq (chars_of (pd_printer_name p)) @ where_dev c @
        ''update devstate_base set devstate_base_prnstate = '' @ [CHR 0x27] @
        (if pd_print_is_usable p = 1
         then gbk [239, 191, 189, 239, 191, 189, 239, 191, 189, 239, 191, 189, 239, 191, 189, 239, 191, 189]
         else gbk [206, 180, 239, 191, 189, 239, 191, 189, 239, 191, 189, 239, 191, 189]) @
        [CHR 0x27] @ where_dev c) db))"

definition OnRecvPrintQueueResponse :: "Packet \<Rightarrow> Client \<Rightarrow> Database \<Rightarrow> fault + bool \<times> Database" where
  "OnRecvPrintQueueResponse packet c db =
     and_then (payload_update ''devstate_base_prnfiles'' (pk_second packet) c) (\<lambda>command. execute command db)"

definition OnRecvTermResponse :: "Packet \<Rightarrow> Client \<Rightarrow> Database \<Rightarrow> fault + bool \<times> Client \<times> Database" where
  "OnRecvTermResponse packet c db =
     and_then (payload_of packet) (\<lambda>bs.
     (let p = TerInfoResponsePacket_of bs in
      and_then (execute (''update devstate_base set devstate_base_tty_configed = '' @
          num16 (tr_term_num p) @ where_dev c) db) (\<lambda>(ok, db').
      Inr (ok, c\<lparr>tty_connected := uint (tr_term_num p)\<rparr>, db'))))"

text \<open>A dumb terminal (packet type 0x0a) is entered under its number with the digit 9 in front.\<close>

definition ipterm_insert :: "bool \<Rightarrow> IPTermResponsePacket \<Rightarrow> Client \<Rightarrow> fault + string" where
  "ipterm_insert is_dump p c =
     (let m = IPTermResponsePacket_mem p in
      and_then (cstr (drop 12 m)) (\<lambda>type.
      and_then (cstr (drop 24 m)) (\<lambda>st.
      Inr (''insert into devstate_ttyinfo (devstate_ttyinfo_devid, devstate_ttyinfo_devno, devstate_ttyinfo_ttyno, '' @
        ''devstate_ttyinfo_time, devstate_ttyinfo_readno, devstate_ttyinfo_type, devstate_ttyinfo_state, '' @
        ''devstate_ttyinfo_ttyip, devstate_ttyinfo_scrnum) values ('' @
        sq (devid c) @ '', '' @ sq (devno c) @ '', '' @
        (if is_dump then ''9'' @ num16 (ir_ttyno p) else num16 (ir_ttyno p)) @ '', '' @
        ''now(), '' @ num8 (ir_readno p) @ '', '' @ sq type @ '', '' @ sq st @ '', '' @
        sq (int32_t2ipaddr (ir_ttyip p)) @ '', '' @ num8 (ir_screen_num p) @ '')''))))"

definition OnRecvIPTermResponse :: "Packet \<Rightarrow> Client \<Rightarrow> Database \<Rightarrow> fault + bool \<times> Client \<times> Database" where
  "OnRecvIPTermResponse packet c db =
     and_then (payload_of packet) (\<lambda>bs.
     (let p = IPTermResponsePacket_of bs;
          is_dump = (hd_packet_type (pk_header packet) = 0x0a)
      in and_then (ipterm_insert is_dump p c) (\<lambda>command.
         and_then (execute command db) (\<lambda>(ok, db').
         Inr (ok, c\<lparr>current_tty := (if is_dump then 900 + ir_ttyno p else ir_ttyno p),
                    current_scr := ir_active_screen p\<rparr>, db')))))"

definition screen_insert :: "int \<Rightarrow> ScreenInfoPacket \<Rightarrow> Client \<Rightarrow> fault + string" where
  "screen_insert gn p c =
     (let m = ScreenInfoPacket_mem p in
      and_then (cstr (drop 8 m)) (\<lambda>proto.
      and_then (cstr (drop 20 m)) (\<lambda>st.
      and_then (cstr (drop 52 m)) (\<lambda>tty.
      Inr (''insert into devstate_scrinfo (devstate_scrinfo_devid, devstate_scrinfo_devno, devstate_scrinfo_ttyno, '' @
        ''devstate_scrinfo_scrno, devstate_scrinfo_time, devstate_scrinfo_is_current, devstate_scrinfo_protocol, '' @
        ''devstate_scrinfo_serverip, devstate_scrinfo_serverport, devstate_scrinfo_state, devstate_scrinfo_ttytype, '' @
        ''devstate_scrinfo_tx_server, devstate_scrinfo_rx_server, devstate_scrinfo_tx_terminal, devstate_scrinfo_rx_terminal, '' @
        ''devstate_scrinfo_ping_min, devstate_scrinfo_ping_avg, devstate_scrinfo_ping_max) values ('' @
        sq (devid c) @ '', '' @ sq (devno c) @ '', '' @ num16 (current_tty c) @ '', '' @
        dec_int (gn mod 127) @ '', '' @ ''now(), '' @ sq ''*'' @ '' , '' @
        sq proto @ '', '' @ sq (int32_t2ipaddr (sc_server_ip p)) @ '', '' @
        num16 (sc_server_port p) @ '', '' @ sq st @ '', '' @ sq tty @ '', '' @
        num32 (sc_send_server_byte p) @ '', '' @ num32 (sc_recv_server_byte p) @ '', '' @
        num32 (sc_send_term_byte p) @ '', '' @ num32 (sc_recv_term_byte p) @ '', '' @
        tenth_text (sc_ping_min p) @ '', '' @ tenth_text (sc_ping_avg p) @ '', '' @
        tenth_text (sc_ping_max p) @ '')'')))))"

definition OnRecvScreenInfoPacket :: "Packet \<Rightarrow> Client \<Rightarrow> Database \<Rightarrow> fault + bool \<times> Database" where
  "OnRecvScreenInfoPacket packet c db =
     and_then (payload_of packet) (\<lambda>bs.
     (let gn = global_number db in
      and_then (int_inc gn) (\<lambda>gn1.
      and_then (screen_insert gn (ScreenInfoPacket_of bs) c) (\<lambda>command.
      execute command (db\<lparr>global_number := gn1\<rparr>)))))"

definition UpdateTTYConnected :: "Client \<Rightarrow> Database \<Rightarrow> fault + bool \<times> Database" where
  "UpdateTTYConnected c db =
     execute (''update devstate_base set devstate_base_tty_connected = '' @
       dec_int (tty_connected c) @ where_dev c) db"

section \<open>Executing a command\<close>

text \<open>
  \<open>db_grows db cmds db'\<close>: the texts sent between two states are the commands \<open>cmds\<close> in order,
  each at least once, and nothing else.
\<close>

fun repeats :: "'a list \<Rightarrow> 'a list \<Rightarrow> bool" where
  "repeats [] ys = (ys = [])"
| "repeats (x # xs) ys = (\<exists>n zs. ys = replicate (Suc n) x @ zs \<and> repeats xs zs)"

definition db_grows :: "Database \<Rightarrow> string list \<Rightarrow> Database \<Rightarrow> bool" where
  "db_grows db cmds db' \<longleftrightarrow>
     (\<exists>ys. db_sent db' = db_sent db @ ys \<and> repeats (map c_str cmds) ys)"

lemma repeats_append:
  "repeats xs ys \<Longrightarrow> repeats xs' ys' \<Longrightarrow> repeats (xs @ xs') (ys @ ys')"
proof (induction xs arbitrary: ys)
  case (Cons x xs)
  then obtain n zs where "ys = replicate (Suc n) x @ zs" "repeats xs zs"
    by auto
  then show ?case
    using Cons.IH [of zs] Cons.prems(2) by (auto intro!: exI [of _ n])
qed simp

lemma db_grows_refl [simp]: "db_grows db [] db"
  by (simp add: db_grows_def)

lemma db_grows_trans [trans]:
  "db_grows db xs db1 \<Longrightarrow> db_grows db1 ys db2 \<Longrightarrow> db_grows db (xs @ ys) db2"
  by (auto simp: db_grows_def intro: repeats_append)

lemma DatabaseInit_sent:
  "DatabaseInit db = Inr db' \<Longrightarrow>
     db_sent db' = db_sent db \<and> global_number db' = global_number db \<and> db_queries db' = db_queries db"
  by (auto simp: DatabaseInit_def and_then_eq_Inr_iff)

lemma sent_simps [simp]:
  "db_sent (sent cmd r rs db) = db_sent db @ [c_str cmd]"
  "db_queries (sent cmd r rs db) = rs" "db_error (sent cmd r rs db) = rp_error r"
  "global_number (sent cmd r rs db) = global_number db"
  by (simp_all add: sent_def)

lemma after_failure_sent:
  "after_failure r db = Inr db' \<Longrightarrow>
     db_sent db' = db_sent db \<and> global_number db' = global_number db \<and> db_queries db' = db_queries db"
  by (auto simp: after_failure_def DatabaseInit_sent split: if_splits)

lemma query_loop_sent:
  "query_loop cmd rs db = Inr (r, db') \<Longrightarrow>
     (\<exists>n. db_sent db' = db_sent db @ replicate (Suc n) (c_str cmd)) \<and>
     global_number db' = global_number db \<and> r \<in> set rs \<and> set (db_queries db') \<subseteq> set rs \<and>
     db_error db' = rp_error r \<and> rp_ok r"
proof (induction rs arbitrary: db)
  case (Cons r0 rs)
  show ?case
  proof (cases "rp_ok r0")
    case True
    with Cons.prems show ?thesis by (auto intro: exI [of _ 0])
  next
    case False
    with Cons.prems obtain db1 where "after_failure r0 (sent cmd r0 rs db) = Inr db1"
      and loop: "query_loop cmd rs db1 = Inr (r, db')"
      by (auto simp: and_then_eq_Inr_iff)
    then have "db_sent db1 = db_sent db @ [c_str cmd]" "global_number db1 = global_number db"
      using after_failure_sent by fastforce+
    then show ?thesis
      using Cons.IH [OF loop] by (auto simp flip: replicate_Suc intro: exI [of _ "Suc n" for n])
  qed
qed simp

lemma store_loop_sent:
  "store_loop cmd r rs db = Inr db' \<Longrightarrow> db_error db = rp_error r \<Longrightarrow> db_queries db = rs \<Longrightarrow>
     (\<exists>n. db_sent db' = db_sent db @ replicate n (c_str cmd)) \<and>
     global_number db' = global_number db \<and> set (db_queries db') \<subseteq> set rs \<and>
     (\<exists>r' \<in> insert r (set rs). db_error db' = rp_error r' \<and> (\<not> rp_null r' \<or> rp_error r' = []))"
proof (induction rs arbitrary: r db)
  case Nil
  then show ?case by (auto split: if_splits intro: exI [of _ 0])
next
  case (Cons r1 rs)
  show ?case
  proof (cases "\<not> rp_null r \<or> rp_error r = []")
    case True
    with Cons.prems show ?thesis by (auto intro: exI [of _ 0] split: if_splits)
  next
    case False
    with Cons.prems obtain db1 where "DatabaseInit db = Inr db1"
      and loop: "store_loop cmd r1 rs (sent cmd r1 rs db1) = Inr db'"
      by (auto simp: and_then_eq_Inr_iff)
    then have "db_sent db1 = db_sent db" "global_number db1 = global_number db"
      using DatabaseInit_sent by fastforce+
    then show ?thesis
      using Cons.IH [OF loop] by (auto simp flip: replicate_Suc intro: exI [of _ "Suc n" for n])
  qed
qed

text \<open>
  Documented behaviour of \<^verbatim>\<open>mysql_store_result\<close>: after it has returned a result set,
  \<^verbatim>\<open>mysql_error\<close> is the empty string.
\<close>

definition documented :: "Database \<Rightarrow> bool" where
  "documented db \<longleftrightarrow> (\<forall>r \<in> set (db_queries db). \<not> rp_null r \<longrightarrow> rp_error r = [])"

lemma MysqlExecCommand_spec:
  assumes "MysqlExecCommand cmd db = Inr db'"
  shows "db_grows db [cmd] db'" "global_number db' = global_number db"
    "documented db \<Longrightarrow> documented db' \<and> db_error db' = []"
proof -
  obtain r db1 where q: "query_loop cmd (db_queries db) db = Inr (r, db1)"
    and s: "store_loop cmd r (db_queries db1) db1 = Inr db'"
    using assms by (auto simp: MysqlExecCommand_def and_then_eq_Inr_iff)
  note 1 = query_loop_sent [OF q]
  from 1 have "db_error db1 = rp_error r" by simp
  note 2 = store_loop_sent [OF s this refl]
  from 1 2 obtain n m where "db_sent db' = db_sent db @ replicate (Suc n) (c_str cmd) @ replicate m (c_str cmd)"
    by auto
  then have "db_sent db' = db_sent db @ replicate (Suc (n + m)) (c_str cmd)"
    by (simp add: replicate_add)
  then show "db_grows db [cmd] db'"
    by (auto simp: db_grows_def intro!: exI [of _ "n + m"])
  show "global_number db' = global_number db"
    using 1 2 by simp
  show "documented db' \<and> db_error db' = []" if "documented db"
    using that 1 2 unfolding documented_def by (metis insert_iff subsetD)
qed

lemma execute_spec:
  assumes "execute cmd db = Inr (ok, db')"
  shows "db_grows db [cmd] db'" "global_number db' = global_number db"
    "documented db \<Longrightarrow> documented db' \<and> ok"
  using assms MysqlExecCommand_spec [of cmd db] by (auto simp: execute_def and_then_eq_Inr_iff)

text \<open>A server that accepts the next \<open>n\<close> commands at the first attempt.\<close>

definition ready :: "nat \<Rightarrow> Database \<Rightarrow> bool" where
  "ready n db \<longleftrightarrow> n \<le> length (db_queries db) \<and>
     (\<forall>r \<in> set (take n (db_queries db)). rp_ok r \<and> rp_error r = [])"

definition answered :: "string list \<Rightarrow> Database \<Rightarrow> Database" where
  "answered cmds db = db\<lparr>db_sent := db_sent db @ map c_str cmds,
     db_queries := drop (length cmds) (db_queries db), db_error := []\<rparr>"

lemma ready_exec:
  assumes "ready (Suc n) db"
  shows "MysqlExecCommand cmd db = Inr (answered [cmd] db)" "ready n (answered [cmd] db)"
proof -
  obtain r rs where q: "db_queries db = r # rs"
    using assms by (cases "db_queries db") (auto simp: ready_def)
  with assms have r: "rp_ok r" "rp_error r = []" "n \<le> length rs"
    "\<forall>r \<in> set (take n rs). rp_ok r \<and> rp_error r = []"
    by (auto simp: ready_def)
  then show "MysqlExecCommand cmd db = Inr (answered [cmd] db)"
    by (cases rs) (simp_all add: MysqlExecCommand_def q sent_def answered_def)
  show "ready n (answered [cmd] db)"
    using r by (simp add: ready_def answered_def q)
qed

lemma ready_execute:
  "ready (Suc n) db \<Longrightarrow>
     execute cmd db = Inr (True, answered [cmd] db) \<and> ready n (answered [cmd] db)"
  by (simp add: execute_def ready_exec) (simp add: answered_def)

lemma answered_answered [simp]: "answered xs (answered ys db) = answered (ys @ xs) db"
  by (simp add: answered_def add.commute)

section \<open>What the handlers do\<close>

text \<open>
  \<open>db_step db cmds ok db'\<close>: exactly the commands \<open>cmds\<close> went to the server, and the handler
  succeeds if the library behaves as documented.
\<close>

definition db_step :: "Database \<Rightarrow> string list \<Rightarrow> bool \<Rightarrow> Database \<Rightarrow> bool" where
  "db_step db cmds ok db' \<longleftrightarrow> db_grows db cmds db' \<and> (documented db \<longrightarrow> documented db' \<and> ok)"

lemma db_step_execute: "execute cmd db = Inr (ok, db') \<Longrightarrow> db_step db [cmd] ok db'"
  using execute_spec [of cmd db ok db'] by (simp add: db_step_def)

lemma db_step_exec: "MysqlExecCommand cmd db = Inr db' \<Longrightarrow> db_step db [cmd] True db'"
  by (simp add: db_step_def MysqlExecCommand_spec)

lemma db_step_trans [trans]:
  "db_step db xs True db1 \<Longrightarrow> db_step db1 ys ok db2 \<Longrightarrow> db_step db (xs @ ys) ok db2"
  by (auto simp: db_step_def intro: db_grows_trans)

lemma db_step_number [simp]: "db_step (db\<lparr>global_number := n\<rparr>) cmds ok db' = db_step db cmds ok db'"
  by (simp add: db_step_def db_grows_def documented_def)

lemma payload_of_eq_Inr: "payload_of p = Inr bs \<longleftrightarrow> pk_first p = Some bs"
  by (auto simp: payload_of_def split: option.splits)

definition auth_commands :: "string \<Rightarrow> string list" where
  "auth_commands cmd =
     [''delete from devstate_base;'', ''delete from devstate_ttyinfo;'',
      ''delete from devstate_scrinfo;'', cmd]"

definition auth_fields :: "AuthResponsePacket \<Rightarrow> Client \<Rightarrow> Client" where
  "auth_fields p c = c\<lparr>devid := num32 (ar_devid p), devno := num8 (ar_devno p), ram := ar_ram p,
     ethnum := ar_ethnum p, usbnum := ar_usbnum p, prnnum := ar_prnnum p\<rparr>"

lemma OnRecvAuthResponse_spec:
  assumes "OnRecvAuthResponse packet c db = Inr (ok, c', db')"
  shows "\<exists>bs cmd. pk_first packet = Some bs \<and> auth_insert (AuthResponsePacket_of bs) c = Inr cmd \<and>
    c' = auth_fields (AuthResponsePacket_of bs) c \<and> db_step db (auth_commands cmd) ok db'"
proof -
  obtain bs db1 db2 db3 cmd where *: "pk_first packet = Some bs"
    "MysqlExecCommand ''delete from devstate_base;'' db = Inr db1"
    "MysqlExecCommand ''delete from devstate_ttyinfo;'' db1 = Inr db2"
    "MysqlExecCommand ''delete from devstate_scrinfo;'' db2 = Inr db3"
    "auth_insert (AuthResponsePacket_of bs) c = Inr cmd"
    "c' = auth_fields (AuthResponsePacket_of bs) c" "execute cmd db3 = Inr (ok, db')"
    using assms
    by (auto simp: OnRecvAuthResponse_def and_then_eq_Inr_iff payload_of_eq_Inr auth_fields_def Let_def)
  then show ?thesis
    using db_step_trans [OF db_step_trans [OF db_step_trans
      [OF db_step_exec [OF *(2)] db_step_exec [OF *(3)]] db_step_exec [OF *(4)]]
      db_step_execute [OF *(7)]]
    by (auto simp: auth_commands_def)
qed

lemma OnRecvSysInfoResponse_spec:
  "OnRecvSysInfoResponse packet c db = Inr (ok, db') \<Longrightarrow>
     \<exists>bs. pk_first packet = Some bs \<and>
       db_step db [sysinfo_update (SysInfoResponsePacket_of bs) c] ok db'"
  by (auto simp: OnRecvSysInfoResponse_def and_then_eq_Inr_iff payload_of_eq_Inr db_step_execute)

lemma OnRecvConfInfoResponse_spec:
  "OnRecvConfInfoResponse packet c db = Inr (ok, db') \<Longrightarrow>
     \<exists>cmd. payload_update ''devstate_base_config'' (pk_second packet) c = Inr cmd \<and>
       db_step db [cmd] ok db'"
  by (auto simp: OnRecvConfInfoResponse_def and_then_eq_Inr_iff db_step_execute)

lemma OnRecvProcInfoResponse_spec:
  "OnRecvProcInfoResponse packet c db = Inr (ok, db') \<Longrightarrow>
     \<exists>cmd. payload_update ''devstate_base_process'' (pk_second packet) c = Inr cmd \<and>
       db_step db [cmd] ok db'"
  by (auto simp: OnRecvProcInfoResponse_def and_then_eq_Inr_iff db_step_execute)

lemma OnRecvEtherInfoResponse_spec:
  "OnRecvEtherInfoResponse packet c db = Inr (ok, db') \<Longrightarrow>
     \<exists>bs. pk_first packet = Some bs \<and>
       db_step db [ether_update (EtherInfoResponsePacket_of bs) c] ok db'"
  by (auto simp: OnRecvEtherInfoResponse_def and_then_eq_Inr_iff payload_of_eq_Inr db_step_execute)

lemma OnRecvTermResponse_spec:
  "OnRecvTermResponse packet c db = Inr (ok, c', db') \<Longrightarrow>
     \<exists>bs cmd. pk_first packet = Some bs \<and>
       c' = c\<lparr>tty_connected := uint (tr_term_num (TerInfoResponsePacket_of bs))\<rparr> \<and>
       db_step db [cmd] ok db'"
  by (auto simp: OnRecvTermResponse_def and_then_eq_Inr_iff payload_of_eq_Inr Let_def
      intro: db_step_execute)

lemma OnRecvIPTermResponse_spec:
  "OnRecvIPTermResponse packet c db = Inr (ok, c', db') \<Longrightarrow>
     \<exists>bs cmd tty. pk_first packet = Some bs \<and>
       c' = c\<lparr>current_tty := tty, current_scr := ir_active_screen (IPTermResponsePacket_of bs)\<rparr> \<and>
       db_step db [cmd] ok db'"
  by (fastforce simp: OnRecvIPTermResponse_def and_then_eq_Inr_iff payload_of_eq_Inr Let_def
      intro: db_step_execute)

lemma OnRecvScreenInfoPacket_spec:
  "OnRecvScreenInfoPacket packet c db = Inr (ok, db') \<Longrightarrow>
     \<exists>bs cmd. pk_first packet = Some bs \<and>
       screen_insert (global_number db) (ScreenInfoPacket_of bs) c = Inr cmd \<and>
       global_number db' = global_number db + 1 \<and> db_step db [cmd] ok db'"
  using execute_spec(2) db_step_execute
  by (fastforce simp: OnRecvScreenInfoPacket_def and_then_eq_Inr_iff payload_of_eq_Inr Let_def
      int_inc_eq_Inr)

lemma UpdateTTYConnected_spec:
  "UpdateTTYConnected c db = Inr (ok, db') \<Longrightarrow> \<exists>cmd. db_step db [cmd] ok db'"
  by (auto simp: UpdateTTYConnected_def intro: db_step_execute)

section \<open>Retrying ends when the server comes back\<close>

lemma retry_until_returns:
  "0 < count_list xs True \<Longrightarrow>
     \<exists>ys. retry_until xs = Inr ys \<and> count_list ys True + 1 = count_list xs True"
  by (induction xs) auto

text \<open>\<open>recovers n db\<close>: the connection can be set up anew \<open>n\<close> times.\<close>

definition recovers :: "nat \<Rightarrow> Database \<Rightarrow> bool" where
  "recovers n db \<longleftrightarrow> n \<le> count_list (db_inits db) True \<and> n \<le> count_list (db_connects db) True"

lemma DatabaseInit_returns:
  assumes "recovers (Suc n) db"
  shows "\<exists>db'. DatabaseInit db = Inr db' \<and> recovers n db' \<and> db_sent db' = db_sent db"
proof -
  obtain ns cs where "retry_until (db_inits db) = Inr ns" "n \<le> count_list ns True"
    "retry_until (db_connects db) = Inr cs" "n \<le> count_list cs True"
    using assms retry_until_returns [of "db_inits db"] retry_until_returns [of "db_connects db"]
    by (auto simp: recovers_def)
  then show ?thesis
    by (simp add: DatabaseInit_def recovers_def)
qed

lemma recovers_less: "recovers (Suc n) db \<Longrightarrow> recovers n db"
  by (simp add: recovers_def)

lemma recovers_sent [simp]: "recovers n (sent cmd r rs db) = recovers n db"
  by (simp add: recovers_def sent_def)

lemma after_failure_returns:
  assumes "recovers (Suc n) db" "3 \<le> length (rp_error r)"
  shows "\<exists>db'. after_failure r db = Inr db' \<and> recovers n db' \<and> db_sent db' = db_sent db"
  using assms DatabaseInit_returns [OF assms(1)] recovers_less by (auto simp: after_failure_def)

lemma query_loop_retries:
  "\<forall>r \<in> set fails. \<not> rp_ok r \<and> 3 \<le> length (rp_error r) \<Longrightarrow> recovers (length fails) db \<Longrightarrow> rp_ok good \<Longrightarrow>
     \<exists>db'. query_loop cmd (fails @ good # rest) db = Inr (good, db') \<and>
       db_sent db' = db_sent db @ replicate (length fails + 1) (c_str cmd) \<and>
       db_queries db' = rest \<and> db_error db' = rp_error good"
proof (induction fails arbitrary: db)
  case (Cons r fails)
  let ?db = "sent cmd r (fails @ good # rest) db"
  obtain db1 where db1: "after_failure r ?db = Inr db1" "recovers (length fails) db1" "db_sent db1 = db_sent ?db"
    using Cons.prems after_failure_returns [of "length fails" ?db r] by auto
  with Cons.IH [OF _ db1(2)] Cons.prems show ?case
    by fastforce
qed simp

text \<open>
  C31: \<^verbatim>\<open>MysqlExecCommand\<close> returns once the server has accepted the command. If the first
  queries fail and the connection can be set up again as often as they do, the command is sent
  once more than it failed, nothing else is sent, and the error left is the one of the last query.
\<close>

theorem exec_retries:
  assumes "db_queries db = fails @ good # rest"
    and "\<forall>r \<in> set fails. \<not> rp_ok r \<and> 3 \<le> length (rp_error r)" and "recovers (length fails) db"
    and "rp_ok good" and "\<not> rp_null good \<or> rp_error good = []"
  shows "\<exists>db'. MysqlExecCommand cmd db = Inr db' \<and> db_queries db' = rest \<and> db_error db' = rp_error good \<and>
    db_sent db' = db_sent db @ replicate (length fails + 1) (c_str cmd)"
proof -
  obtain db1 where db1: "query_loop cmd (fails @ good # rest) db = Inr (good, db1)"
    "db_sent db1 = db_sent db @ replicate (length fails + 1) (c_str cmd)" "db_queries db1 = rest"
    "db_error db1 = rp_error good"
    using query_loop_retries [OF assms(2,3,4)] by blast
  moreover have "store_loop cmd good rest db1 = Inr db1"
    using assms(5) by (cases rest) auto
  ultimately show ?thesis
    using assms(1) by (simp add: MysqlExecCommand_def)
qed

definition sample_outage :: Database where
  "sample_outage = \<lparr>db_inits = [True, False, True], db_connects = [False, True, True],
     db_queries = replicate 2 \<lparr>rp_ok = False, rp_null = True, rp_error = ''gone away''\<rparr> @
       [\<lparr>rp_ok = True, rp_null = True, rp_error = []\<rparr>],
     db_sent = [], db_error = [], global_number = 0\<rparr>"

theorem exec_retries_witness:
  "\<exists>db'. MysqlExecCommand ''commit'' sample_outage = Inr db' \<and> db_queries db' = [] \<and> db_error db' = [] \<and>
    db_sent db' = replicate 3 ''commit''"
  using exec_retries [of sample_outage "replicate 2 \<lparr>rp_ok = False, rp_null = True, rp_error = ''gone away''\<rparr>"
      "\<lparr>rp_ok = True, rp_null = True, rp_error = []\<rparr>" "[]" "''commit''"]
  by (simp add: sample_outage_def recovers_def c_str_def)

section \<open>What the texts say\<close>

lemma split_at:
  "d \<notin> set xs \<Longrightarrow> d \<notin> set xs' \<Longrightarrow> xs @ d # ys = xs' @ d # ys' \<longleftrightarrow> xs = xs' \<and> ys = ys'"
proof (induction xs arbitrary: xs')
  case Nil
  then show ?case by (cases xs') auto
next
  case (Cons x xs)
  then show ?case by (cases xs') auto
qed

lemma num8_no_dot [simp]: "CHR ''.'' \<notin> set (num8 w)"
  using dec_digits [of "unat w"] by (auto simp: num8_def is_digit_def)

lemma num8_inj: "num8 v = num8 w \<longleftrightarrow> v = w"
  by (simp add: num8_def dec_inj word_unat_eq_iff)

text \<open>
  The dotted text \<^verbatim>\<open>int32_t2ipaddr\<close> writes determines the address.
\<close>

theorem ipaddr_injective: "int32_t2ipaddr a = int32_t2ipaddr b \<longleftrightarrow> a = b"
proof
  assume "int32_t2ipaddr a = int32_t2ipaddr b"
  then have "byte_of 3 a = byte_of 3 b" "byte_of 2 a = byte_of 2 b" "byte_of 1 a = byte_of 1 b"
    "byte_of 0 a = byte_of 0 b"
    by (simp_all add: int32_t2ipaddr_def split_at num8_inj)
  then have "mk32 (byte_of 3 a) (byte_of 2 a) (byte_of 1 a) (byte_of 0 a) =
      mk32 (byte_of 3 b) (byte_of 2 b) (byte_of 1 b) (byte_of 0 b)"
    by simp
  then show "a = b"
    by simp
qed simp

text \<open>
  The text of a hardware address does not determine it: its bytes are written
  without leading zeros and, within a pair, without a separator.
\<close>

theorem mac_ambiguous:
  "mac_text [0x01, 0x11, c, d, e, f] = mac_text [0x11, 0x01, c, d, e, f]"
proof -
  have "hex 1 = ''1''" "hex 17 = ''11''"
    by (simp_all add: hex_def radix.simps digit_char_def char_of_def bit_0)
  then show ?thesis
    by (simp add: mac_text_def)
qed

text \<open>
  The negotiation bit of an Ethernet report never reaches the database: the two
  literals the code chooses between are the same text.
\<close>

theorem autonego_lost:
  "ether_update (p\<lparr>er_options := er_options p XOR 4\<rparr>) c = ether_update p c"
proof -
  have "(er_options p XOR 4) AND 1 = er_options p AND 1" "(er_options p XOR 4) AND 2 = er_options p AND 2"
    by (simp_all add: bit.conj_xor_distrib2)
  then show ?thesis
    by (simp add: ether_update_def autonego_yes_def autonego_no_def)
qed

text \<open>
  What a device sends as its configuration or process list becomes part of an
  SQL command byte by byte, quotes and semicolons included, up to its first NUL.
\<close>

theorem config_verbatim:
  assumes "pk_second packet = bs @ 0 # rest" "0 \<notin> set bs" "ready 1 db"
  shows "OnRecvConfInfoResponse packet c db = Inr (True, answered
      [''update devstate_base set devstate_base_config = '' @ sq (chars_of bs) @ where_dev c] db) \<and>
    OnRecvProcInfoResponse packet c db = Inr (True, answered
      [''update devstate_base set devstate_base_process = '' @ sq (chars_of bs) @ where_dev c] db)"
  using ready_execute [of 0 db] assms
  by (simp add: OnRecvConfInfoResponse_def OnRecvProcInfoResponse_def payload_update_def
      cstr_append_nul sq_def)

definition sample_answering :: Database where
  "sample_answering = \<lparr>db_inits = [], db_connects = [],
     db_queries = [\<lparr>rp_ok = True, rp_null = True, rp_error = []\<rparr>],
     db_sent = [], db_error = [], global_number = 0\<rparr>"

definition sample_text :: Packet where
  "sample_text = \<lparr>pk_header = \<lparr>hd_direction = 0x91, hd_packet_type = 0x03, hd_packet_size = 0\<rparr>,
     pk_first = Some [0, 0, 0, 0], pk_second = [39, 59, 0]\<rparr>"

theorem config_verbatim_witness:
  "\<forall>c. OnRecvConfInfoResponse sample_text c sample_answering = Inr (True, answered
      [''update devstate_base set devstate_base_config = '' @ [CHR 0x27, CHR 0x27, CHR '';'', CHR 0x27] @
       where_dev c] sample_answering)"
proof
  fix c
  have "chars_of [39, 59] = [CHR 0x27, CHR '';'']"
    by (simp add: chars_of_def char_of_def bit_0 bit_Suc bit_numeral_rec)
  then show "OnRecvConfInfoResponse sample_text c sample_answering = Inr (True, answered
      [''update devstate_base set devstate_base_config = '' @ [CHR 0x27, CHR 0x27, CHR '';'', CHR 0x27] @
       where_dev c] sample_answering)"
    using config_verbatim [of sample_text "[39, 59]" "[]" sample_answering c]
    by (simp add: sample_text_def sample_answering_def ready_def sq_def)
qed

end
