(* ===== verification/Presentation.thy ===== *)
theory Presentation
  imports Database
begin

text \<open>
  \<^verbatim>\<open>PresentationLayer::fsm\<close> of \<^verbatim>\<open>server/src/presentation.cpp\<close>, the state machine of a session,
  one definition per case of its \<^verbatim>\<open>switch\<close>. A call returns the \<^verbatim>\<open>bool\<close> of the code, the client
  and the database, or the fault that ends the process.

  Logging is left out, with the buffers (\<^verbatim>\<open>recvbuffer\<close>) that are filled only to be logged.
\<close>

type_synonym outcome = "fault + bool \<times> Client \<times> Database"

section \<open>Receiving\<close>

text \<open>The beginning of every waiting state: take a packet, test direction and type.\<close>

definition receive ::
  "env \<Rightarrow> u8 list \<Rightarrow> Client \<Rightarrow> Database \<Rightarrow> (Packet \<Rightarrow> Client \<Rightarrow> outcome) \<Rightarrow> outcome" where
  "receive e types c db k =
     and_then (take_packet (env_junk e 0) False c) (\<lambda>(packet, c').
       if hd_direction (pk_header packet) \<noteq> 0x91 then Inr (False, c', db)
       else if hd_packet_type (pk_header packet) \<notin> set types then Inr (False, c', db)
       else k packet c')"

definition host_header :: "PacketHeader \<Rightarrow> PacketHeader" where
  "host_header h = h\<lparr>hd_packet_size := ntohs (hd_packet_size h)\<rparr>"

text \<open>\<open>refill packet bs\<close>: the packet after the struct \<^verbatim>\<open>payload.first\<close> points to, and the length in
  its header, have been converted in place.\<close>

definition refill :: "Packet \<Rightarrow> bytes \<Rightarrow> Packet" where
  "refill packet bs = packet\<lparr>pk_header := host_header (pk_header packet), pk_first := Some bs\<rparr>"

section \<open>Acceptance\<close>

text \<open>The two option names, device connection interval and device sampling interval.\<close>

definition connect_gap_key :: string where
  "connect_gap_key = gbk [0xC9, 0xE8, 0xB1, 0xB8, 0xC1, 0xAC, 0xBD, 0xD3, 0xBC, 0xE4, 0xB8, 0xF4]"

definition sample_gap_key :: string where
  "sample_gap_key = gbk [0xC9, 0xE8, 0xB1, 0xB8, 0xB2, 0xC9, 0xD1, 0xF9, 0xBC, 0xE4, 0xB8, 0xF4]"

definition opt_at :: "env \<Rightarrow> string \<Rightarrow> fault + string" where
  "opt_at e key = (case opt e key of None \<Rightarrow> Inl Missing_Key | Some v \<Rightarrow> Inr v)"

definition opt_u16 :: "env \<Rightarrow> string \<Rightarrow> fault + u16" where
  "opt_u16 e key =
     and_then (opt_at e key) (\<lambda>v. and_then (stoi v) (\<lambda>i. Inr (htons (word_of_int i))))"

definition auth_request :: "env \<Rightarrow> u16 \<Rightarrow> u16 \<Rightarrow> bytes" where
  "auth_request e gap_fail gap_succeed =
     (let header = \<lparr>hd_direction = 0x11, hd_packet_type = 0x01,
            hd_packet_size = htons (of_nat (kHeaderSize + sizeof_AuthRequestPacket))\<rparr>;
          (random_num, svr_time, auth_str) =
            server_encrypt_auth (env_now e) (env_rnd e) c_auth;
          pkt = \<lparr>aq_pad_1 = [0, 0],
            aq_payload_size = htons (of_nat (sizeof_AuthRequestPacket - 4)),
            aq_version_main = htons 0x3, aq_version_sub1 = 0x4, aq_version_sub2 = 0x5,
            aq_time_gap_fail = gap_fail, aq_time_gap_succeed = gap_succeed,
            aq_is_empty_tty = 0x1, aq_pad_2 = [0, 0, 0], aq_auth_string = auth_str,
            aq_random_num = htonl random_num, aq_svr_time = htonl svr_time\<rparr>
      in message header (AuthRequestPacket_mem pkt))"

definition on_acceptance :: "env \<Rightarrow> Client \<Rightarrow> Database \<Rightarrow> outcome" where
  "on_acceptance e c db =
     and_then (opt_u16 e connect_gap_key) (\<lambda>gap_fail.
     and_then (opt_u16 e sample_gap_key) (\<lambda>gap_succeed.
     Inr (True, (push_message (auth_request e gap_fail gap_succeed) c)\<lparr>state := WaitAuth\<rparr>, db)))"

section \<open>WaitAuth\<close>

definition host_version :: "VersionRequirePacket \<Rightarrow> VersionRequirePacket" where
  "host_version p = p\<lparr>vr_payload_size := ntohs (vr_payload_size p),
     vr_required_version_main := ntohs (vr_required_version_main p)\<rparr>"

definition host_auth :: "AuthResponsePacket \<Rightarrow> AuthResponsePacket" where
  "host_auth p = p\<lparr>ar_cpu_frequence := ntohs (ar_cpu_frequence p), ar_ram := ntohs (ar_ram p),
     ar_flash := ntohs (ar_flash p), ar_internal_serial := ntohs (ar_internal_serial p),
     ar_devid := ntohl (ar_devid p)\<rparr>"

text \<open>
  \<open>open_auth bs\<close>: the 104 bytes from member \<^verbatim>\<open>cpu_frequence\<close> on are decrypted in place under the
  received \<^verbatim>\<open>random_num\<close>, then converted; the flag is \<^verbatim>\<open>decrypt_auth\<close>'s.
\<close>

definition open_auth :: "bytes \<Rightarrow> AuthResponsePacket \<times> bool" where
  "open_auth bs =
     (let p = AuthResponsePacket_of bs;
          p1 = p\<lparr>ar_payload_size := ntohs (ar_payload_size p), ar_random_num := ntohl (ar_random_num p)\<rparr>;
          m = AuthResponsePacket_mem p1;
          (plain, ok) = server_decrypt_auth (ar_random_num p1) (get_bytes 4 104 m)
      in (host_auth (AuthResponsePacket_of (take 4 m @ plain @ drop 108 m)), ok))"

definition admit :: "AuthResponsePacket \<Rightarrow> Packet \<Rightarrow> Client \<Rightarrow> Database \<Rightarrow> outcome" where
  "admit p packet c db =
     and_then (OnRecvAuthResponse (refill packet (AuthResponsePacket_mem p))
       (c\<lparr>ether_last := ar_ethnum p\<rparr>) db) (\<lambda>(ok, c2, db').
     if \<not> ok then Inr (False, c2, db')
     else Inr (True, (push_message (plain_request 0x02) c2)\<lparr>state := WaitSysInfo\<rparr>, db'))"

definition check_auth :: "Packet \<Rightarrow> bytes \<Rightarrow> Client \<Rightarrow> Database \<Rightarrow> outcome" where
  "check_auth packet bs c db =
     (let (p, passed) = open_auth bs
      in if passed then admit p packet c db else Inr (False, c, db))"

text \<open>
  A packet of type 0x00 that passes the version test goes on as if it were the AuthResponse, with
  its first members converted once more.
\<close>

definition got_auth :: "Database \<Rightarrow> Packet \<Rightarrow> Client \<Rightarrow> outcome" where
  "got_auth db packet c1 =
     and_then (payload_of packet) (\<lambda>bs.
     if hd_packet_type (pk_header packet) = 0x00
     then (let v = host_version (VersionRequirePacket_of bs) in
           if vr_required_version_main v > 0x03 then Inr (False, c1, db)
           else check_auth (packet\<lparr>pk_header := host_header (pk_header packet)\<rparr>)
             (VersionRequirePacket_mem v @ drop sizeof_VersionRequirePacket bs) c1 db)
     else check_auth packet bs c1 db)"

definition on_wait_auth :: "env \<Rightarrow> Client \<Rightarrow> Database \<Rightarrow> outcome" where
  "on_wait_auth e c db = receive e [0x00, 0x01] c db (got_auth db)"

section \<open>WaitSysInfo, WaitConfigInfo, WaitProcInfo\<close>

definition host_sysinfo :: "SysInfoResponsePacket \<Rightarrow> SysInfoResponsePacket" where
  "host_sysinfo p = p\<lparr>sr_payload_size := ntohs (sr_payload_size p),
     sr_user_cpu_time := ntohl (sr_user_cpu_time p), sr_nice_cpu_time := ntohl (sr_nice_cpu_time p),
     sr_system_cpu_time := ntohl (sr_system_cpu_time p), sr_idle_cpu_time := ntohl (sr_idle_cpu_time p),
     sr_freed_memory := ntohl (sr_freed_memory p)\<rparr>"

text \<open>The value \<^verbatim>\<open>OnRecvSysInfoResponse\<close> returns is dropped.\<close>

definition got_sysinfo :: "Database \<Rightarrow> Packet \<Rightarrow> Client \<Rightarrow> outcome" where
  "got_sysinfo db packet c1 =
     and_then (payload_of packet) (\<lambda>bs.
     and_then (OnRecvSysInfoResponse
       (refill packet (SysInfoResponsePacket_mem (host_sysinfo (SysInfoResponsePacket_of bs)))) c1 db)
       (\<lambda>(_, db').
     Inr (True, (push_message (plain_request 0x03) c1)\<lparr>state := WaitConfigInfo\<rparr>, db')))"

definition on_wait_sysinfo :: "env \<Rightarrow> Client \<Rightarrow> Database \<Rightarrow> outcome" where
  "on_wait_sysinfo e c db = receive e [0x02] c db (got_sysinfo db)"

definition host_plain :: "PlainPacket \<Rightarrow> PlainPacket" where
  "host_plain p = p\<lparr>pp_payload_size := ntohs (pp_payload_size p)\<rparr>"

definition got_config :: "Database \<Rightarrow> Packet \<Rightarrow> Client \<Rightarrow> outcome" where
  "got_config db packet c1 =
     and_then (payload_of packet) (\<lambda>bs.
     and_then (OnRecvConfInfoResponse
       (refill packet (PlainPacket_mem (host_plain (PlainPacket_of bs)))) c1 db) (\<lambda>(ok, db').
     if \<not> ok then Inr (False, c1, db')
     else Inr (True, (push_message (plain_request 0x04) c1)\<lparr>state := WaitProcInfo\<rparr>, db')))"

definition on_wait_config :: "env \<Rightarrow> Client \<Rightarrow> Database \<Rightarrow> outcome" where
  "on_wait_config e c db = receive e [0x03] c db (got_config db)"

text \<open>
  The \<^verbatim>\<open>switch (client.ethnum)\<close>: 2 asks for port 1 and falls through to 1, which asks for port 0;
  any other number has no case and leaves state and buffer as they are.
\<close>

definition ask_ethers :: "Client \<Rightarrow> Client" where
  "ask_ethers c =
     (if ethnum c = 0x00 then (push_message (plain_request 0x09) c)\<lparr>state := WaitTermInfo\<rparr>
      else if ethnum c = 0x02
      then (push_message (ether_request 0) (push_message (ether_request 1) c))\<lparr>state := WaitEtheInfo\<rparr>
      else if ethnum c = 0x01 then (push_message (ether_request 0) c)\<lparr>state := WaitEtheInfo\<rparr>
      else c)"

definition got_proc :: "Database \<Rightarrow> Packet \<Rightarrow> Client \<Rightarrow> outcome" where
  "got_proc db packet c1 =
     and_then (payload_of packet) (\<lambda>bs.
     and_then (OnRecvProcInfoResponse
       (refill packet (PlainPacket_mem (host_plain (PlainPacket_of bs)))) c1 db) (\<lambda>(ok, db').
     if \<not> ok then Inr (False, c1, db') else Inr (True, ask_ethers c1, db')))"

definition on_wait_proc :: "env \<Rightarrow> Client \<Rightarrow> Database \<Rightarrow> outcome" where
  "on_wait_proc e c db = receive e [0x04] c db (got_proc db)"

section \<open>WaitEtheInfo\<close>

definition host_ether :: "EtherInfoResponsePacket \<Rightarrow> EtherInfoResponsePacket" where
  "host_ether p = p\<lparr>er_port := ntohs (er_port p), er_payload_size := ntohs (er_payload_size p),
     er_options := ntohs (er_options p), er_addr := ntohl (er_addr p), er_mask := ntohl (er_mask p),
     er_addr_port_1 := ntohl (er_addr_port_1 p), er_mask_port_1 := ntohl (er_mask_port_1 p),
     er_addr_port_2 := ntohl (er_addr_port_2 p), er_mask_port_2 := ntohl (er_mask_port_2 p),
     er_addr_port_3 := ntohl (er_addr_port_3 p), er_mask_port_3 := ntohl (er_mask_port_3 p),
     er_addr_port_4 := ntohl (er_addr_port_4 p), er_mask_port_4 := ntohl (er_mask_port_4 p),
     er_addr_port_5 := ntohl (er_addr_port_5 p), er_mask_port_5 := ntohl (er_mask_port_5 p),
     er_send_bytes := ntohl (er_send_bytes p), er_send_packets := ntohl (er_send_packets p),
     er_send_errs := ntohl (er_send_errs p), er_send_drop := ntohl (er_send_drop p),
     er_send_fifo := ntohl (er_send_fifo p), er_send_frame := ntohl (er_send_frame p),
     er_send_compressed := ntohl (er_send_compressed p), er_send_multicast := ntohl (er_send_multicast p),
     er_recv_bytes := ntohl (er_recv_bytes p), er_recv_packets := ntohl (er_recv_packets p),
     er_recv_errs := ntohl (er_recv_errs p), er_recv_drop := ntohl (er_recv_drop p),
     er_recv_fifo := ntohl (er_recv_fifo p), er_recv_frame := ntohl (er_recv_frame p),
     er_recv_compressed := ntohl (er_recv_compressed p),
     er_recv_multicast := ntohl (er_recv_multicast p)\<rparr>"

definition got_ether :: "Database \<Rightarrow> Packet \<Rightarrow> Client \<Rightarrow> outcome" where
  "got_ether db packet c1 =
     and_then (payload_of packet) (\<lambda>bs.
     and_then (OnRecvEtherInfoResponse
       (refill packet (EtherInfoResponsePacket_mem (host_ether (EtherInfoResponsePacket_of bs)))) c1 db)
       (\<lambda>(ok, db').
     if \<not> ok then Inr (False, c1, db')
     else (let c2 = c1\<lparr>ethnum := ethnum c1 - 1\<rparr> in
       if ethnum c2 > 0 then Inr (True, c2\<lparr>state := WaitEtheInfo\<rparr>, db')
       else Inr (True, (push_message (plain_request 0x09) c2)\<lparr>state := WaitTermInfo\<rparr>, db'))))"

definition on_wait_ether :: "env \<Rightarrow> Client \<Rightarrow> Database \<Rightarrow> outcome" where
  "on_wait_ether e c db = receive e [0x05] c db (got_ether db)"

section \<open>WaitTermInfo\<close>

definition host_term :: "TerInfoResponsePacket \<Rightarrow> TerInfoResponsePacket" where
  "host_term p = p\<lparr>tr_payload_size := ntohs (tr_payload_size p), tr_term_num := ntohs (tr_term_num p)\<rparr>"

text \<open>One request for every entry of the array that is not 0, from index \<open>i\<close> on.\<close>

fun term_loop :: "u8 \<Rightarrow> nat \<Rightarrow> bytes \<Rightarrow> bytes list" where
  "term_loop t i [] = []"
| "term_loop t i (b # bs) =
     (if b = 0 then term_loop t (i + 1) bs else term_request t i # term_loop t (i + 1) bs)"

text \<open>
  \<^verbatim>\<open>recved_pkt\<close> refers to the struct \<^verbatim>\<open>OnRecvTermResponse\<close> has deleted; the two loops read what its
  memory holds by then.
\<close>

definition got_term :: "env \<Rightarrow> Database \<Rightarrow> Packet \<Rightarrow> Client \<Rightarrow> outcome" where
  "got_term e db packet c1 =
     and_then (payload_of packet) (\<lambda>bs.
     (let bs1 = TerInfoResponsePacket_mem (host_term (TerInfoResponsePacket_of bs)) in
      and_then (OnRecvTermResponse (refill packet bs1) c1 db) (\<lambda>(ok, c2, db').
      if \<not> ok then Inr (False, c2, db')
      else (let recved_pkt = TerInfoResponsePacket_of (env_freed e bs1)
            in Inr (True, c2\<lparr>dumb_term := tr_dumb_term recved_pkt,
                            ip_term := tr_ip_term recved_pkt,
                            send_buffer := send_buffer c2 @
                              term_loop 0x0a 0 (tr_dumb_term recved_pkt) @
                              term_loop 0x0b 0 (tr_ip_term recved_pkt),
                            state := WaitIPTermInfo\<rparr>, db')))))"

definition on_wait_term :: "env \<Rightarrow> Client \<Rightarrow> Database \<Rightarrow> outcome" where
  "on_wait_term e c db = receive e [0x09] c db (got_term e db)"

section \<open>WaitIPTermInfo\<close>

text \<open>The four bytes of \<^verbatim>\<open>ttyip\<close> go through \<^verbatim>\<open>ntohs\<close>, a function of 16 bits.\<close>

definition host_ipterm :: "IPTermResponsePacket \<Rightarrow> IPTermResponsePacket" where
  "host_ipterm p = p\<lparr>ir_ttyno := ntohs (ir_ttyno p), ir_payload_size := ntohs (ir_payload_size p),
     ir_ttyip := ucast (ntohs (ucast (ir_ttyip p)))\<rparr>"

definition finish_session :: "Client \<Rightarrow> Client" where
  "finish_session c = (push_message (plain_request 0xff) c)\<lparr>state := Ended\<rparr>"

text \<open>The end of the case, once the count has gone up and \<^verbatim>\<open>scr_num\<close> is set.\<close>

definition after_terminal :: "IPTermResponsePacket \<Rightarrow> Packet \<Rightarrow> Client \<Rightarrow> Client" where
  "after_terminal p packet c =
     (if ir_screen_num p \<noteq> 0
      then c\<lparr>current_ipterm :=
               (current_ipterm c)\<lparr>pk_header := pk_header packet, pk_first := pk_first packet\<rparr>,
             state := WaitScrInfo, is_scr := True,
             scr_packet_size := scr_num c * int sizeof_ScreenInfoPacket\<rparr>
      else if tty_cnt c = tty_connected c then finish_session c
      else c)"

definition got_ipterm :: "Database \<Rightarrow> Packet \<Rightarrow> Client \<Rightarrow> outcome" where
  "got_ipterm db packet c1 =
     and_then (payload_of packet) (\<lambda>bs.
     (let p = host_ipterm (IPTermResponsePacket_of bs);
          packet1 = refill packet (IPTermResponsePacket_mem p)
      in and_then (OnRecvIPTermResponse packet1 c1 db) (\<lambda>(ok, c2, db').
      if \<not> ok then Inr (False, c2, db')
      else and_then (int_inc (tty_cnt c2)) (\<lambda>cnt.
        Inr (True, after_terminal p packet1
          (c2\<lparr>tty_cnt := cnt, scr_num := uint (ir_screen_num p)\<rparr>), db')))))"

definition on_wait_ipterm :: "env \<Rightarrow> Client \<Rightarrow> Database \<Rightarrow> outcome" where
  "on_wait_ipterm e c db = receive e [0x0a, 0x0b] c db (got_ipterm db)"

section \<open>WaitScrInfo\<close>

definition host_screen :: "ScreenInfoPacket \<Rightarrow> ScreenInfoPacket" where
  "host_screen p = p\<lparr>sc_server_port := ntohs (sc_server_port p), sc_server_ip := ntohl (sc_server_ip p),
     sc_time := ntohl (sc_time p), sc_send_term_byte := ntohl (sc_send_term_byte p),
     sc_recv_term_byte := ntohl (sc_recv_term_byte p),
     sc_send_server_byte := ntohl (sc_send_server_byte p),
     sc_recv_server_byte := ntohl (sc_recv_server_byte p), sc_ping_min := ntohl (sc_ping_min p),
     sc_ping_avg := ntohl (sc_ping_avg p), sc_ping_max := ntohl (sc_ping_max p)\<rparr>"

text \<open>
  The loop over the screens, \<open>n\<close> to go, the next being number \<open>i\<close>; false is its \<^verbatim>\<open>return false\<close>. At
  the end of each turn the code copies bytes for the log (presentation.cpp:721-723), from the address of the pointer
  \<^verbatim>\<open>packet.payload.first\<close> and not from what it points to: it reads 96 bytes of the stack. That copy has no
  effect but on the log and is left out, like all copies made only for the log.
\<close>

fun screen_loop :: "env \<Rightarrow> nat \<Rightarrow> nat \<Rightarrow> Client \<Rightarrow> Database \<Rightarrow> outcome" where
  "screen_loop e i 0 c db = Inr (True, c, db)"
| "screen_loop e i (Suc n) c db =
     and_then (take_packet (env_junk e i) True c) (\<lambda>(packet, c1).
     and_then (payload_of packet) (\<lambda>bs.
     and_then (OnRecvScreenInfoPacket
       (packet\<lparr>pk_first := Some (ScreenInfoPacket_mem (host_screen (ScreenInfoPacket_of bs)))\<rparr>) c1 db)
       (\<lambda>(ok, db').
     if \<not> ok then Inr (False, c1, db') else screen_loop e (i + 1) n c1 db')))"

definition on_wait_screens :: "env \<Rightarrow> Client \<Rightarrow> Database \<Rightarrow> outcome" where
  "on_wait_screens e c db =
     and_then (screen_loop e 0 (nat (scr_num c)) c db) (\<lambda>(ok, c1, db').
     if \<not> ok then Inr (False, c1, db')
     else (let c2 = c1\<lparr>is_scr := False\<rparr> in
       if tty_cnt c2 = tty_connected c2 then Inr (True, finish_session c2, db')
       else Inr (True, c2\<lparr>state := WaitIPTermInfo\<rparr>, db')))"

section \<open>End, and the machine\<close>

definition got_end :: "Database \<Rightarrow> Packet \<Rightarrow> Client \<Rightarrow> outcome" where
  "got_end db packet c1 =
     and_then (UpdateTTYConnected c1 db) (\<lambda>(ok, db'). Inr (ok, c1, db'))"

definition on_end :: "env \<Rightarrow> Client \<Rightarrow> Database \<Rightarrow> outcome" where
  "on_end e c db = receive e [0xff] c db (got_end db)"

definition fsm :: "env \<Rightarrow> Client \<Rightarrow> Database \<Rightarrow> outcome" where
  "fsm e c db =
     (case state c of
       Acceptance \<Rightarrow> on_acceptance e c db
     | WaitAuth \<Rightarrow> on_wait_auth e c db
     | WaitSysInfo \<Rightarrow> on_wait_sysinfo e c db
     | WaitConfigInfo \<Rightarrow> on_wait_config e c db
     | WaitProcInfo \<Rightarrow> on_wait_proc e c db
     | WaitEtheInfo \<Rightarrow> on_wait_ether e c db
     | WaitTermInfo \<Rightarrow> on_wait_term e c db
     | WaitIPTermInfo \<Rightarrow> on_wait_ipterm e c db
     | WaitScrInfo \<Rightarrow> on_wait_screens e c db
     | Ended \<Rightarrow> on_end e c db
     | _ \<Rightarrow> Inr (False, c, db))"

section \<open>What a call may do\<close>

text \<open>
  \<open>frame c c'\<close>: socket and address are those of before, messages are only appended to the send
  buffer, every one of them 8 or 60 bytes long, and the receive buffer stays well-formed.
\<close>

definition frame :: "Client \<Rightarrow> Client \<Rightarrow> bool" where
  "frame c c' \<longleftrightarrow>
     socket_fd c' = socket_fd c \<and> ipaddr c' = ipaddr c \<and>
     (\<exists>ms. send_buffer c' = send_buffer c @ ms \<and> (\<forall>m \<in> set ms. length m \<in> {8, 60})) \<and>
     (cq_inv (recv_buffer c) \<longrightarrow>
        cq_inv (recv_buffer c') \<and> cq_size (recv_buffer c') = cq_size (recv_buffer c))"

lemma frame_refl: "frame c c"
  by (simp add: frame_def)

lemma frame_trans [trans]: "frame c c1 \<Longrightarrow> frame c1 c2 \<Longrightarrow> frame c c2"
  unfolding frame_def by (auto simp: ball_Un)

lemma frame_intro:
  assumes "socket_fd c' = socket_fd c" "ipaddr c' = ipaddr c" "recv_buffer c' = recv_buffer c"
    "send_buffer c' = send_buffer c @ ms" "\<forall>m \<in> set ms. length m \<in> {8, 60}"
  shows "frame c c'"
  using assms by (auto simp: frame_def)

lemma frame_push:
  assumes "frame c c1" "socket_fd c2 = socket_fd c1" "ipaddr c2 = ipaddr c1"
    "recv_buffer c2 = recv_buffer c1" "send_buffer c2 = send_buffer c1 @ ms"
    "\<forall>m \<in> set ms. length m \<in> {8, 60}"
  shows "frame c c2"
  using frame_trans [OF assms(1) frame_intro [OF assms(2-6)]] .

lemma frame_take:
  "take_packet junk scr c = Inr (p, c') \<Longrightarrow> frame c c' \<and> state c' = state c \<and> (\<exists>q. c' = c\<lparr>recv_buffer := q\<rparr>)"
  using take_packet_inv [of junk scr c p c']
  by (auto simp: take_packet_def and_then_eq_Inr_iff frame_def dest: dequeue_packet_inv)

text \<open>
  The edges of the protocol: from state to state in a call that returns true. WaitProcInfo has
  itself as a successor because of the missing \<^verbatim>\<open>switch\<close> cases.
\<close>

fun next_states :: "SessionState \<Rightarrow> SessionState list" where
  "next_states Acceptance = [WaitAuth]"
| "next_states WaitAuth = [WaitSysInfo]"
| "next_states WaitSysInfo = [WaitConfigInfo]"
| "next_states WaitConfigInfo = [WaitProcInfo]"
| "next_states WaitProcInfo = [WaitProcInfo, WaitEtheInfo, WaitTermInfo]"
| "next_states WaitEtheInfo = [WaitEtheInfo, WaitTermInfo]"
| "next_states WaitTermInfo = [WaitIPTermInfo]"
| "next_states WaitIPTermInfo = [WaitIPTermInfo, WaitScrInfo, Ended]"
| "next_states WaitScrInfo = [WaitIPTermInfo, Ended]"
| "next_states Ended = [Ended]"
| "next_states _ = []"

text \<open>What holds of every call that returns, collected for the proofs below.\<close>

definition sound :: "Client \<Rightarrow> Database \<Rightarrow> bool \<Rightarrow> Client \<Rightarrow> Database \<Rightarrow> bool" where
  "sound c db ok c' db' \<longleftrightarrow>
     frame c c' \<and>
     (if ok then state c' \<in> set (next_states (state c)) else state c' = state c) \<and>
     (\<exists>cmds. db_grows db cmds db') \<and> (documented db \<longrightarrow> documented db')"

named_theorems sound_calls \<open>soundness of each state's handler\<close>

lemma soundI:
  assumes "frame c c'" "if ok then state c' \<in> set (next_states (state c)) else state c' = state c"
    "db_step db cmds r db'"
  shows "sound c db ok c' db'"
  using assms by (auto simp: sound_def db_step_def)

lemma sound_no_db:
  assumes "frame c c'" "if ok then state c' \<in> set (next_states (state c)) else state c' = state c"
  shows "sound c db ok c' db"
  using assms db_grows_refl unfolding sound_def by blast

text \<open>
  The client whose packet has been taken differs from \<open>c\<close> in its receive buffer only, so what
  the rest of the call does to it, it does to \<open>c\<close>.
\<close>

lemma sound_after:
  "frame c c1 \<Longrightarrow> state c1 = state c \<Longrightarrow> sound c1 db ok c' db' \<Longrightarrow> sound c db ok c' db'"
  unfolding sound_def using frame_trans by metis

lemma receive_eq_Inr:
  assumes "receive e ts c db k = Inr (ok, c', db')"
  obtains p c1 where "take_packet (env_junk e 0) False c = Inr (p, c1)"
    "\<not> ok \<and> c' = c1 \<and> db' = db \<or>
     hd_direction (pk_header p) = 0x91 \<and> hd_packet_type (pk_header p) \<in> set ts \<and> k p c1 = Inr (ok, c', db')"
proof -
  obtain p c1 where take: "take_packet (env_junk e 0) False c = Inr (p, c1)"
    using assms by (auto simp: receive_def and_then_eq_Inr_iff)
  show thesis
    by (rule that [OF take]) (use assms take in \<open>simp add: receive_def split: if_splits\<close>)
qed

lemma receive_sound:
  assumes "receive e ts c db k = Inr (ok, c', db')"
    and "\<And>p c1. state c1 = state c \<Longrightarrow> k p c1 = Inr (ok, c', db') \<Longrightarrow> sound c1 db ok c' db'"
  shows "sound c db ok c' db'"
  using assms(1)
proof (rule receive_eq_Inr)
  fix p c1
  assume "take_packet (env_junk e 0) False c = Inr (p, c1)"
  then have c1: "frame c c1" "state c1 = state c"
    using frame_take by blast+
  assume "\<not> ok \<and> c' = c1 \<and> db' = db \<or> hd_direction (pk_header p) = 0x91 \<and>
    hd_packet_type (pk_header p) \<in> set ts \<and> k p c1 = Inr (ok, c', db')"
  then show ?thesis
    using c1 assms(2) sound_after sound_no_db [of c c' ok db] by fastforce
qed

lemma length_auth_request [simp]: "length (auth_request e a b) = 60"
  by (simp add: auth_request_def message_def Let_def case_prod_beta server_encrypt_auth_def
      encrypt_auth_eq wf_AuthRequestPacket_def sizeof_defs)

lemma acceptance_sound [sound_calls]:
  "on_acceptance e c db = Inr (ok, c', db') \<Longrightarrow> state c = Acceptance \<Longrightarrow> sound c db ok c' db'"
  by (auto simp: on_acceptance_def and_then_eq_Inr_iff push_message_def
      intro!: sound_no_db frame_intro)

text \<open>The end of most calls: a message or two, and the next state.\<close>

lemma sound_push:
  assumes "db_step db cmds r db'" "socket_fd c' = socket_fd c" "ipaddr c' = ipaddr c"
    "recv_buffer c' = recv_buffer c" "send_buffer c' = send_buffer c @ ms"
    "\<forall>m \<in> set ms. length m \<in> {8, 60}"
    "if ok then state c' \<in> set (next_states (state c)) else state c' = state c"
  shows "sound c db ok c' db'"
  using assms by (intro soundI frame_intro)

lemma admit_sound:
  assumes "admit a p c db = Inr (ok, c', db')" "state c = WaitAuth"
  shows "sound c db ok c' db'"
proof -
  obtain p' q c2 where h:
      "OnRecvAuthResponse p' (c\<lparr>ether_last := q\<rparr>) db = Inr (ok, c2, db')"
      "c' = (if ok then (push_message (plain_request 0x02) c2)\<lparr>state := WaitSysInfo\<rparr> else c2)"
    using assms(1) by (auto simp: admit_def and_then_eq_Inr_iff split: if_splits)
  then obtain pkt cmds where "c2 = auth_fields pkt (c\<lparr>ether_last := q\<rparr>)" "db_step db cmds ok db'"
    using OnRecvAuthResponse_spec by metis
  with h assms(2) show ?thesis
    by (intro sound_push [where ms = "if ok then [plain_request 0x02] else []"])
      (auto simp: auth_fields_def push_message_def)
qed

lemma check_auth_sound:
  "check_auth p bs c db = Inr (ok, c', db') \<Longrightarrow> state c = WaitAuth \<Longrightarrow> sound c db ok c' db'"
  by (auto simp: check_auth_def admit_sound sound_no_db frame_refl split: prod.splits if_splits)

lemma got_auth_sound:
  "got_auth db p c = Inr (ok, c', db') \<Longrightarrow> state c = WaitAuth \<Longrightarrow> sound c db ok c' db'"
  by (auto simp: got_auth_def and_then_eq_Inr_iff Let_def check_auth_sound sound_no_db frame_refl
      split: if_splits)

lemma wait_auth_sound [sound_calls]:
  "on_wait_auth e c db = Inr (ok, c', db') \<Longrightarrow> state c = WaitAuth \<Longrightarrow> sound c db ok c' db'"
  unfolding on_wait_auth_def by (erule receive_sound) (simp add: got_auth_sound)

lemma got_sysinfo_sound:
  assumes "got_sysinfo db p c = Inr (ok, c', db')" "state c = WaitSysInfo"
  shows "sound c db ok c' db'"
proof -
  obtain p' r where "OnRecvSysInfoResponse p' c db = Inr (r, db')" "ok"
      "c' = (push_message (plain_request 0x03) c)\<lparr>state := WaitConfigInfo\<rparr>"
    using assms(1) by (auto simp: got_sysinfo_def and_then_eq_Inr_iff)
  then show ?thesis
    using OnRecvSysInfoResponse_spec [of p' c db r db'] assms(2)
    by (auto simp: push_message_def intro: sound_push)
qed

lemma wait_sysinfo_sound [sound_calls]:
  "on_wait_sysinfo e c db = Inr (ok, c', db') \<Longrightarrow> state c = WaitSysInfo \<Longrightarrow> sound c db ok c' db'"
  unfolding on_wait_sysinfo_def by (erule receive_sound) (simp add: got_sysinfo_sound)

lemma got_config_sound:
  assumes "got_config db p c = Inr (ok, c', db')" "state c = WaitConfigInfo"
  shows "sound c db ok c' db'"
proof -
  obtain p' where "OnRecvConfInfoResponse p' c db = Inr (ok, db')"
      "c' = (if ok then (push_message (plain_request 0x04) c)\<lparr>state := WaitProcInfo\<rparr> else c)"
    using assms(1) by (auto simp: got_config_def and_then_eq_Inr_iff split: if_splits)
  then show ?thesis
    using OnRecvConfInfoResponse_spec [of p' c db ok db'] assms(2)
    by (auto simp: push_message_def intro: sound_push)
qed

lemma wait_config_sound [sound_calls]:
  "on_wait_config e c db = Inr (ok, c', db') \<Longrightarrow> state c = WaitConfigInfo \<Longrightarrow> sound c db ok c' db'"
  unfolding on_wait_config_def by (erule receive_sound) (simp add: got_config_sound)

lemma got_proc_sound:
  assumes "got_proc db p c = Inr (ok, c', db')" "state c = WaitProcInfo"
  shows "sound c db ok c' db'"
proof -
  obtain p' where "OnRecvProcInfoResponse p' c db = Inr (ok, db')"
      and c': "c' = (if ok then ask_ethers c else c)"
    using assms(1) by (auto simp: got_proc_def and_then_eq_Inr_iff split: if_splits)
  then obtain cmd where "db_step db [cmd] ok db'"
    using OnRecvProcInfoResponse_spec by blast
  then show ?thesis
    using c' assms(2)
    by (intro sound_push [where ms = "drop (length (send_buffer c)) (send_buffer c')"])
      (auto simp: ask_ethers_def push_message_def)
qed

lemma wait_proc_sound [sound_calls]:
  "on_wait_proc e c db = Inr (ok, c', db') \<Longrightarrow> state c = WaitProcInfo \<Longrightarrow> sound c db ok c' db'"
  unfolding on_wait_proc_def by (erule receive_sound) (simp add: got_proc_sound)

lemma got_ether_sound:
  assumes "got_ether db p c = Inr (ok, c', db')" "state c = WaitEtheInfo"
  shows "sound c db ok c' db'"
proof -
  let ?c = "c\<lparr>ethnum := ethnum c - 1\<rparr>"
  obtain p' where "OnRecvEtherInfoResponse p' c db = Inr (ok, db')"
      and c': "c' = (if \<not> ok then c else if ethnum c - 1 > 0 then ?c\<lparr>state := WaitEtheInfo\<rparr>
        else (push_message (plain_request 0x09) ?c)\<lparr>state := WaitTermInfo\<rparr>)"
    using assms(1) by (auto simp: got_ether_def and_then_eq_Inr_iff Let_def split: if_splits)
  then obtain cmd where "db_step db [cmd] ok db'"
    using OnRecvEtherInfoResponse_spec by blast
  then show ?thesis
    using c' assms(2)
    by (intro sound_push [where ms = "drop (length (send_buffer c)) (send_buffer c')"])
      (auto simp: push_message_def)
qed

lemma wait_ether_sound [sound_calls]:
  "on_wait_ether e c db = Inr (ok, c', db') \<Longrightarrow> state c = WaitEtheInfo \<Longrightarrow> sound c db ok c' db'"
  unfolding on_wait_ether_def by (erule receive_sound) (simp add: got_ether_sound)

lemma term_loop_eq:
  "term_loop t i bs = map (\<lambda>k. term_request t (i + k)) (filter (\<lambda>k. bs ! k \<noteq> 0) [0..<length bs])"
proof (induction t i bs rule: term_loop.induct)
  case (2 t i b bs)
  have "[0..<length (b # bs)] = 0 # map Suc [0..<length bs]"
    by (simp add: upt_conv_Cons map_Suc_upt del: upt_Suc)
  with 2 show ?case
    by (simp add: filter_map comp_def del: upt_Suc)
qed simp

lemma length_in_term_loop: "m \<in> set (term_loop t i bs) \<Longrightarrow> length m = 8"
  by (auto simp: term_loop_eq)

lemma got_term_sound:
  assumes "got_term e db p c = Inr (ok, c', db')" "state c = WaitTermInfo"
  shows "sound c db ok c' db'"
proof -
  obtain p' c2 ds ts where h: "OnRecvTermResponse p' c db = Inr (ok, c2, db')"
      and c': "c' = (if \<not> ok then c2 else c2\<lparr>dumb_term := ds, ip_term := ts,
        send_buffer := send_buffer c2 @ term_loop 0x0a 0 ds @ term_loop 0x0b 0 ts,
        state := WaitIPTermInfo\<rparr>)"
    using assms(1) by (auto simp: got_term_def and_then_eq_Inr_iff Let_def split: if_splits)
  obtain n cmd where "c2 = c\<lparr>tty_connected := n\<rparr>" "db_step db [cmd] ok db'"
    using OnRecvTermResponse_spec [OF h] by blast
  then show ?thesis
    using c' assms(2)
    by (intro sound_push [where ms = "if ok then term_loop 0x0a 0 ds @ term_loop 0x0b 0 ts else []"])
      (auto dest: length_in_term_loop)
qed

lemma wait_term_sound [sound_calls]:
  "on_wait_term e c db = Inr (ok, c', db') \<Longrightarrow> state c = WaitTermInfo \<Longrightarrow> sound c db ok c' db'"
  unfolding on_wait_term_def by (erule receive_sound) (simp add: got_term_sound)

lemma after_terminal_fields [simp]:
  "socket_fd (after_terminal p q c) = socket_fd c" "ipaddr (after_terminal p q c) = ipaddr c"
  "recv_buffer (after_terminal p q c) = recv_buffer c"
  "tty_cnt (after_terminal p q c) = tty_cnt c" "tty_connected (after_terminal p q c) = tty_connected c"
  by (simp_all add: after_terminal_def finish_session_def push_message_def)

lemma after_terminal_sends:
  "send_buffer (after_terminal p q c) =
     send_buffer c @ (if ir_screen_num p = 0 \<and> tty_cnt c = tty_connected c then [plain_request 0xff] else [])"
  by (simp add: after_terminal_def finish_session_def push_message_def)

lemma after_terminal_state:
  "state c = WaitIPTermInfo \<Longrightarrow> state (after_terminal p q c) =
     (if ir_screen_num p \<noteq> 0 then WaitScrInfo else if tty_cnt c = tty_connected c then Ended
      else WaitIPTermInfo)"
  by (simp add: after_terminal_def finish_session_def push_message_def)

lemma got_ipterm_eq_Inr:
  assumes "got_ipterm db p c = Inr (ok, c', db')"
  obtains a p' c2 where "OnRecvIPTermResponse p' c db = Inr (ok, c2, db')"
    "c' = (if ok then after_terminal a p' (c2\<lparr>tty_cnt := tty_cnt c2 + 1, scr_num := uint (ir_screen_num a)\<rparr>)
           else c2)"
  using assms
  by (auto simp: got_ipterm_def and_then_eq_Inr_iff Let_def int_inc_eq_Inr split: if_splits)

lemma got_ipterm_sound:
  assumes "got_ipterm db p c = Inr (ok, c', db')" "state c = WaitIPTermInfo"
  shows "sound c db ok c' db'"
  using assms(1)
proof (rule got_ipterm_eq_Inr)
  fix a p' c2
  assume h: "OnRecvIPTermResponse p' c db = Inr (ok, c2, db')"
    and c': "c' = (if ok then after_terminal a p' (c2\<lparr>tty_cnt := tty_cnt c2 + 1, scr_num := uint (ir_screen_num a)\<rparr>)
      else c2)"
  obtain tty scr cmd where "c2 = c\<lparr>current_tty := tty, current_scr := scr\<rparr>" "db_step db [cmd] ok db'"
    using OnRecvIPTermResponse_spec [OF h] by blast
  then show ?thesis
    using c' assms(2)
    by (intro sound_push [where ms = "drop (length (send_buffer c)) (send_buffer c')"])
      (auto simp: after_terminal_sends after_terminal_state)
qed

lemma wait_ipterm_sound [sound_calls]:
  "on_wait_ipterm e c db = Inr (ok, c', db') \<Longrightarrow> state c = WaitIPTermInfo \<Longrightarrow> sound c db ok c' db'"
  unfolding on_wait_ipterm_def by (erule receive_sound) (simp add: got_ipterm_sound)


text \<open>The screens of a terminal: every one is a command, and the queue is read only.\<close>

definition screens_read :: "Client \<Rightarrow> Database \<Rightarrow> Client \<Rightarrow> Database \<Rightarrow> bool" where
  "screens_read c db c' db' \<longleftrightarrow>
     frame c c' \<and> (\<exists>q. c' = c\<lparr>recv_buffer := q\<rparr>) \<and>
     (\<exists>cmds. db_grows db cmds db') \<and> (documented db \<longrightarrow> documented db')"

lemma screens_read_trans:
  "screens_read c db c1 db1 \<Longrightarrow> screens_read c1 db1 c2 db2 \<Longrightarrow> screens_read c db c2 db2"
  unfolding screens_read_def by (auto intro: frame_trans db_grows_trans)

lemma screen_loop_reads:
  "screen_loop e i n c db = Inr (ok, c', db') \<Longrightarrow> screens_read c db c' db'"
proof (induction e i n c db rule: screen_loop.induct)
  case (1 e i c db)
  then show ?case
    by (auto simp: screens_read_def frame_refl intro: db_grows_refl exI [of _ "recv_buffer c"])
next
  case (2 e i n c db)
  obtain p c1 bs ok1 db1 where h: "take_packet (env_junk e i) True c = Inr (p, c1)"
      "payload_of p = Inr bs"
      "OnRecvScreenInfoPacket (p\<lparr>pk_first := Some (ScreenInfoPacket_mem (host_screen (ScreenInfoPacket_of bs)))\<rparr>)
         c1 db = Inr (ok1, db1)"
    and k: "(if \<not> ok1 then Inr (False, c1, db1) else screen_loop e (i + 1) n c1 db1) = Inr (ok, c', db')"
    using "2.prems" by (auto simp: and_then_eq_Inr_iff)
  obtain cmd where "db_step db [cmd] ok1 db1"
    using OnRecvScreenInfoPacket_spec [OF h(3)] by blast
  then have 1: "screens_read c db c1 db1"
    using frame_take [OF h(1)] by (auto simp: screens_read_def db_step_def)
  show ?case
  proof (cases ok1)
    case True
    then have "screen_loop e (i + 1) n c1 db1 = Inr (ok, c', db')"
      using k by simp
    then have "screens_read c1 db1 c' db'"
      using "2.IH" h True by fastforce
    with 1 show ?thesis by (rule screens_read_trans)
  next
    case False
    with 1 k show ?thesis by simp
  qed
qed

lemma wait_screens_sound [sound_calls]:
  assumes "on_wait_screens e c db = Inr (ok, c', db')" "state c = WaitScrInfo"
  shows "sound c db ok c' db'"
proof -
  obtain c1 where loop: "screen_loop e 0 (nat (scr_num c)) c db = Inr (ok, c1, db')"
    and c': "c' = (if \<not> ok then c1
      else if tty_cnt c1 = tty_connected c1 then finish_session (c1\<lparr>is_scr := False\<rparr>)
      else c1\<lparr>is_scr := False, state := WaitIPTermInfo\<rparr>)"
    using assms(1) by (auto simp: on_wait_screens_def and_then_eq_Inr_iff Let_def split: if_splits)
  have 1: "frame c c1" "state c1 = state c" "\<exists>cmds. db_grows db cmds db'" "documented db \<longrightarrow> documented db'"
    using screen_loop_reads [OF loop] by (auto simp: screens_read_def)
  have "frame c c'"
    using c' by (intro frame_push [OF 1(1), where ms = "drop (length (send_buffer c1)) (send_buffer c')"])
      (auto simp: finish_session_def push_message_def)
  then show ?thesis
    using 1 c' assms(2) by (auto simp: sound_def finish_session_def)
qed

lemma got_end_sound:
  "got_end db p c = Inr (ok, c', db') \<Longrightarrow> state c = Ended \<Longrightarrow> sound c db ok c' db'"
  by (auto simp: got_end_def and_then_eq_Inr_iff frame_refl dest!: UpdateTTYConnected_spec
      intro!: soundI)

lemma end_sound [sound_calls]:
  "on_end e c db = Inr (ok, c', db') \<Longrightarrow> state c = Ended \<Longrightarrow> sound c db ok c' db'"
  unfolding on_end_def by (erule receive_sound) (simp add: got_end_sound)

lemma fsm_sound:
  "fsm e c db = Inr (ok, c', db') \<Longrightarrow> sound c db ok c' db'"
  by (cases "state c") (auto simp: fsm_def sound_calls sound_no_db frame_refl)

end
