(* ===== verification/Authentication.thy ===== *)
theory Authentication
  imports Presentation
begin

text \<open>
  The step of the session that lets a client in. \<open>auth_core\<close> is the part of the AuthResponse the
  cipher covers; the lemmas say what \<open>open_auth\<close> makes of a packet a client has sealed and of any
  other packet, and what the state machine then does with it.
\<close>

section \<open>The encrypted part\<close>

definition auth_core :: "AuthResponsePacket \<Rightarrow> bytes" where
  "auth_core p = mem16 (ar_cpu_frequence p) @ mem16 (ar_ram p) @ mem16 (ar_flash p) @
     mem16 (ar_internal_serial p) @ ar_group_serial p @ ar_device_type p @ ar_software_verison p @
     [ar_ethnum p] @ [ar_syncnum p] @ [ar_asyncnum p] @ [ar_switchnum p] @ [ar_usbnum p] @
     [ar_prnnum p] @ ar_pad_2 p @ mem32 (ar_devid p) @ [ar_devno p] @ ar_pad_3 p @ ar_auth_string p"

lemma auth_mem_split:
  "AuthResponsePacket_mem p =
     (ar_pad_1 p @ mem16 (ar_payload_size p)) @ auth_core p @ mem32 (ar_random_num p)"
  by (simp add: AuthResponsePacket_mem_def auth_core_def)

lemma length_auth_core: "wf_AuthResponsePacket p \<Longrightarrow> length (auth_core p) = 104"
  by (simp add: auth_core_def wf_AuthResponsePacket_def)

lemma auth_core_cong [simp]:
  "auth_core (p\<lparr>ar_payload_size := a\<rparr>) = auth_core p" "auth_core (p\<lparr>ar_random_num := b\<rparr>) = auth_core p"
  by (simp_all add: auth_core_def)

lemma auth_core_here: "wf_AuthResponsePacket p \<Longrightarrow> get_bytes 4 104 (AuthResponsePacket_mem p) = auth_core p"
  by (simp add: auth_mem_split get_bytes_def length_auth_core wf_AuthResponsePacket_def)

lemma wf_auth_update [simp]:
  "wf_AuthResponsePacket (p\<lparr>ar_payload_size := a\<rparr>) = wf_AuthResponsePacket p"
  "wf_AuthResponsePacket (p\<lparr>ar_random_num := b\<rparr>) = wf_AuthResponsePacket p"
  by (simp_all add: wf_AuthResponsePacket_def)

lemma open_auth_verdict:
  assumes "length bs = sizeof_AuthResponsePacket"
  shows "snd (open_auth bs) \<longleftrightarrow>
    auth_tail (server_crypt (htonl (get32 108 bs)) (get_bytes 4 104 bs))"
proof -
  let ?p = "AuthResponsePacket_of bs"
  have "get_bytes 4 104 bs = auth_core ?p"
    using auth_core_here [of ?p] assms by (simp add: AuthResponsePacket_mem_of)
  moreover have "ar_random_num ?p = get32 108 bs"
    by (simp add: AuthResponsePacket_of_def)
  ultimately show ?thesis
    using assms by (simp add: open_auth_def Let_def case_prod_beta auth_core_here length_auth_core c2s.accepted_iff client_crypt_def server_crypt_def tables_equal)
qed

lemma open_auth_plain:
  assumes "wf_AuthResponsePacket p" "auth_tail (auth_core p)"
    and "bs = ar_pad_1 p @ mem16 n @ client_crypt r (auth_core p) @ mem32 (htonl r)"
  shows "open_auth bs = (host_auth (p\<lparr>ar_payload_size := ntohs n, ar_random_num := r\<rparr>), True)"
proof -
  define q where "q = p\<lparr>ar_payload_size := ntohs n, ar_random_num := r\<rparr>"
  let ?b = "AuthResponsePacket_of bs"
  have len: "length bs = sizeof_AuthResponsePacket"
    using assms(1) by (simp add: assms(3) client_crypt_def length_auth_core sizeof_defs wf_AuthResponsePacket_def)
  have core: "auth_core ?b = client_crypt r (auth_core p)"
    using auth_core_here [of ?b] len assms(1)
    by (simp add: AuthResponsePacket_mem_of) (simp add: assms(3) get_bytes_def wf_AuthResponsePacket_def client_crypt_def length_auth_core)
  have flds: "ar_pad_1 ?b = ar_pad_1 p" "ar_payload_size ?b = n" "ar_random_num ?b = htonl r"
    using assms(1) by (simp_all add: assms(3) AuthResponsePacket_of_def wf_AuthResponsePacket_def layout_simps length_auth_core client_crypt_def)
  have dec: "server_decrypt_auth r (client_crypt r (auth_core p)) = (auth_core p, True)"
    using c2s.dec_enc assms(2) by simp
  have "AuthResponsePacket_mem q = (ar_pad_1 p @ mem16 (ntohs n)) @ auth_core p @ mem32 r"
    by (simp add: auth_mem_split q_def)
  moreover have "AuthResponsePacket_of (AuthResponsePacket_mem q) = q"
    using assms(1) by (simp add: q_def)
  moreover have "length (client_crypt r (auth_core p)) = 104"
    using assms(1) by (simp add: client_crypt_def length_auth_core)
  moreover from this have "get_bytes 4 104 (ar_pad_1 p @ mem16 (ntohs n) @
      client_crypt r (auth_core p) @ mem32 r) = client_crypt r (auth_core p)"
    using assms(1) by (simp add: get_bytes_def wf_AuthResponsePacket_def)
  ultimately show ?thesis
    using assms(1)
    by (simp add: open_auth_def Let_def flds core dec q_def auth_mem_split wf_AuthResponsePacket_def)
qed

section \<open>A packet in the buffer\<close>

text \<open>
  The buffer of \<open>c\<close> begins with a complete packet of direction \<open>d\<close> and type \<open>t\<close>, whose payload is
  the struct \<open>first\<close> followed by \<open>second\<close>; \<open>rest\<close> comes after it.
\<close>

definition packet_header :: "u8 \<Rightarrow> u8 \<Rightarrow> nat \<Rightarrow> PacketHeader" where
  "packet_header d t n =
     \<lparr>hd_direction = d, hd_packet_type = t, hd_packet_size = htons (of_nat (4 + n))\<rparr>"

definition holds_packet :: "Client \<Rightarrow> u8 \<Rightarrow> u8 \<Rightarrow> bytes \<Rightarrow> bytes \<Rightarrow> bytes \<Rightarrow> bool" where
  "holds_packet c d t first second rest \<longleftrightarrow>
     framed (recv_buffer c) (packet_header d t (length first + length second)) (first @ second) rest \<and>
     struct_size t = Some (length first) \<and> t \<noteq> code_of_type IPTerm \<and>
     4 + length first + length second < 2 ^ 16"

text \<open>\<open>consumed c rest c1\<close>: \<open>c1\<close> is \<open>c\<close> with a receive buffer that holds \<open>rest\<close>.\<close>

definition consumed :: "Client \<Rightarrow> bytes \<Rightarrow> Client \<Rightarrow> bool" where
  "consumed c rest c1 \<longleftrightarrow>
     c1 = c\<lparr>recv_buffer := recv_buffer c1\<rparr> \<and> cq_inv (recv_buffer c1) \<and>
     cq_list (recv_buffer c1) = rest \<and> cq_size (recv_buffer c1) = cq_size (recv_buffer c)"

lemma take_packet_holds:
  assumes "holds_packet c d t first second rest"
  shows "\<exists>c1. consumed c rest c1 \<and> (\<forall>junk. take_packet junk False c =
    Inr (\<lparr>pk_header = packet_header d t (length first + length second), pk_first = Some first,
      pk_second = second\<rparr>, c1))"
proof -
  let ?h = "packet_header d t (length first + length second)"
  have f: "framed (recv_buffer c) ?h (first @ second) rest"
    and s: "struct_size (hd_packet_type ?h) = Some (length first)"
    and t: "hd_packet_type ?h \<noteq> code_of_type IPTerm"
    using assms by (simp_all add: holds_packet_def packet_header_def)
  have n: "unat (ntohs (hd_packet_size ?h)) = 4 + length first + length second"
    using assms unat_of_nat16 [of "4 + length first + length second"]
    by (simp add: holds_packet_def packet_header_def add.assoc del: of_nat_add)
  obtain q where q: "dequeue_packet undefined False (recv_buffer c) =
      Inr (\<lparr>pk_header = ?h, pk_first = Some first, pk_second = second\<rparr>, q)"
      "cq_inv q" "cq_list q = rest" "cq_size q = cq_size (recv_buffer c)"
    using dequeue_packet_framed [OF f s n t] by blast
  have "dequeue_packet junk False (recv_buffer c) = dequeue_packet undefined False (recv_buffer c)" for junk
    by (simp add: dequeue_packet_def)
  with q show ?thesis
    by (intro exI [of _ "c\<lparr>recv_buffer := q\<rparr>"]) (simp add: take_packet_def consumed_def)
qed

lemma receive_holds:
  assumes "holds_packet c d t first second rest"
  shows "\<exists>c1. consumed c rest c1 \<and> (\<forall>e ts db k. receive e ts c db k =
    (if d = 0x91 \<and> t \<in> set ts
     then k \<lparr>pk_header = packet_header d t (length first + length second), pk_first = Some first,
            pk_second = second\<rparr> c1
     else Inr (False, c1, db)))"
  using take_packet_holds [OF assms] by (auto simp: receive_def packet_header_def)

text \<open>A session in a given state whose buffer holds given bytes, for examples.\<close>

definition sample_client :: "SessionState \<Rightarrow> bytes \<Rightarrow> Client" where
  "sample_client st bs =
     \<lparr>recv_buffer = snd (enqueue bs (new_queue (\<lambda>_. 0) kRecvBufferSize)), send_buffer = [],
      socket_fd = 5, state = st, ipaddr = ''10.0.0.1'', devid = ''7'', devno = ''1'', ram = 64,
      ethnum = 2, usbnum = 0, prnnum = 0, tty_connected = 3, current_tty = 0, tty_cnt = 0,
      scr_num = 0, current_scr = 0, ether_last = 2, dumb_term = replicate 16 0,
      ip_term = replicate 254 0,
      current_ipterm = \<lparr>pk_header = packet_header 0 0 0, pk_first = None, pk_second = []\<rparr>,
      is_scr = False, scr_packet_size = 0\<rparr>"

lemma sample_client_buffer:
  assumes "length bs \<le> kRecvBufferSize"
  shows "cq_inv (recv_buffer (sample_client st bs))" "cq_list (recv_buffer (sample_client st bs)) = bs"
    "cq_size (recv_buffer (sample_client st bs)) = kRecvBufferSize"
proof -
  let ?q = "new_queue (\<lambda>_. 0) kRecvBufferSize"
  have "cq_inv ?q" "queue_size ?q = 0"
    by (simp_all add: kRecvBufferSize_def kMaxPacketLength_def queue_size_def new_queue_def)
      (simp add: cq_inv_def queue_size_def)
  then show "cq_inv (recv_buffer (sample_client st bs))" "cq_list (recv_buffer (sample_client st bs)) = bs"
    "cq_size (recv_buffer (sample_client st bs)) = kRecvBufferSize"
    using enqueue_ok [of ?q bs] assms by (simp_all add: sample_client_def)
qed

lemma sample_client_state [simp]: "state (sample_client st bs) = st"
  by (simp add: sample_client_def)

lemma sample_holds:
  assumes "4 + length first + length second < 2 ^ 16" "struct_size t = Some (length first)"
    "t \<noteq> code_of_type IPTerm" "4 + length first + length second + length rest \<le> kRecvBufferSize"
  shows "holds_packet (sample_client st (PacketHeader_mem (packet_header d t (length first + length second)) @
    first @ second @ rest)) d t first second rest"
  using assms
  by (simp add: holds_packet_def framed_def sample_client_buffer sizeof_PacketHeader_def)

definition sample_db :: "nat \<Rightarrow> Database" where
  "sample_db n = \<lparr>db_inits = [], db_connects = [],
     db_queries = replicate n \<lparr>rp_ok = True, rp_null = True, rp_error = []\<rparr>,
     db_sent = [], db_error = [], global_number = 0\<rparr>"

lemma sample_db_ready [simp]: "ready n (sample_db n)"
  by (simp add: ready_def sample_db_def)

section \<open>Admission\<close>

lemma ready_auth_commands:
  assumes "ready 4 db" "auth_insert p c = Inr cmd" "pk_first packet = Some (AuthResponsePacket_mem p)"
    "wf_AuthResponsePacket p"
  shows "OnRecvAuthResponse packet c db = Inr (True, auth_fields p c, answered (auth_commands cmd) db)"
proof -
  let ?db1 = "answered [''delete from devstate_base;''] db"
  let ?db2 = "answered [''delete from devstate_ttyinfo;''] ?db1"
  let ?db3 = "answered [''delete from devstate_scrinfo;''] ?db2"
  have r: "ready (Suc 3) db" "ready (Suc 2) ?db1" "ready (Suc 1) ?db2" "ready (Suc 0) ?db3"
    using assms(1) ready_exec(2) by (simp_all add: numeral_eq_Suc del: answered_answered)
  show ?thesis
    using assms ready_exec(1) [OF r(1)] ready_exec(1) [OF r(2)] ready_exec(1) [OF r(3)]
      ready_execute [OF r(4)]
    by (simp add: OnRecvAuthResponse_def auth_fields_def auth_commands_def)
qed

text \<open>What a client sends: the core of \<open>p\<close> encrypted under \<open>r\<close>, the length field as given.\<close>

definition sealed :: "AuthResponsePacket \<Rightarrow> u16 \<Rightarrow> u32 \<Rightarrow> bytes" where
  "sealed p n r = ar_pad_1 p @ mem16 n @ client_crypt r (auth_core p) @ mem32 (htonl r)"

definition opened :: "AuthResponsePacket \<Rightarrow> u16 \<Rightarrow> u32 \<Rightarrow> AuthResponsePacket" where
  "opened p n r = host_auth (p\<lparr>ar_payload_size := ntohs n, ar_random_num := r\<rparr>)"

lemma wf_opened [simp]: "wf_AuthResponsePacket (opened p n r) = wf_AuthResponsePacket p"
  by (simp add: opened_def host_auth_def wf_AuthResponsePacket_def)

lemma open_sealed:
  "wf_AuthResponsePacket p \<Longrightarrow> auth_tail (auth_core p) \<Longrightarrow> open_auth (sealed p n r) = (opened p n r, True)"
  using open_auth_plain [of p "sealed p n r" n r] by (simp add: sealed_def opened_def)

lemma length_sealed [simp]: "wf_AuthResponsePacket p \<Longrightarrow> length (sealed p n r) = 112"
  by (simp add: sealed_def client_crypt_def length_auth_core wf_AuthResponsePacket_def)

lemma auth_tail_core:
  "wf_AuthResponsePacket p \<Longrightarrow> auth_tail (auth_core p) \<longleftrightarrow> drop 1 (ar_auth_string p) = drop 1 c_auth"
proof -
  assume wf: "wf_AuthResponsePacket p"
  then obtain pre where "auth_core p = pre @ ar_auth_string p" "length pre = 72"
    unfolding auth_core_def append_assoc [symmetric] append_Cons [symmetric]
    by (simp add: wf_AuthResponsePacket_def)
  moreover have "length (auth_core p) = 104"
    using wf by (rule length_auth_core)
  ultimately show ?thesis
    using tail_ok_iff [of "auth_core p"] by (simp add: auth_tail_def)
qed


lemma sealed_parts:
  assumes "wf_AuthResponsePacket p"
  shows "get_bytes 4 104 (sealed p n r) = client_crypt r (auth_core p)"
    "get32 108 (sealed p n r) = htonl r"
  using assms
  by (simp_all add: sealed_def client_crypt_def length_auth_core wf_AuthResponsePacket_def get_bytes_def
      layout_simps)

lemma sealed_verdict:
  "wf_AuthResponsePacket p \<Longrightarrow>
     auth_tail (server_crypt (htonl (get32 108 (sealed p n r))) (get_bytes 4 104 (sealed p n r))) \<longleftrightarrow>
     drop 1 (ar_auth_string p) = drop 1 c_auth"
  by (simp add: sealed_parts server_crypt_def client_crypt_def tables_equal auth_tail_core)

text \<open>An AuthResponse with every member set, and its counterpart with a wrong secret.\<close>

definition sample_auth :: "bytes \<Rightarrow> AuthResponsePacket" where
  "sample_auth secret =
     \<lparr>ar_pad_1 = [0, 0], ar_payload_size = htons 108, ar_cpu_frequence = htons 700,
      ar_ram = htons 256, ar_flash = htons 64, ar_internal_serial = htons 33,
      ar_group_serial = replicate 15 0x41 @ [0], ar_device_type = replicate 15 0x42 @ [0],
      ar_software_verison = replicate 15 0x43 @ [0], ar_ethnum = 2, ar_syncnum = 1,
      ar_asyncnum = 0, ar_switchnum = 0, ar_usbnum = 0, ar_prnnum = 0, ar_pad_2 = [0, 0],
      ar_devid = htonl 1551713, ar_devno = 1, ar_pad_3 = [0, 0, 0], ar_auth_string = secret,
      ar_random_num = 0\<rparr>"

lemma wf_sample_auth [simp]: "length secret = 32 \<Longrightarrow> wf_AuthResponsePacket (sample_auth secret)"
  by (simp add: sample_auth_def wf_AuthResponsePacket_def)

lemma sample_auth_secret [simp]: "ar_auth_string (sample_auth secret) = secret"
  by (simp add: sample_auth_def)

definition sample_auth_bytes :: "bytes \<Rightarrow> bytes" where
  "sample_auth_bytes secret =
     PacketHeader_mem (packet_header 0x91 0x01 112) @ sealed (sample_auth secret) (htons 108) 12345"

lemma sample_auth_holds:
  "length secret = 32 \<Longrightarrow> holds_packet (sample_client st (sample_auth_bytes secret)) 0x91 0x01
     (sealed (sample_auth secret) (htons 108) 12345) [] []"
  using sample_holds [where first = "sealed (sample_auth secret) (htons 108) 12345" and second = "[]"
      and rest = "[]" and t = 1 and d = "0x91" and st = st]
  by (simp add: sample_auth_bytes_def struct_size_def sizeof_defs kRecvBufferSize_def kMaxPacketLength_def)

definition sample_env :: env where
  "sample_env = \<lparr>opt = (\<lambda>k. if k = connect_gap_key then Some ''20'' else if k = sample_gap_key then Some ''60''
      else None),
     env_now = 1500000000, env_rnd = (\<lambda>_. 12345), env_junk = (\<lambda>_. packet_header 0 0 92),
     env_freed = (\<lambda>bs. bs)\<rparr>"

text \<open>
  C19: a client whose AuthResponse does not decrypt, under the number it sent along, to
  something that ends in the secret string is turned away: the call returns false, the packet is
  gone from the buffer, nothing is sent and the database is not touched.
\<close>

theorem auth_refused:
  assumes "state c = WaitAuth" "holds_packet c 0x91 0x01 bs second rest"
    and "\<not> auth_tail (server_crypt (htonl (get32 108 bs)) (get_bytes 4 104 bs))"
  shows "\<exists>c1. consumed c rest c1 \<and> fsm e c db = Inr (False, c1, db)"
proof -
  obtain c1 where "consumed c rest c1" and r: "receive e [0x00, 0x01] c db (got_auth db) =
      got_auth db \<lparr>pk_header = packet_header 0x91 0x01 (length bs + length second),
        pk_first = Some bs, pk_second = second\<rparr> c1"
    using receive_holds [OF assms(2)] by fastforce
  moreover have "length bs = sizeof_AuthResponsePacket"
    using assms(2) by (simp add: holds_packet_def struct_size_def)
  then have "snd (open_auth bs) = False"
    using assms(3) by (simp add: open_auth_verdict)
  ultimately show ?thesis
    using assms(1)
    by (auto simp: fsm_def on_wait_auth_def got_auth_def check_auth_def packet_header_def case_prod_beta)
qed

theorem auth_refused_witness:
  "\<forall>e db. \<exists>c1. fsm e (sample_client WaitAuth (sample_auth_bytes (replicate 32 0))) db = Inr (False, c1, db)"
proof -
  let ?bs = "sealed (sample_auth (replicate 32 0)) (htons 108) 12345"
  have "\<not> auth_tail (server_crypt (htonl (get32 108 ?bs)) (get_bytes 4 104 ?bs))"
    by (simp add: sealed_verdict c_auth_def eq_commute [of "replicate n x" for n x])
      (simp add: Cons_replicate_eq)
  then show ?thesis
    using auth_refused [OF _ sample_auth_holds [of "replicate 32 0" WaitAuth]] by auto
qed

lemma wait_auth_admits:
  assumes "state c = WaitAuth" "holds_packet c 0x91 0x01 (sealed p n r) second rest"
    and "wf_AuthResponsePacket p" "drop 1 (ar_auth_string p) = drop 1 c_auth"
    and "auth_insert (opened p n r) (c\<lparr>ether_last := ar_ethnum p\<rparr>) = Inr cmd" "ready 4 db"
  shows "\<exists>c1. consumed c rest c1 \<and> fsm e c db =
    Inr (True,
      (auth_fields (opened p n r) (c1\<lparr>ether_last := ar_ethnum p\<rparr>))
        \<lparr>send_buffer := send_buffer c @ [plain_request 0x02], state := WaitSysInfo\<rparr>,
      answered (auth_commands cmd) db)"
proof -
  let ?p = "\<lparr>pk_header = packet_header 0x91 0x01 (length (sealed p n r) + length second),
    pk_first = Some (sealed p n r), pk_second = second\<rparr>"
  let ?a = "opened p n r"
  obtain c1 where c1: "consumed c rest c1"
    and r: "receive e [0x00, 0x01] c db (got_auth db) = got_auth db ?p c1"
    using receive_holds [OF assms(2)] by fastforce
  have a: "auth_tail (auth_core p)" "ar_ethnum ?a = ar_ethnum p"
    using assms(3,4) by (simp_all add: auth_tail_core) (simp add: opened_def host_auth_def)
  obtain q where q: "c1 = c\<lparr>recv_buffer := q\<rparr>"
    using c1 by (auto simp: consumed_def)
  have c1s: "send_buffer c1 = send_buffer c" "ipaddr c1 = ipaddr c"
    by (simp_all add: q)
  then have "auth_insert ?a (c1\<lparr>ether_last := ar_ethnum p\<rparr>) = Inr cmd"
    using assms(5) by (simp add: auth_insert_def)
  then have "OnRecvAuthResponse (refill ?p (AuthResponsePacket_mem ?a)) (c1\<lparr>ether_last := ar_ethnum p\<rparr>) db =
      Inr (True, auth_fields ?a (c1\<lparr>ether_last := ar_ethnum p\<rparr>), answered (auth_commands cmd) db)"
    using assms(3,6) by (intro ready_auth_commands) (simp_all add: refill_def)
  then have "got_auth db ?p c1 = Inr (True,
      (auth_fields ?a (c1\<lparr>ether_last := ar_ethnum p\<rparr>))
        \<lparr>send_buffer := send_buffer c @ [plain_request 0x02], state := WaitSysInfo\<rparr>,
      answered (auth_commands cmd) db)"
    using assms(3) a c1s
    by (simp add: got_auth_def check_auth_def admit_def packet_header_def open_sealed push_message_def
        auth_fields_def)
  with c1 r assms(1) show ?thesis
    by (auto simp: fsm_def on_wait_auth_def)
qed

text \<open>
  C12: a client that seals a packet ending in the secret string is let in, when its strings can be
  read and the database accepts four commands. Its packet is
  taken off the buffer, its data are entered in the database after the three tables have been
  emptied, its identity is kept in the session, and it is asked for its system information.
\<close>

theorem auth_admitted:
  assumes "state c = WaitAuth" "holds_packet c 0x91 0x01 (sealed p n r) second rest"
    and "wf_AuthResponsePacket p" "drop 1 (ar_auth_string p) = drop 1 c_auth"
    and "auth_insert (opened p n r) (c\<lparr>ether_last := ar_ethnum p\<rparr>) = Inr cmd" "ready 4 db"
  shows "\<exists>c1. consumed c rest c1 \<and> fsm e c db =
    Inr (True,
      (auth_fields (opened p n r) (c1\<lparr>ether_last := ar_ethnum p\<rparr>))
        \<lparr>send_buffer := send_buffer c @ [plain_request 0x02], state := WaitSysInfo\<rparr>,
      answered (auth_commands cmd) db)"
  by (rule wait_auth_admits [OF assms])

lemma cstr_field: "0 \<notin> set xs \<Longrightarrow> drop n m = xs @ 0 # ys \<Longrightarrow> cstr (drop n m) = Inr (chars_of xs)"
  by (simp add: cstr_append_nul)

lemma sample_auth_insert: "\<exists>cmd. auth_insert (opened (sample_auth c_auth) (htons 108) 12345) c = Inr cmd"
proof -
  let ?m = "AuthResponsePacket_mem (opened (sample_auth c_auth) (htons 108) 12345)"
  have "drop 12 ?m = replicate 15 0x41 @ 0 # drop 28 ?m" "drop 28 ?m = replicate 15 0x42 @ 0 # drop 44 ?m"
    "drop 44 ?m = replicate 15 0x43 @ 0 # drop 60 ?m"
    by (simp_all add: AuthResponsePacket_mem_def opened_def host_auth_def sample_auth_def)
  then have "\<exists>s. cstr (drop k ?m) = Inr s" if "k \<in> {12, 28, 44}" for k
    using that cstr_field [of "replicate 15 0x41" 12 ?m] cstr_field [of "replicate 15 0x42" 28 ?m]
      cstr_field [of "replicate 15 0x43" 44 ?m] by auto
  from this [of 12] this [of 28] this [of 44] show ?thesis
    by (auto simp: auth_insert_def)
qed

theorem auth_admitted_witness:
  "\<forall>e. \<exists>c' db'. fsm e (sample_client WaitAuth (sample_auth_bytes c_auth)) (sample_db 4) = Inr (True, c', db') \<and>
     state c' = WaitSysInfo \<and> devid c' = num32 1551713"
proof
  fix e
  let ?c = "sample_client WaitAuth (sample_auth_bytes c_auth)" and ?p = "sample_auth c_auth"
  obtain cmd where "auth_insert (opened ?p (htons 108) 12345) (?c\<lparr>ether_last := ar_ethnum ?p\<rparr>) = Inr cmd"
    using sample_auth_insert by blast
  then obtain c1 where "fsm e ?c (sample_db 4) = Inr (True,
      (auth_fields (opened ?p (htons 108) 12345) (c1\<lparr>ether_last := ar_ethnum ?p\<rparr>))
        \<lparr>send_buffer := send_buffer ?c @ [plain_request 0x02], state := WaitSysInfo\<rparr>,
      answered (auth_commands cmd) (sample_db 4))"
    using auth_admitted [of ?c ?p "htons 108" 12345 "[]" "[]" cmd "sample_db 4" e]
      sample_auth_holds [of c_auth WaitAuth] by auto
  then show "\<exists>c' db'. fsm e ?c (sample_db 4) = Inr (True, c', db') \<and>
      state c' = WaitSysInfo \<and> devid c' = num32 1551713"
    by (simp add: auth_fields_def) (simp add: opened_def host_auth_def sample_auth_def)
qed

text \<open>
  C32: a handler of an AuthResponse that returns has sent four commands in order:
  three that empty the tables, for every device, and the insertion of this one. From then on the
  session names the device by the numbers in its packet.
\<close>

theorem auth_replaces_all:
  assumes "OnRecvAuthResponse packet c db = Inr (ok, c', db')"
  shows "\<exists>bs cmd. pk_first packet = Some bs \<and> auth_insert (AuthResponsePacket_of bs) c = Inr cmd \<and>
    db_grows db [''delete from devstate_base;'', ''delete from devstate_ttyinfo;'',
      ''delete from devstate_scrinfo;'', cmd] db' \<and>
    where_dev c' = '' where devstate_base_devid = '' @ num32 (ar_devid (AuthResponsePacket_of bs)) @
      '' and devstate_base_devno = '' @ num8 (ar_devno (AuthResponsePacket_of bs)) \<and>
    (documented db \<longrightarrow> ok)"
proof -
  obtain bs cmd where "pk_first packet = Some bs" "auth_insert (AuthResponsePacket_of bs) c = Inr cmd"
    "c' = auth_fields (AuthResponsePacket_of bs) c" "db_step db (auth_commands cmd) ok db'"
    using OnRecvAuthResponse_spec [OF assms] by blast
  then show ?thesis
    by (auto simp: db_step_def auth_commands_def auth_fields_def where_dev_def)
qed

theorem auth_replaces_all_witness:
  "\<forall>c. \<exists>ok c' db'. OnRecvAuthResponse (\<lparr>pk_header = packet_header 0x91 0x01 112,
        pk_first = Some (AuthResponsePacket_mem (opened (sample_auth c_auth) (htons 108) 12345)), pk_second = []\<rparr>)
      c (sample_db 4) = Inr (ok, c', db') \<and> ok \<and>
    where_dev c' = '' where devstate_base_devid = '' @ num32 1551713 @ '' and devstate_base_devno = '' @ num8 1"
proof
  fix c
  let ?p = "opened (sample_auth c_auth) (htons 108) 12345"
  let ?packet = "\<lparr>pk_header = packet_header 0x91 0x01 112, pk_first = Some (AuthResponsePacket_mem ?p),
    pk_second = []\<rparr>"
  have wf: "wf_AuthResponsePacket ?p"
    by (simp add: opened_def host_auth_def sample_auth_def wf_AuthResponsePacket_def)
  obtain cmd where "auth_insert ?p c = Inr cmd"
    using sample_auth_insert by blast
  then have ret: "OnRecvAuthResponse ?packet c (sample_db 4) =
      Inr (True, auth_fields ?p c, answered (auth_commands cmd) (sample_db 4))"
    using wf by (simp add: ready_auth_commands)
  moreover have "ar_devid ?p = 1551713" "ar_devno ?p = 1"
    by (simp_all add: opened_def host_auth_def sample_auth_def)
  moreover have "AuthResponsePacket_of (AuthResponsePacket_mem ?p) = ?p"
    using wf by simp
  ultimately show "\<exists>ok c' db'. OnRecvAuthResponse ?packet c (sample_db 4) = Inr (ok, c', db') \<and> ok \<and>
      where_dev c' = '' where devstate_base_devid = '' @ num32 1551713 @ '' and devstate_base_devno = '' @ num8 1"
    using auth_replaces_all [OF ret] by auto
qed

end
