(* ===== verification/Client_Codec.thy ===== *)
theory Client_Codec
  imports Prelude
begin

text \<open>
  The buffer functions of \<^verbatim>\<open>client/client_communicate.cpp\<close>: \<^verbatim>\<open>push_back_uint16\<close>,
  \<^verbatim>\<open>push_back_uint32\<close> and \<^verbatim>\<open>push_back_array\<close> append to a message, the \<^verbatim>\<open>pop_first\<close> functions take
  from its front. A message is the list of the bytes of its \<^verbatim>\<open>vector<uint8_t>\<close>. Taking from an
  empty vector is undefined behaviour.

  The interface \<open>codec\<close> is what packing and unpacking rely on; the functions for bytes,
  16 and 32 bits implement it.
\<close>

section \<open>The interface\<close>

fun push_all :: "(bytes \<Rightarrow> 'w \<Rightarrow> bytes) \<Rightarrow> bytes \<Rightarrow> 'w list \<Rightarrow> bytes" where
  "push_all push m [] = m"
| "push_all push m (w # ws) = push_all push (push m w) ws"

fun pop_all :: "(bytes \<Rightarrow> fault + 'w \<times> bytes) \<Rightarrow> nat \<Rightarrow> bytes \<Rightarrow> fault + 'w list \<times> bytes" where
  "pop_all pop 0 m = Inr ([], m)"
| "pop_all pop (Suc n) m =
     and_then (pop m) (\<lambda>(w, m1). and_then (pop_all pop n m1) (\<lambda>(ws, m2). Inr (w # ws, m2)))"

locale codec =
  fixes push :: "bytes \<Rightarrow> 'w \<Rightarrow> bytes"
    and pop :: "bytes \<Rightarrow> fault + 'w \<times> bytes"
    and width :: nat
  assumes push_appends: "push m w = m @ push [] w"
    and push_width: "length (push [] w) = width"
    and pop_push: "pop (push [] w @ rest) = Inr (w, rest)"
    and pop_short: "length m < width \<Longrightarrow> pop m = Inl Empty_Front"
    and pop_long: "width \<le> length m \<Longrightarrow> \<exists>w. pop m = Inr (w, drop width m) \<and> push [] w = take width m"
begin

lemma pop_fails_iff: "(\<exists>f. pop m = Inl f) \<longleftrightarrow> length m < width"
  using pop_short [of m] pop_long [of m] by (cases "length m < width") auto

lemma pop_iff: "pop m = Inr (w, rest) \<longleftrightarrow> m = push [] w @ rest"
proof
  assume p: "pop m = Inr (w, rest)"
  then have "width \<le> length m"
    using pop_short by (cases "length m < width") auto
  with p show "m = push [] w @ rest"
    using pop_long [of m] by (auto dest: sym)
qed (simp add: pop_push)

lemma push_inj: "push m v = push m w \<longleftrightarrow> v = w"
  using pop_push [of v "[]"] pop_push [of w "[]"] push_appends by (metis Inr_inject append_same_eq prod.inject same_append_eq)

lemma push_all_eq: "push_all push m ws = m @ concat (map (push []) ws)"
proof (induction ws arbitrary: m)
  case (Cons w ws)
  have "push_all push m (w # ws) = (m @ push [] w) @ concat (map (push []) ws)"
    using Cons.IH [of "push m w"] push_appends [of m w] by simp
  then show ?case by simp
qed simp

text \<open>What has been packed is unpacked, one value after the other, and nothing else.\<close>

lemma pop_all_push_all: "pop_all pop (length ws) (push_all push [] ws @ rest) = Inr (ws, rest)"
  by (induction ws) (simp_all add: push_all_eq pop_push)

lemma pop_all_iff: "pop_all pop n m = Inr (ws, rest) \<longleftrightarrow> length ws = n \<and> m = push_all push [] ws @ rest"
proof (induction n arbitrary: m ws)
  case (Suc n)
  show ?case
    by (cases ws) (auto simp: and_then_eq_Inr_iff pop_iff Suc push_all_eq split: prod.splits)
qed (auto simp: push_all_eq)

end

section \<open>Appending\<close>

definition push_back_uint8 :: "bytes \<Rightarrow> u8 \<Rightarrow> bytes" where
  "push_back_uint8 message data = message @ [data]"

definition push_back_uint16 :: "bytes \<Rightarrow> u16 \<Rightarrow> bytes" where
  "push_back_uint16 message data = message @ [ucast (drop_bit 8 data), ucast data]"

definition push_back_uint32 :: "bytes \<Rightarrow> u32 \<Rightarrow> bytes" where
  "push_back_uint32 message data =
     message @ [ucast (drop_bit 24 data), ucast (drop_bit 16 data), ucast (drop_bit 8 data), ucast data]"

definition push_back_array :: "bytes \<Rightarrow> bytes \<Rightarrow> nat \<Rightarrow> bytes" where
  "push_back_array message array n = foldl (\<lambda>m i. m @ [array ! i]) message [0..<n]"

section \<open>Taking from the front\<close>

definition pop_first_uint8 :: "bytes \<Rightarrow> fault + u8 \<times> bytes" where
  "pop_first_uint8 message = (case message of [] \<Rightarrow> Inl Empty_Front | b # bs \<Rightarrow> Inr (b, bs))"

definition pop_first_uint16 :: "bytes \<Rightarrow> fault + u16 \<times> bytes" where
  "pop_first_uint16 message =
     and_then (pop_first_uint8 message) (\<lambda>(b1, m1).
     and_then (pop_first_uint8 m1) (\<lambda>(b0, m2).
     Inr (push_bit 8 (ucast b1) + ucast b0, m2)))"

definition pop_first_uint32 :: "bytes \<Rightarrow> fault + u32 \<times> bytes" where
  "pop_first_uint32 message =
     and_then (pop_first_uint8 message) (\<lambda>(b3, m1).
     and_then (pop_first_uint8 m1) (\<lambda>(b2, m2).
     and_then (pop_first_uint8 m2) (\<lambda>(b1, m3).
     and_then (pop_first_uint8 m3) (\<lambda>(b0, m4).
     Inr (push_bit 8 (push_bit 8 (push_bit 8 (ucast b3) + ucast b2) + ucast b1) + ucast b0, m4)))))"

fun pop_first_array :: "nat \<Rightarrow> bytes \<Rightarrow> fault + bytes \<times> bytes" where
  "pop_first_array 0 message = Inr ([], message)"
| "pop_first_array (Suc n) message =
     and_then (pop_first_uint8 message) (\<lambda>(b, m1).
     and_then (pop_first_array n m1) (\<lambda>(bs, m2). Inr (b # bs, m2)))"

section \<open>The functions implement the interface\<close>

text \<open>Packing puts the high byte first, so what is packed is the word in network order.\<close>

lemma push8_eq: "push_back_uint8 m w = m @ [w]"
  by (simp add: push_back_uint8_def)

lemma push16_eq: "push_back_uint16 m w = m @ mem16 (htons w)"
proof -
  have "[ucast (drop_bit 8 w), ucast w] = [byte_of (Suc 0) w, byte_of 0 w]"
    by (simp add: byte_of_def)
  then show ?thesis
    by (simp add: push_back_uint16_def mem16_def)
qed

lemma push32_eq: "push_back_uint32 m w = m @ mem32 (htonl w)"
proof -
  have "[ucast (drop_bit 24 w), ucast (drop_bit 16 w), ucast (drop_bit 8 w), ucast w] =
      [byte_of 3 w, byte_of 2 w, byte_of (Suc 0) w, byte_of 0 w]"
    by (simp add: byte_of_def)
  then show ?thesis
    by (simp add: push_back_uint32_def mem32_def)
qed

lemma push_array_eq: "n \<le> length array \<Longrightarrow> push_back_array m array n = m @ take n array"
  by (induction n) (simp_all add: push_back_array_def take_Suc_conv_app_nth)

lemmas push_simps = push8_eq push16_eq push32_eq push_array_eq

lemma pop8_Cons [simp]: "pop_first_uint8 (b # bs) = Inr (b, bs)" "pop_first_uint8 [] = Inl Empty_Front"
  by (simp_all add: pop_first_uint8_def)

lemma sum_mk16: "push_bit 8 (ucast b1) + ucast b0 = mk16 b1 b0"
  unfolding mk16_def by (rule disjunctive_add) (auto simp: bit_simps dest: bit_imp_le_length)

lemma sum_mk32:
  "push_bit 8 (push_bit 8 (push_bit 8 (ucast b3) + ucast b2) + ucast b1) + ucast b0 = mk32 b3 b2 b1 b0"
proof -
  have s: "push_bit 8 v + ucast b = push_bit 8 v OR ucast b" for v :: u32 and b :: u8
    by (rule disjunctive_add) (auto simp: bit_simps dest: bit_imp_le_length)
  show ?thesis
    unfolding s by (rule bit_word_eqI) (auto simp: bit_mk32 bit_simps dest: bit_imp_le_length)
qed

lemma pop16_Cons [simp]: "pop_first_uint16 (b1 # b0 # bs) = Inr (mk16 b1 b0, bs)"
  by (simp add: pop_first_uint16_def sum_mk16)

lemma pop32_Cons [simp]: "pop_first_uint32 (b3 # b2 # b1 # b0 # bs) = Inr (mk32 b3 b2 b1 b0, bs)"
  by (simp add: pop_first_uint32_def sum_mk32)

interpretation codec8: codec push_back_uint8 pop_first_uint8 1
proof (unfold_locales, goal_cases)
  case (5 m)
  then show ?case by (cases m) (auto simp: push8_eq)
qed (auto simp: push8_eq pop_first_uint8_def)

lemma list_ge_2: "2 \<le> length m \<Longrightarrow> \<exists>a b r. m = a # b # r"
  by (auto simp: numeral_eq_Suc Suc_le_length_iff)

lemma list_ge_4: "4 \<le> length m \<Longrightarrow> \<exists>a b c d r. m = a # b # c # d # r"
  by (auto simp: numeral_eq_Suc Suc_le_length_iff)

interpretation codec16: codec push_back_uint16 pop_first_uint16 2
proof (unfold_locales, goal_cases)
  case (4 m)
  then show ?case by (auto simp: pop_first_uint16_def pop_first_uint8_def split: list.splits)
next
  case (5 m)
  then show ?case by (auto simp: push16_eq mem16_def dest!: list_ge_2)
qed (simp_all add: push16_eq mem16_def)

interpretation codec32: codec push_back_uint32 pop_first_uint32 4
proof (unfold_locales, goal_cases)
  case (4 m)
  then show ?case by (auto simp: pop_first_uint32_def pop_first_uint8_def split: list.splits)
next
  case (5 m)
  then show ?case by (auto simp: push32_eq mem32_def dest!: list_ge_4)
qed (simp_all add: push32_eq mem32_def)

lemma pop_array_eq:
  "pop_first_array n m = (if n \<le> length m then Inr (take n m, drop n m) else Inl Empty_Front)"
proof (induction n arbitrary: m)
  case (Suc n)
  then show ?case by (cases m) simp_all
qed simp

end
