(* ===== verification/Client_World.thy ===== *)
theory Client_World
  imports Client_Codec Strings Cipher
begin

text \<open>
  The surroundings of the client of \<^verbatim>\<open>client/client_communicate.cpp\<close> and its state. What the C
  library, the file system and the socket give is input: \<open>w_clock\<close> are the values the calls of
  \<^verbatim>\<open>time\<close> to come return, \<open>w_rand\<close> those of \<^verbatim>\<open>rand\<close>, and \<open>w_gen seed\<close> the values of
  \<^verbatim>\<open>rand\<close> after \<^verbatim>\<open>srand(seed)\<close>; \<open>w_files\<close> is the directory the client runs in, \<open>w_aton\<close> the
  number \<^verbatim>\<open>inet_aton\<close> returns; \<open>w_recv\<close> and \<open>w_send\<close> are the results of the calls of \<^verbatim>\<open>recv\<close>
  and \<^verbatim>\<open>send\<close> to come, the latter as functions of the number of bytes offered (\<open>int\<close> is the call that
  takes all of them), and a call that finds its list empty blocks (\<open>Waiting\<close>). \<open>w_sent\<close> are the
  pieces the socket has accepted so far, in order.
\<close>

record world =
  w_clock :: "nat \<Rightarrow> u32"
  w_rand :: "nat \<Rightarrow> nat"
  w_gen :: "u32 \<Rightarrow> nat \<Rightarrow> nat"
  w_files :: "string \<Rightarrow> bytes option"
  w_aton :: u32
  w_recv :: "recv_result list"
  w_send :: "(nat \<Rightarrow> int) list"
  w_sent :: "bytes list"

section \<open>Library calls\<close>

definition call_time :: "world \<Rightarrow> u32 \<times> world" where
  "call_time w = (w_clock w 0, w\<lparr>w_clock := (\<lambda>i. w_clock w (Suc i))\<rparr>)"

definition call_srand :: "u32 \<Rightarrow> world \<Rightarrow> world" where
  "call_srand seed w = w\<lparr>w_rand := w_gen w seed\<rparr>"

definition call_rand :: "world \<Rightarrow> nat \<times> world" where
  "call_rand w = (w_rand w 0, w\<lparr>w_rand := (\<lambda>i. w_rand w (Suc i))\<rparr>)"

text \<open>\<^verbatim>\<open>srand((unsigned)time(nullptr))\<close>\<close>

definition seed_by_time :: "world \<Rightarrow> world" where
  "seed_by_time w = (let (t, w1) = call_time w in call_srand t w1)"

text \<open>\<^verbatim>\<open>rand() % k\<close> for an \<^verbatim>\<open>int\<close> \<open>k\<close>: \<^verbatim>\<open>rand\<close> is not negative, so the sign of \<open>k\<close> is without effect.\<close>

definition rand_mod :: "int \<Rightarrow> world \<Rightarrow> fault + int \<times> world" where
  "rand_mod k w =
     (if k = 0 then Inl Division_By_Zero
      else (let (r, w1) = call_rand w in Inr (int r mod \<bar>k\<bar>, w1)))"

text \<open>The value of an \<^verbatim>\<open>int\<close> expression.\<close>

definition as_int :: "int \<Rightarrow> fault + int" where
  "as_int i = (if - (2 ^ 31) \<le> i \<and> i < 2 ^ 31 then Inr i else Inl Int_Overflow)"

lemma as_int_eq_Inr: "as_int i = Inr j \<longleftrightarrow> - (2 ^ 31) \<le> i \<and> i < 2 ^ 31 \<and> j = i"
  by (auto simp: as_int_def)

lemma rand_mod_eq_Inr:
  "rand_mod k w = Inr (r, w') \<longleftrightarrow> k \<noteq> 0 \<and> r = int (w_rand w 0) mod \<bar>k\<bar> \<and> w' = snd (call_rand w)"
  by (auto simp: rand_mod_def call_rand_def)

section \<open>Shared functions of \<^verbatim>\<open>client/shared_library.cpp\<close>\<close>

definition encrypt_call :: "bytes \<Rightarrow> world \<Rightarrow> u32 \<times> bytes \<times> world" where
  "encrypt_call auth w =
     (let (now, w1) = call_time w;
          (random_num, svr_time, auth') = client_encrypt_auth now (\<lambda>seed. of_nat (w_gen w1 seed 0)) auth;
          (_, w2) = call_rand (call_srand svr_time w1)
      in (random_num, auth', w2))"

fun random_letters :: "nat \<Rightarrow> world \<Rightarrow> bytes \<times> world" where
  "random_letters 0 w = ([], w)"
| "random_letters (Suc n) w =
     (let (r, w1) = call_rand w; (p, w2) = random_letters n w1 in (of_nat (r mod 26 + 65) # p, w2))"

definition create_random_str :: "nat \<Rightarrow> world \<Rightarrow> bytes \<times> world" where
  "create_random_str n w = random_letters n (seed_by_time w)"

text \<open>\<^verbatim>\<open>read_dat\<close>: \<open>None\<close> when the file cannot be opened (the code's -1).\<close>

definition read_dat :: "string \<Rightarrow> nat \<Rightarrow> world \<Rightarrow> bytes option" where
  "read_dat dat_name maxLength w = map_option (take maxLength) (w_files w dat_name)"

lemma random_letters_range:
  "length (fst (random_letters n w)) = n \<and> (\<forall>b \<in> set (fst (random_letters n w)). 65 \<le> b \<and> b \<le> 90)"
proof (induction n arbitrary: w)
  case (Suc n)
  have "(65 :: u8) \<le> of_nat (r mod 26 + 65) \<and> of_nat (r mod 26 + 65) \<le> (90 :: u8)" for r :: nat
  proof -
    have "r mod 26 + 65 < 2 ^ 8" "65 \<le> r mod 26 + 65" "r mod 26 + 65 \<le> 90"
      by simp_all
    then show ?thesis
      by (simp add: word_le_nat_alt unat_of_nat take_bit_nat_eq_self del: of_nat_add)
  qed
  then show ?case
    using Suc by (simp add: case_prod_beta)
qed simp

section \<open>Calls that leave the socket alone\<close>

text \<open>\<open>io w\<close>: what the socket has in store and what it has taken, the files and the generator.\<close>

definition io :: "world \<Rightarrow> recv_result list \<times> (nat \<Rightarrow> int) list \<times> bytes list \<times>
    (string \<Rightarrow> bytes option) \<times> (u32 \<Rightarrow> nat \<Rightarrow> nat)" where
  "io w = (w_recv w, w_send w, w_sent w, w_files w, w_gen w)"

lemma io_calls [simp]:
  "io (snd (call_time w)) = io w" "io (call_srand s w) = io w" "io (snd (call_rand w)) = io w"
  "io (seed_by_time w) = io w" "io (w\<lparr>w_rand := rs\<rparr>) = io w"
  by (simp_all add: io_def call_time_def call_srand_def call_rand_def seed_by_time_def)

lemma io_pair [dest]:
  "call_time w = (t, w') \<Longrightarrow> io w' = io w" "call_rand w = (r, w') \<Longrightarrow> io w' = io w"
  "rand_mod k w = Inr (i, w') \<Longrightarrow> io w' = io w"
  by (auto simp: rand_mod_eq_Inr call_time_def call_rand_def io_def)

lemma io_encrypt_call: "encrypt_call auth w = (r, c, w') \<Longrightarrow> io w' = io w"
  by (fastforce simp: encrypt_call_def dest: io_pair split: prod.splits)

section \<open>The client object\<close>

record ClientDevInfo =
  dev_cpu :: u16
  dev_ram :: u16
  dev_flash :: u16
  dev_devInnerID :: u16
  dev_groupSeq :: bytes
  dev_type :: bytes
  dev_version :: bytes
  dev_instID :: u32
  dev_instInnID :: u8

record TsClient =
  send_message :: bytes
  recv_message :: bytes
  recvPacketType :: u8
  sendPacketType :: u8
  send_array :: bytes
  recv_array :: bytes
  serverMainVersion :: u16
  serverSec1Version :: u8
  serverSec2Version :: u8
  rawServerMainVersion :: u16
  rawServerSec1Version :: u8
  rawServerSec2Version :: u8
  rawFailInterval :: u16
  rawAnotherInterval :: u16
  rawPermitEmptyTerminal :: u8
  rawDumbTerFlags :: u16
  rawIPTerFlags :: u16
  terCount :: u32
  screenCount :: u32
  ts_dev :: ClientDevInfo

definition gene_dev_info :: "int \<Rightarrow> world \<Rightarrow> ClientDevInfo \<times> world" where
  "gene_dev_info devid w =
     (let w1 = seed_by_time w;
          (r1, w2) = call_rand w1; (r2, w3) = call_rand w2;
          (groupSeq, w4) = create_random_str 16 w3;
          (type, w5) = create_random_str 16 w4;
          (version, w6) = create_random_str 16 w5
      in (\<lparr>dev_cpu = 2600, dev_ram = 1846, dev_flash = 3723,
           dev_devInnerID = push_bit 8 (of_nat (r1 mod 256)) + of_nat (r2 mod 256),
           dev_groupSeq = groupSeq, dev_type = type, dev_version = version,
           dev_instID = word_of_int devid, dev_instInnID = 1\<rparr>, w6))"

text \<open>The constructor; the members it leaves alone keep what the memory held (\<open>u\<close>).\<close>

definition new_ts_client :: "TsClient \<Rightarrow> int \<Rightarrow> world \<Rightarrow> TsClient \<times> world" where
  "new_ts_client u devid w =
     (let (d, w1) = gene_dev_info devid w
      in (u\<lparr>send_message := [], recv_message := [], ts_dev := d, terCount := 0, screenCount := 0\<rparr>, w1))"

definition wf_dev :: "ClientDevInfo \<Rightarrow> bool" where
  "wf_dev d \<longleftrightarrow> length (dev_groupSeq d) = 16 \<and> length (dev_type d) = 16 \<and> length (dev_version d) = 16"

lemma wf_new_ts_client: "wf_dev (ts_dev (fst (new_ts_client u devid w)))"
  using random_letters_range
  by (simp add: new_ts_client_def gene_dev_info_def case_prod_beta wf_dev_def create_random_str_def Let_def)

section \<open>Options\<close>

type_synonym Options = "string \<Rightarrow> string option"

definition stoi_at :: "Options \<Rightarrow> string \<Rightarrow> fault + int" where
  "stoi_at opts key = (case opts key of None \<Rightarrow> Inl Missing_Key | Some v \<Rightarrow> stoi v)"

end
