(* ===== verification/Client_Pack.thy ===== *)
theory Client_Pack
  imports Client_World
begin

text \<open>
  \<^verbatim>\<open>Client::client_pack_message\<close> of \<^verbatim>\<open>client/client_communicate.cpp\<close>, one definition per case of its
  \<^verbatim>\<open>switch\<close>. Each appends to the message that begins with 0x91 and the packet type.

  The loop that draws positions until it meets a free one need not end, and is a partial function:
  \<open>None\<close> means that it does not return.
\<close>

section \<open>Fixed texts and option names\<close>

definition padded :: "nat list \<Rightarrow> nat \<Rightarrow> bytes" where
  "padded cs n = map of_nat cs @ replicate (n - length cs) 0"

definition tp1 :: bytes where "tp1 = padded [215, 168, 211, 195, 83, 83, 72] 12"
definition tp2 :: bytes where "tp2 = padded [210, 209, 181, 199, 194, 188] 8"
definition tp3 :: bytes where "tp3 = padded [180, 162, 208, 238, 207, 181, 205, 179] 24"
definition tp4 :: bytes where "tp4 = padded [118, 116, 49, 48, 48] 12"
definition tp5 :: bytes where "tp5 = padded [180, 174, 191, 218, 214, 213, 182, 203] 12"
definition tp6 :: bytes where "tp6 = padded [213, 253, 179, 163] 8"
definition tp7 :: bytes where "tp7 = padded [73, 80, 214, 213, 182, 203] 12"
definition tp8 :: bytes where "tp8 = padded [178, 203, 181, 165] 8"

definition max_terms_key :: string where
  "max_terms_key = gbk [215, 238, 180, 243, 197, 228, 214, 195, 214, 213, 182, 203, 202, 253, 193, 191]"

definition min_terms_key :: string where
  "min_terms_key = gbk [215, 238, 208, 161, 197, 228, 214, 195, 214, 213, 182, 203, 202, 253, 193, 191]"

definition max_screens_key :: string where
  "max_screens_key =
     gbk [195, 191, 184, 246, 214, 213, 182, 203, 215, 238, 180, 243, 208, 233, 198, 193, 202, 253, 193, 191]"

definition min_screens_key :: string where
  "min_screens_key =
     gbk [195, 191, 184, 246, 214, 213, 182, 203, 215, 238, 208, 161, 208, 233, 198, 193, 202, 253, 193, 191]"

section \<open>Version, authentication, system information\<close>

definition pack_version :: "TsClient \<Rightarrow> bytes \<Rightarrow> bytes" where
  "pack_version c m =
     (let m = push_back_uint16 m 12;
          m = push_back_uint16 m 0;
          m = push_back_uint16 m 4;
          m = push_back_uint16 m (serverMainVersion c);
          m = push_back_uint8 m (serverSec1Version c)
      in push_back_uint8 m (serverSec2Version c))"

definition pack_auth_fields :: "ClientDevInfo \<Rightarrow> bytes \<Rightarrow> bytes" where
  "pack_auth_fields dev m =
     (let m = push_back_uint16 m 116;
          m = push_back_uint16 m 0;
          m = push_back_uint16 m 108;
          m = push_back_uint16 m (dev_cpu dev);
          m = push_back_uint16 m (dev_ram dev);
          m = push_back_uint16 m (dev_flash dev);
          m = push_back_uint16 m (dev_devInnerID dev);
          m = push_back_array m (dev_groupSeq dev) 16;
          m = push_back_array m (dev_type dev) 16;
          m = push_back_array m (dev_version dev) 16;
          m = push_all push_back_uint8 m (replicate 8 0);
          m = push_back_uint32 m (dev_instID dev);
          m = push_back_uint8 m (dev_instInnID dev)
      in push_all push_back_uint8 m (replicate 3 0))"

text \<open>
  From byte 8 on the message is encrypted together with the secret string; the encrypted bytes
  replace it. \<open>None\<close> is the case's \<^verbatim>\<open>return false\<close>.
\<close>

definition pack_auth :: "ClientDevInfo \<Rightarrow> bytes \<Rightarrow> world \<Rightarrow> bytes option \<times> world" where
  "pack_auth dev m w =
     (let message = pack_auth_fields dev m; tmp = drop 8 message
      in if length tmp \<noteq> 72 then (None, w)
         else (let (random_num, tpdata, w1) = encrypt_call (tmp @ c_auth) w;
                   message = take 8 message @ take 72 tpdata @ drop 80 message;
                   message = message @ drop 72 tpdata
               in (Some (push_back_uint32 message random_num), w1)))"

definition pack_sysinfo :: "bytes \<Rightarrow> bytes" where
  "pack_sysinfo m =
     (let m = push_back_uint16 m 28;
          m = push_back_uint16 m 0;
          m = push_back_uint16 m 20;
          m = push_back_uint32 m 5797;
          m = push_back_uint32 m 0;
          m = push_back_uint32 m 13013;
          m = push_back_uint32 m 5101426
      in push_back_uint32 m 2696)"

section \<open>Texts from files\<close>

text \<open>
  The ConfInfo, ProcInfo and USBfile cases differ in the file and the number of bytes read at
  most. \<open>None\<close>: the file is missing.
\<close>

definition pack_file :: "string \<Rightarrow> nat \<Rightarrow> bytes \<Rightarrow> world \<Rightarrow> bytes option" where
  "pack_file file_name maxLength m w =
     (case read_dat file_name maxLength w of
       None \<Rightarrow> None
     | Some bs \<Rightarrow>
         (let read_file = bs @ [0]; size = length read_file;
              m = push_back_uint16 m (of_nat (size + 8));
              m = push_back_uint16 m 0;
              m = push_back_uint16 m (of_nat size)
          in Some (push_back_array m read_file size)))"

definition pack_print_queue :: "bytes \<Rightarrow> bytes" where
  "pack_print_queue m =
     (let m = push_back_uint16 m 9;
          m = push_back_uint16 m 0;
          m = push_back_uint16 m 1
      in push_back_uint8 m 0)"

section \<open>The terminal map\<close>

text \<open>The inner loop, entered with the stream of values \<^verbatim>\<open>rand\<close> is going to return.\<close>

partial_function (option) draw_free :: "bytes \<Rightarrow> (nat \<Rightarrow> nat) \<Rightarrow> (nat \<times> (nat \<Rightarrow> nat)) option" where
  "draw_free ttyInfoMap rs =
     (if ttyInfoMap ! (16 + rs 0 mod 254) = 1 then draw_free ttyInfoMap (\<lambda>i. rs (Suc i))
      else Some (rs 0 mod 254, \<lambda>i. rs (Suc i)))"

fun place_terms :: "nat \<Rightarrow> bytes \<Rightarrow> (nat \<Rightarrow> nat) \<Rightarrow> (bytes \<times> (nat \<Rightarrow> nat)) option" where
  "place_terms 0 ttyInfoMap rs = Some (ttyInfoMap, rs)"
| "place_terms (Suc n) ttyInfoMap rs =
     (case draw_free ttyInfoMap rs of
       None \<Rightarrow> None
     | Some (randPos, rs') \<Rightarrow> place_terms n (ttyInfoMap[16 + randPos := 1]) rs')"

text \<open>\<^verbatim>\<open>lo + rand() % (hi - lo + 1)\<close>\<close>

definition rand_between :: "int \<Rightarrow> int \<Rightarrow> world \<Rightarrow> fault + int \<times> world" where
  "rand_between lo hi w =
     and_then (as_int (hi - lo)) (\<lambda>d.
     and_then (as_int (d + 1)) (\<lambda>k.
     and_then (rand_mod k w) (\<lambda>(r, w1).
     and_then (as_int (lo + r)) (\<lambda>n. Inr (n, w1)))))"

definition terminal_total :: "Options \<Rightarrow> world \<Rightarrow> fault + int \<times> world" where
  "terminal_total opts w =
     and_then (stoi_at opts max_terms_key) (\<lambda>maxTNum.
     and_then (stoi_at opts min_terms_key) (\<lambda>minTNum.
     rand_between minTNum maxTNum w))"

definition push_terminals :: "bytes \<Rightarrow> bytes \<Rightarrow> u16 \<Rightarrow> bytes" where
  "push_terminals m ttyInfoMap num =
     (let m = push_back_uint16 m (8 + 16 + 254 + 2);
          m = push_back_uint16 m 0;
          m = push_back_uint16 m (16 + 254 + 2);
          m = push_back_array m ttyInfoMap 270
      in push_back_uint16 m num)"

definition pack_terminals :: "Options \<Rightarrow> TsClient \<Rightarrow> bytes \<Rightarrow> world \<Rightarrow> fault + bytes \<times> TsClient \<times> world" where
  "pack_terminals opts c m w =
     and_then (terminal_total opts w) (\<lambda>(total, w1).
     (let c1 = c\<lparr>terCount := word_of_int (total - 0)\<rparr>; w2 = seed_by_time w1
      in case place_terms (unat (terCount c1)) (replicate 270 0) (w_rand w2) of
           None \<Rightarrow> Inl Endless
         | Some (ttyInfoMap, rs) \<Rightarrow>
             and_then (as_int (270 - total)) (\<lambda>k.
             and_then (rand_mod k (w2\<lparr>w_rand := rs\<rparr>)) (\<lambda>(r, w3).
             and_then (as_int (total + r)) (\<lambda>num.
             Inr (push_terminals m ttyInfoMap (word_of_int num), c1, w3))))))"

section \<open>Terminals and their screens\<close>

definition push_address :: "bytes \<Rightarrow> world \<Rightarrow> bytes" where
  "push_address m w =
     (let ip = (ucast (w_aton w) :: u8);
          m = push_back_uint8 m (drop_bit 24 ip);
          m = push_back_uint8 m (drop_bit 16 ip);
          m = push_back_uint8 m (drop_bit 8 ip)
      in push_back_uint8 m ip)"

fun push_rands :: "u32 list \<Rightarrow> bytes \<Rightarrow> world \<Rightarrow> bytes \<times> world" where
  "push_rands [] m w = (m, w)"
| "push_rands (k # ks) m w =
     (let (r, w1) = call_rand w in push_rands ks (push_back_uint32 m (of_nat r mod k)) w1)"

definition push_back_screen_info :: "bytes \<Rightarrow> u8 \<Rightarrow> TsClient \<Rightarrow> world \<Rightarrow> bytes \<times> world" where
  "push_back_screen_info m screen_num c w =
     (let m = push_back_uint8 m screen_num;
          m = push_back_uint8 m 0;
          m = push_back_uint16 m (ucast (ucast (rawIPTerFlags c) :: u8));
          m = push_address m w;
          m = push_back_array m tp1 12;
          m = push_back_array m tp2 8;
          m = push_back_array m tp3 24;
          m = push_back_array m tp4 12;
          (t, w1) = call_time w;
          m = push_back_uint32 m t
      in push_rands [1000000, 1000000, 1000000, 1000000, 123456, 123456, 123456] m w1)"

fun push_screens :: "u8 list \<Rightarrow> bytes \<Rightarrow> TsClient \<Rightarrow> world \<Rightarrow> bytes \<times> world" where
  "push_screens [] m c w = (m, w)"
| "push_screens (i # is) m c w =
     (let (m1, w1) = push_back_screen_info m i c w in push_screens is m1 c w1)"

text \<open>
  \<^verbatim>\<open>for(uint8_t i = 1; i <= screenNum; i++)\<close>: for 255 screens the condition holds for every value
  of \<^verbatim>\<open>i\<close>, and the loop appends without end.
\<close>

definition screens_loop :: "u8 \<Rightarrow> bytes \<Rightarrow> TsClient \<Rightarrow> world \<Rightarrow> fault + bytes \<times> world" where
  "screens_loop screenNum m c w =
     (if screenNum = 255 then Inl Endless
      else Inr (push_screens (map of_nat [1..<unat screenNum + 1]) m c w))"

text \<open>The number of screens and the active one, which both terminal cases draw first.\<close>

definition draw_screens :: "Options \<Rightarrow> TsClient \<Rightarrow> world \<Rightarrow> fault + u8 \<times> u8 \<times> TsClient \<times> world" where
  "draw_screens opts c w =
     and_then (stoi_at opts max_screens_key) (\<lambda>maxSNum.
     and_then (stoi_at opts min_screens_key) (\<lambda>minSNum.
     and_then (rand_between minSNum maxSNum (seed_by_time w)) (\<lambda>(n, w1).
     (let screenNum = (word_of_int n :: u8);
          c1 = c\<lparr>screenCount := screenCount c + ucast screenNum\<rparr>
      in and_then (rand_mod (uint screenNum) w1) (\<lambda>(a, w2).
         Inr (screenNum, word_of_int a, c1, w2))))))"

definition screens_size :: "u8 \<Rightarrow> u16" where
  "screens_size screenNum = word_of_int (28 + uint screenNum * 96)"

definition pack_dumb :: "Options \<Rightarrow> TsClient \<Rightarrow> bytes \<Rightarrow> world \<Rightarrow> fault + bytes \<times> TsClient \<times> world" where
  "pack_dumb opts c m w =
     and_then (draw_screens opts c w) (\<lambda>(screenNum, activeScreen, c1, w1).
     (let m = push_back_uint16 m (8 + screens_size screenNum);
          (r, w2) = call_rand w1;
          m = push_back_uint16 m (of_nat (1 + r mod 16));
          m = push_back_uint16 m (screens_size screenNum);
          m = push_back_uint8 m (ucast (rawIPTerFlags c1));
          m = push_back_uint8 m (ucast (rawIPTerFlags c1));
          m = push_back_uint8 m activeScreen;
          m = push_back_uint8 m screenNum;
          m = push_back_uint32 m 0;
          m = push_back_array m tp5 12;
          m = push_back_array m tp6 8
      in and_then (screens_loop screenNum m c1 w2) (\<lambda>(m, w3). Inr (m, c1, w3))))"

definition pack_ipterm :: "Options \<Rightarrow> TsClient \<Rightarrow> bytes \<Rightarrow> world \<Rightarrow> fault + bytes \<times> TsClient \<times> world" where
  "pack_ipterm opts c m w =
     and_then (draw_screens opts c w) (\<lambda>(screenNum, activeScreen, c1, w1).
     (let m = push_back_uint16 m (8 + screens_size screenNum);
          m = push_back_uint16 m (rawIPTerFlags c1);
          m = push_back_uint16 m (screens_size screenNum);
          m = push_back_uint8 m (ucast (rawIPTerFlags c1));
          m = push_back_uint8 m (ucast (rawIPTerFlags c1));
          m = push_back_uint8 m activeScreen;
          m = push_back_uint8 m screenNum;
          m = push_address m w1;
          m = push_back_array m tp7 12;
          m = push_back_array m tp8 8
      in and_then (screens_loop screenNum m c1 w1) (\<lambda>(m, w2). Inr (m, c1, w2))))"

definition pack_end :: "bytes \<Rightarrow> bytes" where
  "pack_end m = push_back_uint16 (push_back_uint16 (push_back_uint16 m 8) 0) 0"

section \<open>The whole function\<close>

definition begin_message :: "u8 \<Rightarrow> bytes" where
  "begin_message t = push_back_uint8 (push_back_uint8 [] 0x91) t"

text \<open>
  A missing file makes the code \<^verbatim>\<open>return -1\<close> from a function of type \<^verbatim>\<open>bool\<close>, which is true,
  without having stored a message.
\<close>

definition stored :: "bytes option \<Rightarrow> bool \<Rightarrow> TsClient \<Rightarrow> world \<Rightarrow> fault + bool \<times> TsClient \<times> world" where
  "stored m early c w =
     (case m of None \<Rightarrow> Inr (early, c, w) | Some bs \<Rightarrow> Inr (True, c\<lparr>send_message := bs\<rparr>, w))"

definition client_pack_message :: "u8 \<Rightarrow> Options \<Rightarrow> TsClient \<Rightarrow> world \<Rightarrow> fault + bool \<times> TsClient \<times> world" where
  "client_pack_message t opts c w =
     (let m = begin_message t;
          keep = (\<lambda>(bs, c1, w1). stored (Some bs) True c1 w1)
      in if t = 0x00 then stored (Some (pack_version c m)) True c w
         else if t = 0x01 then (let (bs, w1) = pack_auth (ts_dev c) m w in stored bs False c w1)
         else if t = 0x02 then stored (Some (pack_sysinfo m)) True c w
         else if t = 0x03 then stored (pack_file ''config.dat'' 8191 m w) True c w
         else if t = 0x04 then stored (pack_file ''process.dat'' 8191 m w) True c w
         else if t = 0x0C then stored (pack_file ''usbfile.dat'' 4095 m w) True c w
         else if t = 0x0D then stored (Some (pack_print_queue m)) True c w
         else if t = 0x09 then and_then (pack_terminals opts c m w) keep
         else if t = 0x0A then and_then (pack_dumb opts c m w) keep
         else if t = 0x0B then and_then (pack_ipterm opts c m w) keep
         else if t = 0xFF then stored (Some (pack_end m)) True c w
         else stored (Some m) True c w)"

section \<open>Packing leaves the socket alone\<close>

lemma io_push_rands: "push_rands ks m w = (m', w') \<Longrightarrow> io w' = io w"
  by (induction ks arbitrary: m w) (auto split: prod.splits)

lemma io_screen_info: "push_back_screen_info m n c w = (m', w') \<Longrightarrow> io w' = io w"
  by (auto simp: push_back_screen_info_def Let_def simp del: push_rands.simps split: prod.splits
      dest!: io_push_rands io_pair(1))

lemma io_push_screens: "push_screens is m c w = (m', w') \<Longrightarrow> io w' = io w"
  by (induction "is" arbitrary: m w) (auto split: prod.splits dest: io_screen_info)

lemma io_screens_loop: "screens_loop n m c w = Inr (m', w') \<Longrightarrow> io w' = io w"
  by (auto simp: screens_loop_def dest: io_push_screens split: if_splits)

lemma io_rand_between: "rand_between lo hi w = Inr (n, w') \<Longrightarrow> io w' = io w"
  by (auto simp: rand_between_def and_then_eq_Inr_iff)

lemma io_terminals: "pack_terminals opts c m w = Inr (m', c', w') \<Longrightarrow> io w' = io w"
  by (auto simp: pack_terminals_def terminal_total_def and_then_eq_Inr_iff Let_def
      dest!: io_rand_between io_pair(3) split: option.splits)

lemma io_draw_screens: "draw_screens opts c w = Inr (n, a, c', w') \<Longrightarrow> io w' = io w"
  by (auto simp: draw_screens_def and_then_eq_Inr_iff Let_def dest!: io_rand_between io_pair(3))

lemma io_dumb: "pack_dumb opts c m w = Inr (m', c', w') \<Longrightarrow> io w' = io w"
  by (auto simp: pack_dumb_def and_then_eq_Inr_iff Let_def case_prod_beta
      dest!: io_draw_screens io_screens_loop)

lemma io_ipterm: "pack_ipterm opts c m w = Inr (m', c', w') \<Longrightarrow> io w' = io w"
  by (auto simp: pack_ipterm_def and_then_eq_Inr_iff Let_def dest!: io_draw_screens io_screens_loop)

lemma io_auth: "pack_auth dev m w = (bs, w') \<Longrightarrow> io w' = io w"
  by (auto simp: pack_auth_def Let_def dest: io_encrypt_call split: if_splits prod.splits)

lemma stored_eq_Inr: "stored m early c w = Inr (ok, c', w') \<longleftrightarrow>
    w' = w \<and> (case m of None \<Rightarrow> ok = early \<and> c' = c | Some bs \<Rightarrow> ok \<and> c' = c\<lparr>send_message := bs\<rparr>)"
  by (auto simp: stored_def split: option.splits)

lemma io_pack:
  assumes "client_pack_message t opts c w = Inr (ok, c', w')"
  shows "io w' = io w"
proof (cases "t = 0x09 \<or> t = 0x0A \<or> t = 0x0B")
  case True
  with assms show ?thesis
    by (elim disjE)
      (auto simp: client_pack_message_def and_then_eq_Inr_iff stored_eq_Inr
        dest: io_terminals io_dumb io_ipterm)
next
  case False
  with assms show ?thesis
    by (auto simp: client_pack_message_def stored_eq_Inr Let_def dest: io_auth split: if_splits prod.splits)
qed

end
