(* ===== verification/Client_Session.thy ===== *)
theory Client_Session
  imports Client_Pack
begin

text \<open>
  Receiving, unpacking, sending and the conversation loop of \<^verbatim>\<open>client/client_communicate.cpp\<close>:
  \<^verbatim>\<open>recv_msg\<close>, \<^verbatim>\<open>client_unpack_message\<close>, \<^verbatim>\<open>send_msg\<close>, \<^verbatim>\<open>client_communicate\<close>.

  \<open>send_array\<close> and \<open>recv_array\<close> are the members \<^verbatim>\<open>char send_buffer[4096]\<close> and
  \<^verbatim>\<open>char recv_buffer[4096]\<close>. Access behind their end is undefined behaviour. Log lines and the
  copies made for them are left out.
\<close>

definition buffer_size :: nat where
  "buffer_size = 4096"

section \<open>\<^verbatim>\<open>recv_msg\<close>\<close>

text \<open>One blocking \<^verbatim>\<open>recv\<close>; \<open>None\<close> is the result -1.\<close>

definition call_recv :: "world \<Rightarrow> fault + bytes option \<times> world" where
  "call_recv w =
     (case w_recv w of
       [] \<Rightarrow> Inl Waiting
     | Failed # rs \<Rightarrow> Inr (None, w\<lparr>w_recv := rs\<rparr>)
     | Got bs # rs \<Rightarrow> Inr (Some bs, w\<lparr>w_recv := rs\<rparr>))"

definition data_length :: "bytes \<Rightarrow> nat" where
  "data_length head = unat (ntohs (get16 6 head))"

text \<open>The second part, after a complete head: the data, and the new \<^verbatim>\<open>recv_message\<close>.\<close>

definition recv_data :: "bytes \<Rightarrow> TsClient \<Rightarrow> world \<Rightarrow> fault + bool \<times> TsClient \<times> world" where
  "recv_data head c w =
     (let dataLength = data_length head in
      if dataLength > 0
      then and_then (call_recv w) (\<lambda>(r, w1).
        case r of
          None \<Rightarrow> Inr (False, c, w1)
        | Some bs \<Rightarrow>
            if bs = [] then Inr (False, c, w1)
            else if length bs > buffer_size then Inl Out_Of_Bounds
            else (let c1 = c\<lparr>recv_array := write_front bs (recv_array c)\<rparr> in
              if length bs \<noteq> dataLength then Inr (False, c1, w1)
              else Inr (True, c1\<lparr>recv_message := head @ take dataLength (recv_array c1)\<rparr>, w1)))
      else Inr (True, c\<lparr>recv_message := head\<rparr>, w))"

definition recv_msg :: "TsClient \<Rightarrow> world \<Rightarrow> fault + bool \<times> TsClient \<times> world" where
  "recv_msg c w =
     and_then (call_recv w) (\<lambda>(r, w1).
       case r of
         None \<Rightarrow> Inr (False, c, w1)
       | Some head \<Rightarrow>
           if length head \<noteq> 8 then Inr (False, c, w1)
           else recv_data head (c\<lparr>recvPacketType := head ! 1\<rparr>) w1)"

section \<open>\<^verbatim>\<open>send_msg\<close>\<close>

text \<open>One \<^verbatim>\<open>send\<close> of \<open>bs\<close>: the number it returns; what it has accepted is recorded.\<close>

definition call_send :: "bytes \<Rightarrow> world \<Rightarrow> fault + int \<times> world" where
  "call_send bs w =
     (case w_send w of
       [] \<Rightarrow> Inl Waiting
     | f # fs \<Rightarrow> (let n = f (length bs) in Inr (n, w\<lparr>w_send := fs, w_sent := w_sent w @ [take (nat n) bs]\<rparr>)))"

definition send_data :: "bytes \<Rightarrow> TsClient \<Rightarrow> world \<Rightarrow> fault + bool \<times> TsClient \<times> world" where
  "send_data head c w =
     (if length (send_message c) > buffer_size then Inl Out_Of_Bounds
      else (let c1 = c\<lparr>send_array := write_front (send_message c) (send_array c), send_message := []\<rparr>;
                dataLength = data_length head
            in if dataLength > 0
               then if dataLength > buffer_size then Inl Out_Of_Bounds
                 else and_then (call_send (take dataLength (send_array c1)) w) (\<lambda>(n, w1).
                   Inr (n = int dataLength, c1, w1))
               else Inr (True, c1, w)))"

definition send_msg :: "TsClient \<Rightarrow> world \<Rightarrow> fault + bool \<times> TsClient \<times> world" where
  "send_msg c w =
     (if length (send_message c) < 8 then Inl Out_Of_Bounds
      else (let head = take 8 (send_message c); c1 = c\<lparr>send_message := drop 8 (send_message c)\<rparr>
            in and_then (call_send head w) (\<lambda>(n, w1).
               if n \<noteq> 8 then Inr (False, c1, w1) else send_data head c1 w1)))"

section \<open>\<^verbatim>\<open>client_unpack_message\<close>\<close>

text \<open>The members read from an AuthRequest up to the version.\<close>

definition unpack_version :: "bytes \<Rightarrow> TsClient \<Rightarrow> fault + TsClient \<times> bytes" where
  "unpack_version m c =
     and_then (pop_first_uint16 m) (\<lambda>(total_length, m).
     and_then (pop_first_uint16 m) (\<lambda>(padding16, m).
     and_then (pop_first_uint16 m) (\<lambda>(data_length, m).
     and_then (pop_first_uint16 m) (\<lambda>(v0, m).
     and_then (pop_first_uint8 m) (\<lambda>(v1, m).
     and_then (pop_first_uint8 m) (\<lambda>(v2, m).
     Inr (c\<lparr>rawServerMainVersion := v0, rawServerSec1Version := v1, rawServerSec2Version := v2\<rparr>, m)))))))"

text \<open>The rest of it, with the verdict on the encrypted string.\<close>

definition unpack_auth :: "bytes \<Rightarrow> TsClient \<Rightarrow> fault + bool \<times> TsClient" where
  "unpack_auth m c =
     and_then (pop_first_uint16 m) (\<lambda>(gap_fail, m).
     and_then (pop_first_uint16 m) (\<lambda>(gap, m).
     and_then (pop_first_uint8 m) (\<lambda>(permit, m).
     and_then (pop_first_uint8 m) (\<lambda>(padding8, m).
     and_then (pop_first_uint16 m) (\<lambda>(padding16, m).
     and_then (pop_first_array 32 m) (\<lambda>(server_auth, m).
     and_then (pop_first_uint32 m) (\<lambda>(random_num, m).
     and_then (pop_first_uint32 m) (\<lambda>(svr_time, m).
     Inr (snd (client_decrypt_auth random_num server_auth),
       c\<lparr>rawFailInterval := gap_fail, rawAnotherInterval := gap, rawPermitEmptyTerminal := permit\<rparr>)))))))))"

text \<open>A server that is too old is sent a VersionRequire packet; what becomes of it is not looked at.\<close>

definition refuse_version :: "Options \<Rightarrow> TsClient \<Rightarrow> world \<Rightarrow> fault + bool \<times> TsClient \<times> world" where
  "refuse_version opts c w =
     and_then (client_pack_message 0x00 opts c w) (\<lambda>(_, c1, w1).
     and_then (send_msg c1 w1) (\<lambda>(_, c2, w2). Inr (True, c2, w2)))"

definition unpack_request :: "bytes \<Rightarrow> Options \<Rightarrow> TsClient \<Rightarrow> world \<Rightarrow> fault + bool \<times> TsClient \<times> world" where
  "unpack_request m opts c w =
     (let t = recvPacketType c in
      if t = 0x01
      then and_then (unpack_version m c) (\<lambda>(c1, m1).
        if rawServerMainVersion c1 < 0x02 then refuse_version opts c1 w
        else and_then (unpack_auth m1 c1) (\<lambda>(ok, c2). Inr (ok, c2, w)))
      else if t = 0x0A
      then and_then (pop_first_uint16 m) (\<lambda>(padding, m).
        and_then (pop_first_uint16 m) (\<lambda>(flags, m). Inr (True, c\<lparr>rawDumbTerFlags := flags\<rparr>, w)))
      else if t = 0x0B
      then and_then (pop_first_uint16 m) (\<lambda>(padding, m).
        and_then (pop_first_uint16 m) (\<lambda>(flags, m). Inr (True, c\<lparr>rawIPTerFlags := flags\<rparr>, w)))
      else Inr (t \<in> {0x02, 0x03, 0x04, 0x05, 0x07, 0x0C, 0x08, 0x0D, 0x09, 0xFF}, c, w))"

definition client_unpack_message :: "Options \<Rightarrow> TsClient \<Rightarrow> world \<Rightarrow> fault + bool \<times> TsClient \<times> world" where
  "client_unpack_message opts c w =
     and_then (pop_first_uint8 (recv_message c)) (\<lambda>(front, m).
     if front \<noteq> 0x11 then Inr (False, c, w)
     else and_then (pop_first_uint8 m) (\<lambda>(t, m).
       unpack_request m opts (c\<lparr>recvPacketType := t, sendPacketType := t\<rparr>) w))"

section \<open>\<^verbatim>\<open>client_communicate\<close>\<close>

text \<open>
  A turn of the loop: pack, send, receive, unpack. What packing and unpacking return is not
  looked at. \<open>False\<close> is the loop's \<^verbatim>\<open>return 1\<close>.
\<close>

definition exchange :: "Options \<Rightarrow> TsClient \<Rightarrow> world \<Rightarrow> fault + bool \<times> TsClient \<times> world" where
  "exchange opts c w =
     and_then (client_pack_message (sendPacketType c) opts c w) (\<lambda>(_, c1, w1).
     and_then (send_msg c1 w1) (\<lambda>(ok, c2, w2).
     if \<not> ok then Inr (False, c2, w2)
     else and_then (recv_msg c2 w2) (\<lambda>(ok, c3, w3).
       if \<not> ok then Inr (False, c3, w3)
       else and_then (client_unpack_message opts c3 w3) (\<lambda>(_, c4, w4). Inr (True, c4, w4)))))"

lemma call_recv_uses: "call_recv w = Inr (r, w') \<Longrightarrow> length (w_recv w') < length (w_recv w)"
  by (auto simp: call_recv_def split: list.splits recv_result.splits)

lemma recv_data_uses:
  assumes "recv_data head c w = Inr (ok, c', w')"
  shows "length (w_recv w') \<le> length (w_recv w)"
proof (cases "data_length head > 0")
  case True
  then obtain r where "call_recv w = Inr (r, w')"
    using assms
    by (auto simp: recv_data_def and_then_eq_Inr_iff Let_def split: if_splits option.splits)
  then show ?thesis
    using call_recv_uses by (simp add: less_imp_le)
next
  case False
  then show ?thesis
    using assms by (simp add: recv_data_def)
qed

lemma recv_msg_uses:
  assumes "recv_msg c w = Inr (ok, c', w')"
  shows "length (w_recv w') < length (w_recv w)"
proof -
  obtain r w1 where r: "call_recv w = Inr (r, w1)"
    and rest: "(case r of None \<Rightarrow> Inr (False, c, w1)
       | Some head \<Rightarrow> if length head \<noteq> 8 then Inr (False, c, w1)
           else recv_data head (c\<lparr>recvPacketType := head ! 1\<rparr>) w1) = Inr (ok, c', w')"
    using assms by (auto simp: recv_msg_def and_then_eq_Inr_iff)
  have "length (w_recv w') \<le> length (w_recv w1)"
    using rest recv_data_uses by (auto split: option.splits if_splits)
  then show ?thesis
    using call_recv_uses [OF r] by simp
qed

lemma call_send_recv: "call_send bs w = Inr (n, w') \<Longrightarrow> w_recv w' = w_recv w"
  by (auto simp: call_send_def Let_def split: list.splits)

lemma send_data_recv: "send_data head c w = Inr (ok, c', w') \<Longrightarrow> w_recv w' = w_recv w"
  by (auto simp: send_data_def Let_def and_then_eq_Inr_iff dest: call_send_recv split: if_splits)

lemma send_msg_recv: "send_msg c w = Inr (ok, c', w') \<Longrightarrow> w_recv w' = w_recv w"
  by (auto simp: send_msg_def Let_def and_then_eq_Inr_iff dest!: call_send_recv send_data_recv split: if_splits)

lemma pack_recv: "client_pack_message t opts c w = Inr (ok, c', w') \<Longrightarrow> w_recv w' = w_recv w"
  using io_pack by (fastforce simp: io_def)

lemma unpack_recv:
  assumes "client_unpack_message opts c w = Inr (ok, c', w')"
  shows "w_recv w' = w_recv w"
proof -
  have request: "w_recv w' = w_recv w" if "unpack_request m opts c w = Inr (ok, c', w')" for m c
    using that
    by (auto simp: unpack_request_def refuse_version_def and_then_eq_Inr_iff Let_def
        dest!: pack_recv send_msg_recv split: if_splits)
  show ?thesis
    using assms request by (auto simp: client_unpack_message_def and_then_eq_Inr_iff split: if_splits)
qed

lemma exchange_uses:
  assumes "exchange opts c w = Inr (True, c', w')"
  shows "length (w_recv w') < length (w_recv w)"
proof -
  obtain a c1 w1 c2 w2 c3 w3 b where
    "client_pack_message (sendPacketType c) opts c w = Inr (a, c1, w1)" "send_msg c1 w1 = Inr (True, c2, w2)"
    "recv_msg c2 w2 = Inr (True, c3, w3)" "client_unpack_message opts c3 w3 = Inr (b, c', w')"
    using assms by (auto simp: exchange_def and_then_eq_Inr_iff split: if_splits)
  then show ?thesis
    using pack_recv send_msg_recv recv_msg_uses unpack_recv by metis
qed

text \<open>The loop ends because every turn takes something from the connection, or blocks.\<close>

function communicate_loop :: "Options \<Rightarrow> TsClient \<Rightarrow> world \<Rightarrow> fault + bool \<times> TsClient \<times> world" where
  "communicate_loop opts c w =
     (if recvPacketType c = 0xFF then Inr (True, c, w)
      else (case exchange opts c w of
        Inl f \<Rightarrow> Inl f
      | Inr (ok, c1, w1) \<Rightarrow> if ok then communicate_loop opts c1 w1 else Inr (False, c1, w1)))"
  by pat_completeness auto

termination
  by (relation "measure (\<lambda>(opts, c, w). length (w_recv w))") (auto dest: exchange_uses)

declare communicate_loop.simps [simp del]

text \<open>
  The whole conversation; the result is 0 or 1. A first \<^verbatim>\<open>recv_msg\<close> that fails is not noticed,
  and the message of the constructor, an empty one, is unpacked.
\<close>

definition client_communicate :: "Options \<Rightarrow> TsClient \<Rightarrow> world \<Rightarrow> fault + int \<times> TsClient \<times> world" where
  "client_communicate opts c w =
     and_then (recv_msg c (seed_by_time w)) (\<lambda>(_, c1, w1).
     and_then (client_unpack_message opts c1 w1) (\<lambda>(_, c2, w2).
     and_then (communicate_loop opts c2 w2) (\<lambda>(done, c3, w3).
     if \<not> done then Inr (1, c3, w3)
     else and_then (client_pack_message (sendPacketType c3) opts c3 w3) (\<lambda>(_, c4, w4).
       and_then (send_msg c4 w4) (\<lambda>(ok, c5, w5).
       Inr (if ok then 0 else 1, c5, w5))))))"

section \<open>Undisturbed transmission\<close>

text \<open>A message that arrives in the pieces the client asks for, and one that is taken as a whole.\<close>

definition pieces :: "bytes \<Rightarrow> bytes list" where
  "pieces m = (if length m \<le> 8 then [m] else [take 8 m, drop 8 m])"

definition sound_message :: "bytes \<Rightarrow> bool" where
  "sound_message m \<longleftrightarrow> 8 \<le> length m \<and> length m \<le> 8 + buffer_size \<and> data_length (take 8 m) = length m - 8"

lemma concat_pieces [simp]: "concat (pieces m) = m"
  by (simp add: pieces_def)

lemma recv_msg_pieces:
  assumes "sound_message m" "w_recv w = map Got (pieces m) @ rs"
  shows "\<exists>a. recv_msg c w = Inr (True, c\<lparr>recvPacketType := m ! 1, recv_array := a, recv_message := m\<rparr>,
    w\<lparr>w_recv := rs\<rparr>)"
proof (cases "length m = 8")
  case True
  with assms show ?thesis
    by (intro exI [of _ "recv_array c"])
      (simp add: recv_msg_def recv_data_def call_recv_def pieces_def sound_message_def)
next
  case False
  with assms have "8 < length m" "data_length (take 8 m) = length m - 8" "length m - 8 \<le> buffer_size"
    by (auto simp: sound_message_def)
  with assms(2) show ?thesis
    by (auto simp: recv_msg_def recv_data_def call_recv_def pieces_def Let_def write_front_def)
qed

lemma send_msg_pieces:
  assumes "sound_message (send_message c)" "w_send w = map (\<lambda>_. int) (pieces (send_message c)) @ ns"
  shows "\<exists>a. send_msg c w = Inr (True, c\<lparr>send_message := [], send_array := a\<rparr>,
    w\<lparr>w_send := ns, w_sent := w_sent w @ pieces (send_message c)\<rparr>)"
proof (cases "length (send_message c) = 8")
  case True
  with assms show ?thesis
    by (intro exI [of _ "send_array c"])
      (simp add: send_msg_def send_data_def call_send_def pieces_def sound_message_def Let_def write_front_def)
next
  case False
  with assms have "8 < length (send_message c)" "data_length (take 8 (send_message c)) = length (send_message c) - 8"
    "length (send_message c) - 8 \<le> buffer_size"
    by (auto simp: sound_message_def)
  with assms(2) show ?thesis
    by (intro exI [of _ "write_front (drop 8 (send_message c)) (send_array c)"])
      (simp add: send_msg_def send_data_def call_send_def pieces_def Let_def write_front_def)
qed

end
