(* ===== verification/Handshake.thy ===== *)
theory Handshake
  imports Authentication Client_Session
begin

text \<open>
  The two programs talking to each other: the AuthRequest the server sends is taken apart by the
  client, and the AuthResponse the client packs is what the server admits. \<open>reported dev\<close> is the
  struct the server's headers see in the client's bytes.
\<close>

section \<open>The client's AuthResponse\<close>

definition reported :: "ClientDevInfo \<Rightarrow> AuthResponsePacket" where
  "reported dev =
     \<lparr>ar_pad_1 = [0, 0], ar_payload_size = htons 108, ar_cpu_frequence = htons (dev_cpu dev),
      ar_ram = htons (dev_ram dev), ar_flash = htons (dev_flash dev),
      ar_internal_serial = htons (dev_devInnerID dev), ar_group_serial = dev_groupSeq dev,
      ar_device_type = dev_type dev, ar_software_verison = dev_version dev, ar_ethnum = 0,
      ar_syncnum = 0, ar_asyncnum = 0, ar_switchnum = 0, ar_usbnum = 0, ar_prnnum = 0,
      ar_pad_2 = [0, 0], ar_devid = htonl (dev_instID dev), ar_devno = dev_instInnID dev,
      ar_pad_3 = [0, 0, 0], ar_auth_string = c_auth, ar_random_num = 0\<rparr>"

lemma wf_reported [simp]: "wf_dev d \<Longrightarrow> wf_AuthResponsePacket (reported d)"
  by (simp add: wf_dev_def reported_def wf_AuthResponsePacket_def)

text \<open>The random number of the next encryption, which does not depend on what is encrypted.\<close>

definition next_random :: "world \<Rightarrow> u32" where
  "next_random w = of_nat (w_gen w (NOT (w_clock w 0)) 0)"

definition after_encrypt :: "world \<Rightarrow> world" where
  "after_encrypt w =
     (let w1 = snd (call_time w) in snd (call_rand (call_srand (NOT (w_clock w 0)) w1)))"

lemma encrypt_call_eq:
  "encrypt_call m w = (next_random w, client_crypt (next_random w) m, after_encrypt w)"
  by (simp add: encrypt_call_def client_encrypt_auth_def encrypt_auth_eq client_crypt_def next_random_def
      after_encrypt_def call_time_def case_prod_beta Let_def)

lemma begin_message_eq: "begin_message t = [0x91, t]"
  by (simp add: begin_message_def push_back_uint8_def)

lemma header_mem: "PacketHeader_mem (packet_header 0x91 t n) = [0x91, t] @ mem16 (htons (of_nat (4 + n)))"
  by (simp add: PacketHeader_mem_def packet_header_def)

lemma mem16_0: "mem16 (htons 0) = [0, 0]" "mem16 0 = [0, 0]"
  by (simp_all add: mem16_def) (simp_all add: byte_of_def)

lemma push8_all: "push_all push_back_uint8 m ws = m @ ws"
  by (induction ws arbitrary: m) (simp_all add: push8_eq)

definition core_fields :: "ClientDevInfo \<Rightarrow> bytes" where
  "core_fields dev = mem16 (htons (dev_cpu dev)) @ mem16 (htons (dev_ram dev)) @ mem16 (htons (dev_flash dev)) @
     mem16 (htons (dev_devInnerID dev)) @ dev_groupSeq dev @ dev_type dev @ dev_version dev @
     replicate 8 0 @ mem32 (htonl (dev_instID dev)) @ [dev_instInnID dev] @ replicate 3 0"

lemma core_reported: "auth_core (reported d) = core_fields d @ c_auth"
  by (simp add: auth_core_def reported_def core_fields_def numeral_eq_Suc)

lemma length_core_fields: "wf_dev d \<Longrightarrow> length (core_fields d) = 72"
  by (simp add: core_fields_def wf_dev_def)

lemma pack_auth_fields_eq:
  "wf_dev d \<Longrightarrow> pack_auth_fields d (begin_message 0x01) =
     (PacketHeader_mem (packet_header 0x91 0x01 112) @ [0, 0] @ mem16 (htons 108)) @ core_fields d"
  by (simp add: pack_auth_fields_def Let_def push16_eq push32_eq push_array_eq push8_eq push8_all begin_message_eq
      core_fields_def header_mem wf_dev_def mem16_0)

lemma pack_auth_eq:
  assumes "pack_auth_fields d m = h @ core_fields d" "length h = 8" "wf_dev d"
  shows "pack_auth d m w = (Some (h @ client_crypt (next_random w) (core_fields d @ c_auth) @
      mem32 (htonl (next_random w))), after_encrypt w)"
proof -
  let ?c = "client_crypt (next_random w) (core_fields d @ c_auth)"
  have "length ?c = 104"
    using assms(3) by (simp add: client_crypt_def length_core_fields)
  then show ?thesis
    using assms by (simp add: pack_auth_def Let_def length_core_fields encrypt_call_eq push32_eq)
qed

lemma pack_auth_sealed:
  assumes "wf_dev d"
  shows "pack_auth d (begin_message 0x01) w =
    (Some (PacketHeader_mem (packet_header 0x91 0x01 112) @ sealed (reported d) (htons 108) (next_random w)),
     after_encrypt w)"
proof -
  have "length (PacketHeader_mem (packet_header 0x91 0x01 112) @ [0, 0] @ mem16 (htons 108)) = 8"
    by (simp add: sizeof_defs)
  note eq = pack_auth_eq [OF pack_auth_fields_eq [OF assms] this assms, of w]
  have "ar_pad_1 (reported d) = [0, 0]"
    by (simp add: reported_def)
  with eq show ?thesis
    by (simp add: sealed_def core_reported)
qed

section \<open>The server's AuthRequest\<close>

text \<open>
  An AuthRequest with any contents: the version, the two intervals, the flag, the encrypted string,
  the random number and the time, the last five as they lie in the packet.
\<close>

definition request_bytes :: "u16 \<Rightarrow> u8 \<Rightarrow> u8 \<Rightarrow> u16 \<Rightarrow> u16 \<Rightarrow> u8 \<Rightarrow> bytes \<Rightarrow> u32 \<Rightarrow> u32 \<Rightarrow> bytes" where
  "request_bytes v0 v1 v2 a b p str r t =
     ([0x11, 0x01] @ mem16 (htons 60) @ [0, 0] @ mem16 (htons 52)) @
     mem16 (htons v0) @ [v1, v2] @ mem16 a @ mem16 b @ [p, 0, 0, 0] @ str @ mem32 r @ mem32 t"

lemma auth_request_eq:
  "auth_request e a b =
     request_bytes 3 4 5 a b 1 (server_crypt (env_rnd e (NOT (env_now e))) c_auth)
       (htonl (env_rnd e (NOT (env_now e)))) (htonl (NOT (env_now e)))"
  by (simp add: auth_request_def message_def Let_def server_encrypt_auth_def encrypt_auth_eq request_bytes_def
      PacketHeader_mem_def AuthRequestPacket_mem_def server_crypt_def sizeof_defs kHeaderSize_def)

lemma pop16_mem [simp]: "pop_first_uint16 (mem16 v @ rest) = Inr (htons v, rest)"
  using codec16.pop_push [of "htons v" rest] by (simp add: push16_eq)

lemma pop32_mem [simp]:
  "pop_first_uint32 (mem32 v @ rest) = Inr (htonl v, rest)" "pop_first_uint32 (mem32 v) = Inr (htonl v, [])"
  using codec32.pop_push [of "htonl v" rest] codec32.pop_push [of "htonl v" "[]"] by (simp_all add: push32_eq)

lemma pop_array_append: "length xs = n \<Longrightarrow> pop_first_array n (xs @ rest) = Inr (xs, rest)"
  by (simp add: pop_array_eq)

text \<open>What the members of the client are after it has read the request.\<close>

definition greeted :: "u16 \<Rightarrow> u8 \<Rightarrow> u8 \<Rightarrow> u16 \<Rightarrow> u16 \<Rightarrow> u8 \<Rightarrow> TsClient \<Rightarrow> TsClient" where
  "greeted v0 v1 v2 a b p c = c\<lparr>recvPacketType := 0x01, sendPacketType := 0x01, rawServerMainVersion := v0,
     rawServerSec1Version := v1, rawServerSec2Version := v2, rawFailInterval := ntohs a,
     rawAnotherInterval := ntohs b, rawPermitEmptyTerminal := p\<rparr>"

lemma greeted_fields [simp]:
  "sendPacketType (greeted v0 v1 v2 a b p c) = 0x01" "ts_dev (greeted v0 v1 v2 a b p c) = ts_dev c"
  by (simp_all add: greeted_def)

lemma request_unpacked:
  assumes "recv_message c = request_bytes v0 v1 v2 a b p str r t" "length str = 32" "2 \<le> v0"
  shows "client_unpack_message opts c w =
    Inr (snd (client_decrypt_auth (htonl r) str), greeted v0 v1 v2 a b p c, w)"
proof -
  let ?rest = "mem16 a @ mem16 b @ [p, 0, 0, 0] @ str @ mem32 r @ mem32 t"
  let ?c = "c\<lparr>recvPacketType := 0x01, sendPacketType := 0x01\<rparr>"
  let ?c1 = "?c\<lparr>rawServerMainVersion := v0, rawServerSec1Version := v1, rawServerSec2Version := v2\<rparr>"
  have version: "unpack_version (mem16 (htons 60) @ [0, 0] @ mem16 (htons 52) @ mem16 (htons v0) @ [v1, v2] @ ?rest) ?c
      = Inr (?c1, ?rest)"
    by (simp add: unpack_version_def)
  have auth: "unpack_auth ?rest ?c1 = Inr (snd (client_decrypt_auth (htonl r) str), greeted v0 v1 v2 a b p c)"
    by (simp add: unpack_auth_def pop_array_append [OF assms(2)] greeted_def)
  have v0: "(v0 < 2) = False"
    using assms(3) leD by blast
  show ?thesis
    using version auth by (simp add: client_unpack_message_def assms(1) request_bytes_def unpack_request_def v0)
qed

lemma server_string_accepted: "client_decrypt_auth r (server_crypt r c_auth) = (c_auth, True)"
  using s2c.dec_enc [of c_auth r] auth_tail_append [of "[]" "hd c_auth"] c_auth_Cons by simp

section \<open>The handshake\<close>

lemma sound_message_head:
  assumes "length h = 8" "get16 6 h = htons (of_nat n)" "length body = n" "n \<le> buffer_size"
  shows "sound_message (h @ body)"
proof -
  have "unat (of_nat n :: u16) = n"
    using assms(4) by (intro unat_of_nat16) (simp add: buffer_size_def)
  with assms show ?thesis
    by (simp add: sound_message_def data_length_def)
qed

lemma sound_request: "length str = 32 \<Longrightarrow> sound_message (request_bytes v0 v1 v2 a b p str r t)"
  unfolding request_bytes_def
  by (rule sound_message_head [where n = 52]) (simp_all add: layout_simps buffer_size_def)

lemma sound_auth_response:
  assumes "wf_dev d"
  shows "sound_message (PacketHeader_mem (packet_header 0x91 0x01 112) @ sealed (reported d) (htons 108) r)"
proof -
  have "sealed (reported d) (htons 108) r =
      [0, 0] @ mem16 (htons 108) @ client_crypt r (auth_core (reported d)) @ mem32 (htonl r)"
    by (simp add: sealed_def) (simp add: reported_def)
  moreover have "length (client_crypt r (auth_core (reported d)) @ mem32 (htonl r)) = 108"
    using assms by (simp add: client_crypt_def length_auth_core)
  ultimately show ?thesis
    using sound_message_head [of "[0x91, 0x01] @ mem16 (htons 116) @ [0, 0] @ mem16 (htons 108)" 108
        "client_crypt r (auth_core (reported d)) @ mem32 (htonl r)"]
    by (simp add: header_mem layout_simps buffer_size_def)
qed

lemma cstr_returns: "0 \<in> set bs \<Longrightarrow> \<exists>s. cstr bs = Inr s"
  by (induction bs) (auto simp: and_then_def)

lemma reported_insert:
  assumes "wf_dev d"
  shows "\<exists>cmd. auth_insert (opened (reported d) n r) c = Inr cmd"
proof -
  let ?q = "opened (reported d) n r" and ?m = "AuthResponsePacket_mem (opened (reported d) n r)"
  have eth: "ar_ethnum ?q = 0" and "length (ar_group_serial ?q) = 16" "length (ar_device_type ?q) = 16"
      "length (ar_software_verison ?q) = 16" "length (ar_pad_1 ?q) = 2"
    using assms by (simp_all add: opened_def host_auth_def reported_def wf_dev_def)
  then have "?m ! 60 = 0" "60 < length ?m"
    by (simp_all add: AuthResponsePacket_mem_def nth_append mem16_def eth)
  then have "0 \<in> set (drop k ?m)" if "k \<le> 60" for k
    using that nth_mem [of "60 - k" "drop k ?m"] by simp
  then have "\<exists>s. cstr (drop k ?m) = Inr s" if "k \<le> 60" for k
    using that cstr_returns by blast
  from this [of 12] this [of 28] this [of 44] show ?thesis
    by (auto simp: auth_insert_def)
qed

lemma response_admitted:
  assumes "wf_dev d" "state s = WaitAuth" "cq_inv (recv_buffer s)" "ready 4 db"
    and "cq_list (recv_buffer s) = PacketHeader_mem (packet_header 0x91 0x01 112) @ sealed (reported d) (htons 108) r @ rest"
  shows "\<exists>s' db'. fsm e s db = Inr (True, s', db') \<and> state s' = WaitSysInfo \<and>
    send_buffer s' = send_buffer s @ [plain_request 0x02] \<and> cq_list (recv_buffer s') = rest \<and>
    devid s' = num32 (dev_instID d) \<and> devno s' = num8 (dev_instInnID d) \<and> ethnum s' = 0 \<and>
    (\<exists>cmds. length cmds = 4 \<and> db' = answered cmds db)"
proof -
  let ?p = "reported d"
  have wf: "wf_AuthResponsePacket ?p"
    using assms(1) by simp
  have holds: "holds_packet s 0x91 0x01 (sealed ?p (htons 108) r) [] rest"
    using assms wf by (simp add: holds_packet_def framed_def struct_size_def sizeof_defs)
  have secret: "drop 1 (ar_auth_string ?p) = drop 1 c_auth"
    by (simp add: reported_def)
  obtain cmd where cmd: "auth_insert (opened ?p (htons 108) r) (s\<lparr>ether_last := ar_ethnum ?p\<rparr>) = Inr cmd"
    using reported_insert [OF assms(1)] by blast
  obtain s1 where s1: "consumed s rest s1" "fsm e s db = Inr (True,
      (auth_fields (opened ?p (htons 108) r) (s1\<lparr>ether_last := ar_ethnum ?p\<rparr>))
        \<lparr>send_buffer := send_buffer s @ [plain_request 0x02], state := WaitSysInfo\<rparr>,
      answered (auth_commands cmd) db)"
    using wait_auth_admits [OF assms(2) holds wf secret cmd assms(4), of e] by blast
  then show ?thesis
    by (simp add: auth_fields_def consumed_def)
      (auto simp: opened_def host_auth_def reported_def auth_commands_def intro: exI [of _ "auth_commands cmd"])
qed

lemma pack_response:
  assumes "wf_dev (ts_dev c)"
  shows "client_pack_message 0x01 opts c w = Inr (True, c\<lparr>send_message :=
    PacketHeader_mem (packet_header 0x91 0x01 112) @ sealed (reported (ts_dev c)) (htons 108) (next_random w)\<rparr>,
    after_encrypt w)"
  using pack_auth_sealed [OF assms, of w] by (simp add: client_pack_message_def Let_def stored_def)

text \<open>
  \<open>turn\<close>: what \<^verbatim>\<open>client_communicate\<close> does from the request it receives to the answer it has sent, the end of
  one turn of its loop and the beginning of the next. As there, the verdicts of unpacking and
  packing have no effect; they are only handed out, so that theorems can speak of them. How
  \<^verbatim>\<open>client_communicate\<close> is made of such turns is the lemma \<open>turns_communicate\<close> of \<^verbatim>\<open>Client_Turns\<close>.
\<close>

definition turn :: "Options \<Rightarrow> TsClient \<Rightarrow> world \<Rightarrow> fault + bool \<times> TsClient \<times> world" where
  "turn opts c w =
     and_then (recv_msg c w) (\<lambda>(received, c1, w1).
     and_then (client_unpack_message opts c1 w1) (\<lambda>(accepted, c2, w2).
     and_then (client_pack_message (sendPacketType c2) opts c2 w2) (\<lambda>(packed, c3, w3).
     and_then (send_msg c3 w3) (\<lambda>(sent, c4, w4).
     Inr (received \<and> accepted \<and> packed \<and> sent, c4, w4)))))"

lemma pieces_two: "8 < length m \<Longrightarrow> map (\<lambda>_. f) (pieces m) = [f, f]"
  by (simp add: pieces_def)

lemma io_after_encrypt: "io (after_encrypt w) = io w"
  by (simp add: after_encrypt_def Let_def)

lemma turn_response:
  fixes r t :: u32
  assumes "wf_dev (ts_dev c)" "length str = 32" "2 \<le> v0"
    and "w_recv w = map Got (pieces (request_bytes v0 v1 v2 a b p str r t)) @ rs" "w_send w = [int, int] @ ns"
  shows "\<exists>c' w' n. turn opts c w = Inr (snd (client_decrypt_auth (htonl r) str), c', w') \<and> w_recv w' = rs \<and>
    w_send w' = ns \<and> concat (w_sent w') = concat (w_sent w) @
      PacketHeader_mem (packet_header 0x91 0x01 112) @ sealed (reported (ts_dev c)) (htons 108) n"
proof -
  let ?m = "request_bytes v0 v1 v2 a b p str r t" and ?w1 = "w\<lparr>w_recv := rs\<rparr>"
  obtain ra where recv: "recv_msg c w =
      Inr (True, c\<lparr>recvPacketType := ?m ! 1, recv_array := ra, recv_message := ?m\<rparr>, ?w1)"
    using recv_msg_pieces [OF sound_request [OF assms(2)] assms(4)] by blast
  let ?c1 = "c\<lparr>recvPacketType := ?m ! 1, recv_array := ra, recv_message := ?m\<rparr>"
  let ?c2 = "greeted v0 v1 v2 a b p ?c1"
  have unpack: "client_unpack_message opts ?c1 ?w1 = Inr (snd (client_decrypt_auth (htonl r) str), ?c2, ?w1)"
    using assms(2,3) by (intro request_unpacked) simp_all
  let ?bs = "PacketHeader_mem (packet_header 0x91 0x01 112) @ sealed (reported (ts_dev c)) (htons 108) (next_random ?w1)"
  let ?c3 = "?c2\<lparr>send_message := ?bs\<rparr>" and ?w3 = "after_encrypt ?w1"
  have pack: "client_pack_message 0x01 opts ?c2 ?w1 = Inr (True, ?c3, ?w3)"
    using pack_response [of ?c2 opts ?w1] assms(1) by simp
  have len: "length ?bs = 116"
    using assms(1) by (simp add: sizeof_defs)
  have io3: "w_send ?w3 = [int, int] @ ns" "w_recv ?w3 = rs" "w_sent ?w3 = w_sent w"
    using io_after_encrypt [of ?w1] assms(5) by (simp_all add: io_def)
  have sm: "sound_message (send_message ?c3)"
    using sound_auth_response [OF assms(1)] by simp
  have ws: "w_send ?w3 = map (\<lambda>_. int) (pieces (send_message ?c3)) @ ns"
  proof -
    have "8 < length ?bs" "send_message ?c3 = ?bs"
      unfolding len by simp_all
    then show ?thesis
      using io3(1) pieces_two [of ?bs int] by (simp only:)
  qed
  obtain sa where "send_msg ?c3 ?w3 = Inr (True, ?c3\<lparr>send_message := [], send_array := sa\<rparr>,
      ?w3\<lparr>w_send := ns, w_sent := w_sent ?w3 @ pieces ?bs\<rparr>)"
    using send_msg_pieces [OF sm ws] by auto
  then show ?thesis
    using recv unpack pack io3 by (auto simp: turn_def)
qed

lemma turn_greeting:
  assumes "wf_dev (ts_dev c)" "w_recv w = map Got (pieces (auth_request e a b)) @ rs" "w_send w = [int, int] @ ns"
  shows "\<exists>c' w' n. turn opts c w = Inr (True, c', w') \<and> w_recv w' = rs \<and> w_send w' = ns \<and>
    concat (w_sent w') = concat (w_sent w) @
      PacketHeader_mem (packet_header 0x91 0x01 112) @ sealed (reported (ts_dev c)) (htons 108) n"
  using turn_response [OF assms(1) _ _ assms(2) [unfolded auth_request_eq] assms(3)]
  by (simp add: server_crypt_def server_string_accepted [unfolded server_crypt_def] word_le_nat_alt)

text \<open>
  \<open>admitted_as d bs\<close>: every server session that waits for authentication and finds \<open>bs\<close> at the
  head of its buffer lets the client in under the numbers of the device \<open>d\<close>, asks it for its system
  information, and leaves what was received after \<open>bs\<close> where it is.
\<close>

definition admitted_as :: "ClientDevInfo \<Rightarrow> bytes \<Rightarrow> bool" where
  "admitted_as d bs \<longleftrightarrow>
     (\<forall>s e db rest. state s = WaitAuth \<and> cq_inv (recv_buffer s) \<and> cq_list (recv_buffer s) = bs @ rest \<and>
        ready 4 db \<longrightarrow>
      (\<exists>s' db'. fsm e s db = Inr (True, s', db') \<and> state s' = WaitSysInfo \<and>
        send_buffer s' = send_buffer s @ [plain_request 0x02] \<and> cq_list (recv_buffer s') = rest \<and>
        devid s' = num32 (dev_instID d) \<and> devno s' = num8 (dev_instInnID d) \<and> ethnum s' = 0))"

lemma sealed_admitted:
  "wf_dev d \<Longrightarrow> admitted_as d (PacketHeader_mem (packet_header 0x91 0x01 112) @ sealed (reported d) (htons 108) r)"
proof -
  assume "wf_dev d"
  from response_admitted [OF this] show ?thesis
    unfolding admitted_as_def append_assoc by meson
qed

text \<open>
  C2: the two programs get through the authentication with each other. Whatever
  clocks, generators, options and device there are, the client that receives the server's
  AuthRequest accepts it and sends an answer, and a server session in state WaitAuth whose buffer
  holds the sent bytes, and whose database accepts four commands, admits the client under the device number of the
  client's own record, asks for the system information and leaves what was received after the answer where it is.
\<close>

theorem handshake_completes:
  assumes "wf_dev (ts_dev c)" "w_recv w = map Got (pieces (auth_request e a b)) @ rs" "w_send w = [int, int] @ ns"
  shows "\<exists>c' w' bs. turn opts c w = Inr (True, c', w') \<and> concat (w_sent w') = concat (w_sent w) @ bs \<and>
    admitted_as (ts_dev c) bs"
proof -
  obtain c' w' r where t: "turn opts c w = Inr (True, c', w')" "concat (w_sent w') = concat (w_sent w) @
      PacketHeader_mem (packet_header 0x91 0x01 112) @ sealed (reported (ts_dev c)) (htons 108) r"
    using turn_greeting [OF assms] by blast
  then show ?thesis
    using sealed_admitted [OF assms(1)] by blast
qed

definition sample_world :: world where
  "sample_world = \<lparr>w_clock = (\<lambda>i. of_nat i), w_rand = (\<lambda>i. i), w_gen = (\<lambda>s i. unat s + i),
     w_files = (\<lambda>_. None), w_aton = 1, w_recv = map Got (pieces (auth_request sample_env 20 60)),
     w_send = [int, int], w_sent = []\<rparr>"

definition sample_ts :: TsClient where
  "sample_ts = fst (new_ts_client
     \<lparr>send_message = [], recv_message = [], recvPacketType = 0, sendPacketType = 0,
      send_array = replicate 4096 0, recv_array = replicate 4096 0, serverMainVersion = 2,
      serverSec1Version = 0, serverSec2Version = 0, rawServerMainVersion = 0,
      rawServerSec1Version = 0, rawServerSec2Version = 0, rawFailInterval = 0,
      rawAnotherInterval = 0, rawPermitEmptyTerminal = 0, rawDumbTerFlags = 0, rawIPTerFlags = 0,
      terCount = 0, screenCount = 0,
      ts_dev = \<lparr>dev_cpu = 0, dev_ram = 0, dev_flash = 0, dev_devInnerID = 0, dev_groupSeq = [],
        dev_type = [], dev_version = [], dev_instID = 0, dev_instInnID = 0\<rparr>\<rparr> 1551713 sample_world)"

lemma wf_sample_ts: "wf_dev (ts_dev sample_ts)"
  unfolding sample_ts_def by (rule wf_new_ts_client)

theorem handshake_completes_witness:
  "\<exists>c' w' s' db'. turn (\<lambda>_. None) sample_ts sample_world = Inr (True, c', w') \<and>
     fsm sample_env (sample_client WaitAuth (concat (w_sent w'))) (sample_db 4) = Inr (True, s', db') \<and>
     state s' = WaitSysInfo \<and> devid s' = num32 1551713"
proof -
  have w: "w_recv sample_world = map Got (pieces (auth_request sample_env 20 60)) @ []"
      "w_send sample_world = [int, int] @ []" "w_sent sample_world = []"
    by (simp_all add: sample_world_def)
  obtain c' w' bs where t: "turn (\<lambda>_. None) sample_ts sample_world = Inr (True, c', w')"
      "concat (w_sent w') = concat (w_sent sample_world) @ bs" "admitted_as (ts_dev sample_ts) bs"
    using handshake_completes [OF wf_sample_ts w(1,2), of "\<lambda>_. None"] by blast
  obtain r where "concat (w_sent w') = concat (w_sent sample_world) @
      PacketHeader_mem (packet_header 0x91 0x01 112) @ sealed (reported (ts_dev sample_ts)) (htons 108) r"
    using turn_greeting [OF wf_sample_ts w(1,2), of "\<lambda>_. None"] t(1) by auto
  then have "length bs = 116"
    using t(2) wf_sample_ts by (simp add: sizeof_defs)
  then have b: "length bs \<le> kRecvBufferSize"
    by (simp add: kRecvBufferSize_def kMaxPacketLength_def)
  have "\<exists>s' db'. fsm sample_env (sample_client WaitAuth bs) (sample_db 4) = Inr (True, s', db') \<and>
      state s' = WaitSysInfo \<and> devid s' = num32 (dev_instID (ts_dev sample_ts))"
    using t(3) [unfolded admitted_as_def, rule_format, of "sample_client WaitAuth bs" "[]" "sample_db 4" sample_env]
      sample_client_buffer [OF b, of WaitAuth] by auto
  moreover have "dev_instID (ts_dev sample_ts) = 1551713"
    by (simp add: sample_ts_def new_ts_client_def gene_dev_info_def case_prod_beta Let_def)
  ultimately show ?thesis
    using t w(3) by auto
qed

section \<open>The client's device in the database\<close>

lemma device_letters:
  "0 \<notin> set (dev_groupSeq (ts_dev (fst (new_ts_client u n w)))) \<union> set (dev_type (ts_dev (fst (new_ts_client u n w)))) \<union>
     set (dev_version (ts_dev (fst (new_ts_client u n w))))"
proof -
  have "0 \<notin> set (fst (create_random_str 16 w'))" for w'
    using random_letters_range [of 16 "seed_by_time w'"] by (auto simp: create_random_str_def)
  then show ?thesis
    by (simp add: new_ts_client_def gene_dev_info_def case_prod_beta Let_def)
qed

text \<open>Skipping what stands before the piece of text looked for.\<close>

lemma text_inside:
  "\<exists>before after. (Inr ys :: fault + string) = Inr (before @ f after) \<Longrightarrow>
   \<exists>before after. (Inr (xs @ ys) :: fault + string) = Inr (before @ f after)"
  by (metis Inr_inject append_assoc)

text \<open>
  The strings of the client's device fill their 16 bytes without a NUL, so
  the server, which prints them as C strings, enters serial, type and version run together: the
  serial number is followed by the type and the version, the type by the version.
\<close>

theorem serial_runs_together:
  "let d = ts_dev (fst (new_ts_client u k w)) in
     \<exists>before after. auth_insert (opened (reported d) n r) c = Inr (before @
       sq (chars_of (dev_groupSeq d @ dev_type d @ dev_version d) @ num16 (dev_devInnerID d)) @ '', '' @
       sq (chars_of (dev_type d @ dev_version d)) @ '', '' @ sq (chars_of (dev_version d)) @ after)"
proof -
  define d where "d = ts_dev (fst (new_ts_client u k w))"
  let ?q = "opened (reported d) n r"
  let ?m = "AuthResponsePacket_mem ?q"
  have wf: "wf_dev d" and nul: "0 \<notin> set (dev_groupSeq d)" "0 \<notin> set (dev_type d)" "0 \<notin> set (dev_version d)"
    using device_letters [of u k w] by (simp_all add: d_def wf_new_ts_client)
  let ?pre = "[0, 0] @ mem16 (ntohs n) @ mem16 (dev_cpu d) @ mem16 (dev_ram d) @ mem16 (dev_flash d) @
    mem16 (dev_devInnerID d)"
  obtain ys where m: "?m = ?pre @ dev_groupSeq d @ dev_type d @ dev_version d @ 0 # ys"
    by (simp add: AuthResponsePacket_mem_def opened_def host_auth_def reported_def)
  have "drop 12 ?m = (dev_groupSeq d @ dev_type d @ dev_version d) @ 0 # ys"
    "drop 28 ?m = (dev_type d @ dev_version d) @ 0 # ys" "drop 44 ?m = dev_version d @ 0 # ys"
    using wf unfolding m by (simp_all add: wf_dev_def)
  then have "cstr (drop 12 ?m) = Inr (chars_of (dev_groupSeq d @ dev_type d @ dev_version d))"
    "cstr (drop 28 ?m) = Inr (chars_of (dev_type d @ dev_version d))"
    "cstr (drop 44 ?m) = Inr (chars_of (dev_version d))"
    using nul by (simp_all add: cstr_append cstr_append_nul chars_of_def)
  moreover have "ar_internal_serial ?q = dev_devInnerID d"
    by (simp add: opened_def host_auth_def reported_def)
  ultimately show ?thesis
    unfolding d_def [symmetric] Let_def auth_insert_def
    by (simp only: and_then_Inr append_assoc)
      (rule text_inside, rule text_inside, rule text_inside, rule text_inside, rule text_inside, rule text_inside, rule text_inside, rule text_inside, rule text_inside, rule text_inside, rule exI [of _ "[]"], rule exI, simp)
qed

end
