(* ===== verification/Session_Runs.thy ===== *)
theory Session_Runs
  imports Authentication
begin

text \<open>
  Whole sessions: the runs of the state machine from a fresh client record, interleaved with the
  arrival and departure of bytes and with what other sessions do to the database. What holds in
  every state of every run: the bookkeeping of terminals and screens, and that nothing past
  authentication is reached without a packet that decrypted to the secret.
\<close>

section \<open>Terminals and screens\<close>

text \<open>The members that count terminals and screens.\<close>

definition counts :: "Client \<Rightarrow> bool \<times> int \<times> int \<times> int \<times> int" where
  "counts c = (is_scr c, tty_cnt c, tty_connected c, scr_num c, scr_packet_size c)"

text \<open>
  \<^verbatim>\<open>is_scr\<close> is set exactly while screens are awaited, the counter of terminals is 0 until the
  first terminal can arrive, the session ends only when it has reached the announced number, and
  the screens awaited are at most 255 and at least one.
\<close>

definition tally :: "Client \<Rightarrow> bool" where
  "tally c \<longleftrightarrow>
     (is_scr c \<longleftrightarrow> state c = WaitScrInfo) \<and> 0 \<le> tty_cnt c \<and>
     (state c < WaitIPTermInfo \<longrightarrow> tty_cnt c = 0) \<and>
     (state c = Ended \<longrightarrow> tty_cnt c = tty_connected c) \<and>
     (state c = WaitScrInfo \<longrightarrow> 1 \<le> scr_num c \<and> scr_num c \<le> 255 \<and>
        scr_packet_size c = scr_num c * int sizeof_ScreenInfoPacket)"

lemma tally_counts:
  "counts c' = counts c \<Longrightarrow> state c' = state c \<or> state c < WaitTermInfo \<and> state c' < WaitIPTermInfo \<Longrightarrow>
     tally c \<Longrightarrow> tally c'"
  by (auto simp: tally_def counts_def state_order)

lemma counts_push [simp]: "counts (push_message m c) = counts c"
  by (simp add: counts_def push_message_def)

lemma counts_recv_buffer [simp]: "counts (c\<lparr>recv_buffer := q\<rparr>) = counts c"
  by (simp add: counts_def)

text \<open>Up to WaitEtheInfo the state machine leaves them alone.\<close>

lemma receive_counts:
  assumes "receive e ts c db k = Inr (ok, c', db')"
    and "\<And>p c1. counts c1 = counts c \<Longrightarrow> k p c1 = Inr (ok, c', db') \<Longrightarrow> counts c' = counts c"
  shows "counts c' = counts c"
  using assms(1)
proof (rule receive_eq_Inr)
  fix p c1
  assume "take_packet (env_junk e 0) False c = Inr (p, c1)"
  then have "counts c1 = counts c"
    using frame_take counts_recv_buffer by metis
  then show "\<not> ok \<and> c' = c1 \<and> db' = db \<or> hd_direction (pk_header p) = 0x91 \<and>
      hd_packet_type (pk_header p) \<in> set ts \<and> k p c1 = Inr (ok, c', db') \<Longrightarrow> ?thesis"
    using assms(2) by auto
qed

lemma admit_counts:
  assumes "admit a p c db = Inr (ok, c', db')"
  shows "counts c' = counts c"
proof -
  obtain p' q c2 where h: "OnRecvAuthResponse p' (c\<lparr>ether_last := q\<rparr>) db = Inr (ok, c2, db')"
      "c' = (if ok then (push_message (plain_request 0x02) c2)\<lparr>state := WaitSysInfo\<rparr> else c2)"
    using assms by (auto simp: admit_def and_then_eq_Inr_iff split: if_splits)
  then show ?thesis
    using OnRecvAuthResponse_spec [OF h(1)] by (auto simp: counts_def push_message_def auth_fields_def)
qed

lemma check_auth_counts: "check_auth p bs c db = Inr (ok, c', db') \<Longrightarrow> counts c' = counts c"
  by (auto simp: check_auth_def dest: admit_counts split: prod.splits if_splits)

lemma got_auth_counts: "got_auth db p c = Inr (ok, c', db') \<Longrightarrow> counts c' = counts c"
  by (auto simp: got_auth_def and_then_eq_Inr_iff Let_def dest: check_auth_counts split: if_splits)

lemma got_early_counts:
  "got_sysinfo db p c = Inr (ok, c', db') \<Longrightarrow> counts c' = counts c"
  "got_config db p c = Inr (ok, c', db') \<Longrightarrow> counts c' = counts c"
  "got_proc db p c = Inr (ok, c', db') \<Longrightarrow> counts c' = counts c"
  "got_ether db p c = Inr (ok, c', db') \<Longrightarrow> counts c' = counts c"
  "got_end db p c = Inr (ok, c', db') \<Longrightarrow> counts c' = counts c"
  by (auto simp: got_sysinfo_def got_config_def got_proc_def got_ether_def got_end_def ask_ethers_def
      and_then_eq_Inr_iff Let_def counts_def push_message_def split: if_splits)

lemma fsm_counts:
  assumes "fsm e c db = Inr (ok, c', db')" "state c \<notin> {WaitTermInfo, WaitIPTermInfo, WaitScrInfo}"
  shows "counts c' = counts c"
proof (cases "state c")
  case Acceptance
  with assms show ?thesis
    by (auto simp: fsm_def on_acceptance_def and_then_eq_Inr_iff counts_def push_message_def)
qed (use assms in \<open>auto simp: fsm_def on_wait_auth_def on_wait_sysinfo_def on_wait_config_def
      on_wait_proc_def on_wait_ether_def on_end_def
      dest!: receive_counts dest: got_auth_counts got_early_counts\<close>)

lemma tally_take:
  "take_packet junk scr c = Inr (p, c1) \<Longrightarrow> tally c \<Longrightarrow> tally c1 \<and> state c1 = state c"
  using frame_take [of junk scr c p c1] tally_counts [of c1 c] counts_recv_buffer by metis

lemma got_term_tally:
  assumes "got_term e db p c = Inr (ok, c', db')" "state c = WaitTermInfo" "tally c"
  shows "tally c'"
  using assms
  by (auto simp: got_term_def and_then_eq_Inr_iff Let_def tally_def state_order
      dest!: OnRecvTermResponse_spec split: if_splits)

lemma screen_num_range:
  fixes n :: u8
  shows "uint n \<le> 255" "n \<noteq> 0 \<Longrightarrow> 1 \<le> uint n"
proof -
  have n: "uint n = int (unat n)" by simp
  have "unat n < 256"
    using unat_8_lt [of n] by simp
  then show "uint n \<le> 255"
    unfolding n by linarith
  show "1 \<le> uint n" if "n \<noteq> 0"
  proof -
    have "unat n \<noteq> 0"
      using that by (simp only: unat_eq_zero) simp
    then show ?thesis
      unfolding n by linarith
  qed
qed

lemma after_terminal_tally:
  assumes "state c = WaitIPTermInfo" "\<not> is_scr c" "0 \<le> tty_cnt c" "scr_num c = uint (ir_screen_num a)"
  shows "tally (after_terminal a p c)"
proof (cases "ir_screen_num a = 0")
  case True
  with assms show ?thesis
    by (simp add: after_terminal_def finish_session_def push_message_def tally_def state_order)
next
  case False
  with assms show ?thesis
    using screen_num_range [of "ir_screen_num a"]
    by (simp add: after_terminal_def tally_def state_order)
qed

lemma got_ipterm_tally:
  assumes "got_ipterm db p c = Inr (ok, c', db')" "state c = WaitIPTermInfo" "tally c"
  shows "tally c'"
  using assms(1)
proof (rule got_ipterm_eq_Inr)
  fix a p' c2
  assume h: "OnRecvIPTermResponse p' c db = Inr (ok, c2, db')"
    and c': "c' = (if ok then after_terminal a p' (c2\<lparr>tty_cnt := tty_cnt c2 + 1, scr_num := uint (ir_screen_num a)\<rparr>)
      else c2)"
  obtain tty scr where c2: "c2 = c\<lparr>current_tty := tty, current_scr := scr\<rparr>"
    using OnRecvIPTermResponse_spec [OF h] by blast
  have "tally c2"
    using assms(2,3) by (simp add: c2 tally_def)
  moreover have "tally (after_terminal a p' (c2\<lparr>tty_cnt := tty_cnt c2 + 1, scr_num := uint (ir_screen_num a)\<rparr>))"
    using assms(2,3) by (intro after_terminal_tally) (simp_all add: c2 tally_def)
  ultimately show ?thesis
    by (simp add: c')
qed

lemma wait_screens_tally:
  assumes "on_wait_screens e c db = Inr (ok, c', db')" "state c = WaitScrInfo" "tally c"
  shows "tally c'"
proof -
  obtain c1 where loop: "screen_loop e 0 (nat (scr_num c)) c db = Inr (ok, c1, db')"
    and c': "c' = (if \<not> ok then c1
      else if tty_cnt c1 = tty_connected c1 then finish_session (c1\<lparr>is_scr := False\<rparr>)
      else c1\<lparr>is_scr := False, state := WaitIPTermInfo\<rparr>)"
    using assms(1) by (auto simp: on_wait_screens_def and_then_eq_Inr_iff Let_def split: if_splits)
  have "\<exists>q. c1 = c\<lparr>recv_buffer := q\<rparr>"
    using screen_loop_reads [OF loop] by (simp add: screens_read_def)
  then show ?thesis
    using c' assms(2,3) by (auto simp: finish_session_def push_message_def tally_def state_order)
qed

lemma receive_tally:
  assumes "receive e ts c db k = Inr (ok, c', db')" "tally c"
    and "\<And>p c1. tally c1 \<Longrightarrow> state c1 = state c \<Longrightarrow> k p c1 = Inr (ok, c', db') \<Longrightarrow> tally c'"
  shows "tally c'"
  using assms(1)
  by (rule receive_eq_Inr) (use tally_take assms(2,3) in blast)

lemma fsm_tally:
  assumes "fsm e c db = Inr (ok, c', db')" "tally c"
  shows "tally c'"
proof (cases "state c \<in> {WaitTermInfo, WaitIPTermInfo, WaitScrInfo}")
  case False
  have "state c' = state c \<or> state c' \<in> set (next_states (state c))"
    using fsm_sound [OF assms(1)] by (auto simp: sound_def split: if_splits)
  then show ?thesis
    using fsm_counts [OF assms(1) False] False assms(2)
    by (intro tally_counts [of c' c]) (cases "state c"; auto simp: state_order)+
next
  case True
  then consider "state c = WaitTermInfo" | "state c = WaitIPTermInfo" | "state c = WaitScrInfo"
    by auto
  then show ?thesis
  proof cases
    case 1
    with assms have "receive e [0x09] c db (got_term e db) = Inr (ok, c', db')"
      by (simp add: fsm_def on_wait_term_def)
    then show ?thesis
      by (rule receive_tally) (use assms(2) 1 got_term_tally in auto)
  next
    case 2
    with assms have "receive e [0x0a, 0x0b] c db (got_ipterm db) = Inr (ok, c', db')"
      by (simp add: fsm_def on_wait_ipterm_def)
    then show ?thesis
      by (rule receive_tally) (use assms(2) 2 got_ipterm_tally in auto)
  next
    case 3
    with assms show ?thesis
      using wait_screens_tally by (simp add: fsm_def)
  qed
qed

section \<open>Runs\<close>

text \<open>
  What can happen to a session: bytes arrive, the first \<open>n\<close> bytes of the oldest message leave, the
  state machine is called, other sessions use the database.
\<close>

definition sent_bytes :: "nat \<Rightarrow> Client \<Rightarrow> Client" where
  "sent_bytes n c = c\<lparr>send_buffer := (case send_buffer c of [] \<Rightarrow> []
     | m # ms \<Rightarrow> if n < length m then drop n m # ms else ms)\<rparr>"

inductive session_step :: "Client \<times> Database \<Rightarrow> Client \<times> Database \<Rightarrow> bool" where
  arrive: "session_step (c, db) (c\<lparr>recv_buffer := snd (enqueue bs (recv_buffer c))\<rparr>, db)"
| leave: "session_step (c, db) (sent_bytes n c, db)"
| call: "fsm e c db = Inr (ok, c', db') \<Longrightarrow> session_step (c, db) (c', db')"
| others: "session_step (c, db) (c, db')"

inductive_cases session_stepE: "session_step (c, db) (c', db')"

fun run :: "(Client \<times> Database) list \<Rightarrow> bool" where
  "run [] = False"
| "run [x] = True"
| "run (x # y # zs) = (session_step x y \<and> run (y # zs))"

definition session_inv :: "Client \<Rightarrow> bool" where
  "session_inv c \<longleftrightarrow> cq_inv (recv_buffer c) \<and> [] \<notin> set (send_buffer c) \<and> tally c"

lemma tally_frame [simp]:
  "tally (c\<lparr>recv_buffer := q\<rparr>) = tally c" "tally (c\<lparr>send_buffer := ms\<rparr>) = tally c"
  by (simp_all add: tally_def)

lemma session_inv_new:
  assumes "0 < n" "n < 2 ^ 63"
  shows "session_inv (new_client u fresh fd n)"
proof -
  have "cq_inv (new_queue fresh n)"
    using assms by (rule new_queue_inv)
  then show ?thesis
    by (simp add: session_inv_def new_client_def tally_def state_order)
qed

lemma frame_nonempty:
  assumes "frame c c'" "[] \<notin> set (send_buffer c)"
  shows "[] \<notin> set (send_buffer c')"
proof -
  obtain ms where "send_buffer c' = send_buffer c @ ms" "\<forall>m \<in> set ms. length m \<in> {8, 60}"
    using assms(1) by (auto simp: frame_def)
  with assms(2) show ?thesis by force
qed

lemma fsm_session_inv:
  "fsm e c db = Inr (ok, c', db') \<Longrightarrow> session_inv c \<Longrightarrow> session_inv c'"
  using fsm_sound [of e c db ok c' db'] fsm_tally [of e c db ok c' db'] frame_nonempty [of c c']
  by (simp add: session_inv_def sound_def) (simp add: frame_def)

lemma session_step_inv:
  assumes "session_step (c, db) (c', db')" "session_inv c"
  shows "session_inv c'"
  using assms(1)
proof cases
  case (arrive bs)
  then show ?thesis
    using assms(2) cq.enq_keeps [of "recv_buffer c" bs] by (simp add: session_inv_def)
next
  case (leave n)
  then show ?thesis
    using assms(2) by (auto simp: session_inv_def sent_bytes_def split: list.splits)
next
  case (call e ok)
  then show ?thesis
    using assms(2) fsm_session_inv by blast
qed (use assms(2) in simp)

lemma run_inv:
  "run xs \<Longrightarrow> session_inv (fst (hd xs)) \<Longrightarrow> \<forall>x \<in> set xs. session_inv (fst x)"
proof (induction xs rule: run.induct)
  case (3 x y zs)
  have "session_step (fst x, snd x) (fst y, snd y)" "run (y # zs)" "session_inv (fst x)"
    using "3.prems" by simp_all
  then show ?case
    using session_step_inv [of "fst x" "snd x"] "3.IH" by (metis insert_iff list.simps(15) list.sel(1))
qed simp_all

section \<open>No way around authentication\<close>

text \<open>
  The buffer starts with a packet whose 112 bytes of payload decrypt, under the number in its last
  four bytes, to a text that ends in the secret.
\<close>

definition credential :: "circ_queue \<Rightarrow> bool" where
  "credential q \<longleftrightarrow>
     (let bs = take 112 (drop 4 (cq_list q))
      in 116 \<le> queue_size q \<and> auth_tail (server_crypt (htonl (get32 108 bs)) (get_bytes 4 104 bs)))"

lemma got_auth_admits:
  assumes "got_auth db p c = Inr (ok, c', db')" "state c' \<noteq> state c" "hd_packet_type (pk_header p) = 1"
  shows "\<exists>bs. pk_first p = Some bs \<and> snd (open_auth bs)"
  using assms
  by (auto simp: got_auth_def check_auth_def and_then_eq_Inr_iff payload_of_eq_Inr case_prod_beta
      split: if_splits)

lemma admitted_credential:
  assumes call: "fsm e c db = Inr (ok, c', db')" and inv: "cq_inv (recv_buffer c)"
    and pass: "state c \<le> WaitAuth" "WaitAuth < state c'"
  shows "state c = WaitAuth \<and> credential (recv_buffer c)"
proof -
  have "state c' = state c \<or> state c' \<in> set (next_states (state c))"
    using fsm_sound [OF call] by (auto simp: sound_def split: if_splits)
  then have st: "state c = WaitAuth"
    using pass by (cases "state c") (auto simp: state_order)
  then have "receive e [0x00, 0x01] c db (got_auth db) = Inr (ok, c', db')"
    using call by (simp add: fsm_def on_wait_auth_def)
  then show ?thesis
  proof (rule receive_eq_Inr)
    fix p c1
    assume take: "take_packet (env_junk e 0) False c = Inr (p, c1)"
      and "\<not> ok \<and> c' = c1 \<and> db' = db \<or> hd_direction (pk_header p) = 0x91 \<and>
        hd_packet_type (pk_header p) \<in> set [0x00, 0x01] \<and> got_auth db p c1 = Inr (ok, c', db')"
    moreover have c1: "state c1 = WaitAuth"
      using frame_take [OF take] st by simp
    ultimately have k: "got_auth db p c1 = Inr (ok, c', db')" "hd_packet_type (pk_header p) \<in> {0, 1}"
      using pass by auto
    obtain q where deq: "dequeue_packet (env_junk e 0) False (recv_buffer c) = Inr (p, q)"
      using take by (auto simp: take_packet_def and_then_eq_Inr_iff)
    obtain bs where bs: "pk_first p = Some bs"
      using k(1) by (auto simp: got_auth_def and_then_eq_Inr_iff payload_of_eq_Inr)
    note content = dequeue_packet_content [OF inv deq bs]
    then have "hd_packet_type (pk_header p) \<noteq> 0"
      by (auto simp: struct_size_def)
    then have type: "hd_packet_type (pk_header p) = 1"
      using k(2) by simp
    have "struct_size 1 = Some 112"
      by (simp add: struct_size_def sizeof_defs)
    then have len: "length bs = 112"
      using content type by simp
    have "snd (open_auth bs)"
      using got_auth_admits [OF k(1) _ type] pass c1 bs by auto
    then show ?thesis
      using content len st by (simp add: credential_def open_auth_verdict sizeof_defs)
  qed
qed

lemma step_pass:
  assumes "session_step (c, db) (c', db')" "cq_inv (recv_buffer c)"
    "state c \<le> WaitAuth" "WaitAuth < state c'"
  shows "state c = WaitAuth \<and> credential (recv_buffer c)"
  using assms(1)
proof cases
  case (call e ok)
  then show ?thesis
    using admitted_credential assms(2-4) by blast
qed (use assms in \<open>auto simp: sent_bytes_def\<close>)

lemma run_pass:
  "run xs \<Longrightarrow> session_inv (fst (hd xs)) \<Longrightarrow> state (fst (hd xs)) \<le> WaitAuth \<Longrightarrow>
     WaitAuth < state (fst (last xs)) \<Longrightarrow>
     \<exists>x \<in> set xs. state (fst x) = WaitAuth \<and> credential (recv_buffer (fst x))"
proof (induction xs rule: run.induct)
  case (3 x y zs)
  have h: "session_step (fst x, snd x) (fst y, snd y)" "run (y # zs)" "session_inv (fst x)"
      "state (fst x) \<le> WaitAuth" "WaitAuth < state (fst (last (y # zs)))"
    using "3.prems" by simp_all
  show ?case
  proof (cases "state (fst y) \<le> WaitAuth")
    case True
    then show ?thesis
      using "3.IH" h session_step_inv [OF h(1)] by auto
  next
    case False
    then have "state (fst x) = WaitAuth \<and> credential (recv_buffer (fst x))"
      using step_pass [OF h(1)] h(3,4) by (simp add: not_le session_inv_def)
    then show ?thesis by simp
  qed
qed (auto simp: not_le [symmetric])

section \<open>Properties\<close>

text \<open>
  C6: in every state of every run of a session, the receive buffer is a proper
  queue, no empty message waits to be sent, screens are awaited exactly when \<^verbatim>\<open>is_scr\<close> is set (and
  then at least one and at most 255), and the session has ended only if all announced terminals
  were counted.
\<close>

theorem session_invariant:
  assumes "run xs" "fst (hd xs) = new_client u fresh fd kRecvBufferSize" "x \<in> set xs"
  shows "session_inv (fst x)"
proof -
  have "session_inv (fst (hd xs))"
    unfolding assms(2) by (rule session_inv_new) (simp_all add: kRecvBufferSize_def kMaxPacketLength_def)
  with assms show ?thesis
    using run_inv by blast
qed

text \<open>A run that gets a client through authentication.\<close>

definition sample_fresh :: Client where
  "sample_fresh = new_client (sample_client Ended []) (\<lambda>_. 0) 5 kRecvBufferSize"

definition sample_asked :: Client where
  "sample_asked =
     (push_message (auth_request sample_env (htons 20) (htons 60)) sample_fresh)\<lparr>state := WaitAuth\<rparr>"

definition sample_answered :: Client where
  "sample_answered = sample_asked\<lparr>recv_buffer := snd (enqueue (sample_auth_bytes c_auth) (recv_buffer sample_asked))\<rparr>"

definition sample_run :: "(Client \<times> Database) list" where
  "sample_run = [(sample_fresh, sample_db 4), (sample_asked, sample_db 4), (sample_answered, sample_db 4)]"

lemma opt_sample: "opt_u16 sample_env connect_gap_key = Inr (htons 20)"
  "opt_u16 sample_env sample_gap_key = Inr (htons 60)"
proof -
  have ne: "sample_gap_key \<noteq> connect_gap_key"
    by (simp add: sample_gap_key_def connect_gap_key_def gbk_def)
  have "stoi ''20'' = Inr 20" "stoi ''60'' = Inr 60"
    by code_simp+
  with ne show "opt_u16 sample_env connect_gap_key = Inr (htons 20)"
    "opt_u16 sample_env sample_gap_key = Inr (htons 60)"
    by (simp_all add: opt_u16_def opt_at_def sample_env_def)
qed

lemma run_snoc: "run (xs @ [x]) \<Longrightarrow> session_step x y \<Longrightarrow> run (xs @ [x, y])"
proof (induction xs)
  case (Cons a xs)
  then show ?case by (cases xs) auto
qed simp

lemma sample_greets: "fsm sample_env sample_fresh db = Inr (True, sample_asked, db)"
proof -
  have "state sample_fresh = Acceptance"
    by (simp add: sample_fresh_def)
  then show ?thesis
    by (simp add: fsm_def on_acceptance_def opt_sample sample_asked_def)
qed

lemma sample_run_run: "run sample_run"
proof -
  have "session_step (sample_fresh, db) (sample_asked, db)" for db
    using sample_greets by (rule call)
  moreover have "session_step (sample_asked, db) (sample_answered, db)" for db
    unfolding sample_answered_def by (rule arrive)
  ultimately show ?thesis
    by (simp add: sample_run_def)
qed

theorem session_invariant_witness:
  "session_inv (fst (sample_run ! 2))"
  by (rule session_invariant [OF sample_run_run,
        of "sample_client Ended []" "\<lambda>_. 0" 5 "sample_run ! 2"])
    (simp_all add: sample_run_def sample_fresh_def)

text \<open>
  C5: a session can only get past authentication through a call of the state machine in
  state WaitAuth on a packet whose bytes decrypt, under the packet's own random number, to a text
  ending in the last 31 bytes of the secret string, whatever arrives on the connection and whatever
  else happens in between.
\<close>

theorem no_bypass:
  assumes "run xs" "fst (hd xs) = new_client u fresh fd kRecvBufferSize"
    and "WaitAuth < state (fst (last xs))"
  shows "\<exists>x \<in> set xs. state (fst x) = WaitAuth \<and> credential (recv_buffer (fst x))"
proof -
  have "session_inv (fst (hd xs))"
    unfolding assms(2) by (rule session_inv_new) (simp_all add: kRecvBufferSize_def kMaxPacketLength_def)
  moreover have "state (fst (hd xs)) \<le> WaitAuth"
    by (simp add: assms(2) state_order)
  ultimately show ?thesis
    using run_pass assms by blast
qed

lemma sample_answered_holds:
  "holds_packet sample_answered 0x91 0x01 (sealed (sample_auth c_auth) (htons 108) 12345) [] []"
proof -
  let ?q = "new_queue (\<lambda>_. 0) kRecvBufferSize"
  have q: "cq_inv ?q" "queue_size ?q = 0"
    by (simp_all add: kRecvBufferSize_def kMaxPacketLength_def del: length_cq_list flip: length_cq_list)
  have "recv_buffer sample_answered = snd (enqueue (sample_auth_bytes c_auth) ?q)"
    by (simp add: sample_answered_def sample_asked_def sample_fresh_def push_message_def)
  moreover have "length (sample_auth_bytes c_auth) \<le> kRecvBufferSize"
    by (simp add: sample_auth_bytes_def sizeof_PacketHeader_def kRecvBufferSize_def kMaxPacketLength_def)
  ultimately have "framed (recv_buffer sample_answered) (packet_header 0x91 0x01 112)
      (sealed (sample_auth c_auth) (htons 108) 12345) []"
    using enqueue_ok [OF q(1), of "sample_auth_bytes c_auth"] q(2)
    by (simp add: framed_def) (simp add: sample_auth_bytes_def)
  then show ?thesis
    by (simp add: holds_packet_def struct_size_def sizeof_defs)
qed

lemma sample_run_admitted: "\<exists>c db. run (sample_run @ [(c, db)]) \<and> state c = WaitSysInfo"
proof -
  let ?p = "sample_auth c_auth"
  obtain cmd where "auth_insert (opened ?p (htons 108) 12345) (sample_answered\<lparr>ether_last := ar_ethnum ?p\<rparr>) = Inr cmd"
    using sample_auth_insert by blast
  moreover have "state sample_answered = WaitAuth"
    by (simp add: sample_answered_def sample_asked_def)
  ultimately obtain c db where "fsm sample_env sample_answered (sample_db 4) = Inr (True, c\<lparr>state := WaitSysInfo\<rparr>, db)"
    using wait_auth_admits [OF _ sample_answered_holds, of cmd "sample_db 4" sample_env] by force
  then have "session_step (sample_answered, sample_db 4) (c\<lparr>state := WaitSysInfo\<rparr>, db)"
    by (rule call)
  then have "run (sample_run @ [(c\<lparr>state := WaitSysInfo\<rparr>, db)])"
    using sample_run_run by (simp add: sample_run_def)
  then show ?thesis by force
qed

theorem no_bypass_witness:
  "\<exists>xs :: (Client \<times> Database) list. state (fst (last xs)) = WaitSysInfo \<and>
     (\<exists>x \<in> set xs. state (fst x) = WaitAuth \<and> credential (recv_buffer (fst x)))"
proof -
  obtain c db where r: "run (sample_run @ [(c, db)])" "state c = WaitSysInfo"
    using sample_run_admitted by blast
  have "fst (hd (sample_run @ [(c, db)])) = new_client (sample_client Ended []) (\<lambda>_. 0) 5 kRecvBufferSize"
    by (simp add: sample_run_def sample_fresh_def)
  then have "\<exists>x \<in> set (sample_run @ [(c, db)]). state (fst x) = WaitAuth \<and> credential (recv_buffer (fst x))"
    using no_bypass [OF r(1)] r(2) by (simp add: state_order)
  moreover have "state (fst (last (sample_run @ [(c, db)]))) = WaitSysInfo"
    using r(2) by simp
  ultimately show ?thesis by blast
qed

section \<open>The protocol\<close>

text \<open>
  C29: a call that returns true moves the session along an edge of the protocol and
  a call that returns false leaves its state; both only append messages of 8 or 60 bytes to the
  send buffer, keep socket and address, and leave a proper receive queue.
\<close>

theorem fsm_transitions:
  assumes "fsm e c db = Inr (ok, c', db')"
  shows "frame c c' \<and> (if ok then state c' \<in> set (next_states (state c)) else state c' = state c)"
  using fsm_sound [OF assms] by (simp add: sound_def)

theorem fsm_transitions_witness:
  "frame sample_fresh sample_asked \<and> state sample_asked \<in> set (next_states (state sample_fresh))"
  using fsm_transitions [OF sample_greets] by simp

end
