(* ===== verification/Session_Progress.thy ===== *)
theory Session_Progress
  imports Session_Runs
begin

text \<open>
  What each state does with a proper answer, and with an improper one. The lemmas of the first
  section follow a well-behaved client from state to state; together they give the theorem that
  such a session runs to its end, with or without screens. The later sections are about refusals and about the input that
  ends the server process.
\<close>

section \<open>Proper answers\<close>

lemma ready_more: "ready n db \<Longrightarrow> m \<le> n \<Longrightarrow> ready m db"
  unfolding ready_def by (meson in_set_takeD le_trans set_take_subset_set_take subset_iff)

text \<open>Room for \<open>n\<close> more commands: they will be accepted, and the counter of screens will not overflow.\<close>

definition room_for :: "nat \<Rightarrow> Database \<Rightarrow> bool" where
  "room_for n db \<longleftrightarrow> ready n db \<and> global_number db + int n < 2 ^ 31"

lemma room_fewer: "room_for n db \<Longrightarrow> m \<le> n \<Longrightarrow> room_for m db"
  using ready_more by (auto simp: room_for_def)

lemma room_answered: "room_for (Suc n) db \<Longrightarrow> room_for n (answered [cmd] db)"
  using ready_exec(2) by (auto simp: room_for_def) (auto simp: answered_def)

lemma room_ready: "room_for n db \<Longrightarrow> ready n db"
  by (simp add: room_for_def)

lemma ready_one:
  "ready (Suc n) db \<Longrightarrow> execute cmd db = Inr (True, answered [cmd] db)"
  "ready (Suc n) db \<Longrightarrow> ready n (answered [cmd] db)"
  using ready_execute by blast+

lemma consumedE:
  assumes "consumed c rest c1"
  obtains q where "c1 = c\<lparr>recv_buffer := q\<rparr>" "cq_inv q" "cq_list q = rest" "cq_size q = cq_size (recv_buffer c)"
  using assms by (metis consumed_def)

lemma receive_proper:
  assumes "holds_packet c 0x91 t first second rest" "t \<in> set ts"
  obtains q where "cq_inv q" "cq_list q = rest" "cq_size q = cq_size (recv_buffer c)"
    "receive e ts c db k =
       k \<lparr>pk_header = packet_header 0x91 t (length first + length second), pk_first = Some first,
          pk_second = second\<rparr> (c\<lparr>recv_buffer := q\<rparr>)"
proof -
  obtain c1 where c1: "consumed c rest c1" and r: "receive e ts c db k =
      k \<lparr>pk_header = packet_header 0x91 t (length first + length second), pk_first = Some first,
         pk_second = second\<rparr> c1"
    using receive_holds [OF assms(1)] assms(2) by fastforce
  from c1 show thesis
    by (rule consumedE) (use r that in auto)
qed

lemma length_host:
  "length bs = sizeof_SysInfoResponsePacket \<Longrightarrow> wf_SysInfoResponsePacket (host_sysinfo (SysInfoResponsePacket_of bs))"
  "length bs = sizeof_EtherInfoResponsePacket \<Longrightarrow> wf_EtherInfoResponsePacket (host_ether (EtherInfoResponsePacket_of bs))"
  "length bs = sizeof_TerInfoResponsePacket \<Longrightarrow> wf_TerInfoResponsePacket (host_term (TerInfoResponsePacket_of bs))"
  "length bs = sizeof_IPTermResponsePacket \<Longrightarrow> wf_IPTermResponsePacket (host_ipterm (IPTermResponsePacket_of bs))"
  using wf_SysInfoResponsePacket_of [of bs] wf_EtherInfoResponsePacket_of [of bs]
    wf_TerInfoResponsePacket_of [of bs] wf_IPTermResponsePacket_of [of bs]
  by (simp_all add: wf_SysInfoResponsePacket_def host_sysinfo_def wf_EtherInfoResponsePacket_def
      host_ether_def wf_TerInfoResponsePacket_def host_term_def wf_IPTermResponsePacket_def
      host_ipterm_def)

lemma sysinfo_proceeds:
  assumes "state c = WaitSysInfo" "holds_packet c 0x91 0x02 bs second rest" "ready (Suc n) db"
  obtains q cmd where "cq_inv q" "cq_list q = rest" "cq_size q = cq_size (recv_buffer c)"
    "fsm e c db = Inr (True, (push_message (plain_request 0x03) (c\<lparr>recv_buffer := q\<rparr>))\<lparr>state := WaitConfigInfo\<rparr>,
       answered [cmd] db)" "ready n (answered [cmd] db)"
    "cmd = sysinfo_update (host_sysinfo (SysInfoResponsePacket_of bs)) c"
proof -
  obtain q where q: "cq_inv q" "cq_list q = rest" "cq_size q = cq_size (recv_buffer c)"
    and r: "receive e [0x02] c db (got_sysinfo db) =
      got_sysinfo db \<lparr>pk_header = packet_header 0x91 0x02 (length bs + length second), pk_first = Some bs,
          pk_second = second\<rparr> (c\<lparr>recv_buffer := q\<rparr>)"
    by (rule receive_proper [OF assms(2), of "[0x02]" e db "got_sysinfo db"]) auto
  have "length bs = sizeof_SysInfoResponsePacket"
    using assms(2) by (simp add: holds_packet_def struct_size_def)
  then have "fsm e c db = Inr (True, (push_message (plain_request 0x03) (c\<lparr>recv_buffer := q\<rparr>))\<lparr>state := WaitConfigInfo\<rparr>,
      answered [sysinfo_update (host_sysinfo (SysInfoResponsePacket_of bs)) c] db)"
    using assms(1,3) r
    by (simp add: fsm_def on_wait_sysinfo_def got_sysinfo_def OnRecvSysInfoResponse_def refill_def
        length_host ready_one) (simp add: sysinfo_update_def where_dev_def)
  with q that assms(3) show thesis
    using ready_one(2) by blast
qed

text \<open>A text payload as the database handlers need it: none at all, or with a NUL inside.\<close>

definition texty :: "bytes \<Rightarrow> bool" where
  "texty bs \<longleftrightarrow> bs = [] \<or> 0 \<in> set bs"

lemma cstr_texty: "0 \<in> set bs \<Longrightarrow> \<exists>s. cstr bs = Inr s"
  by (induction bs) (auto split: if_splits)

lemma payload_update_texty: "texty bs \<Longrightarrow> \<exists>cmd. payload_update col bs c = Inr cmd"
  using cstr_texty [of bs] by (auto simp: texty_def payload_update_def Let_def)

lemma config_proceeds:
  assumes "state c = WaitConfigInfo" "holds_packet c 0x91 0x03 bs second rest" "ready (Suc n) db" "texty second"
  obtains q cmd where "cq_inv q" "cq_list q = rest" "cq_size q = cq_size (recv_buffer c)"
    "fsm e c db = Inr (True, (push_message (plain_request 0x04) (c\<lparr>recv_buffer := q\<rparr>))\<lparr>state := WaitProcInfo\<rparr>,
       answered [cmd] db)" "ready n (answered [cmd] db)"
proof -
  obtain q where q: "cq_inv q" "cq_list q = rest" "cq_size q = cq_size (recv_buffer c)"
    and r: "receive e [0x03] c db (got_config db) =
      got_config db \<lparr>pk_header = packet_header 0x91 0x03 (length bs + length second), pk_first = Some bs,
          pk_second = second\<rparr> (c\<lparr>recv_buffer := q\<rparr>)"
    by (rule receive_proper [OF assms(2), of "[0x03]" e db "got_config db"]) auto
  obtain cmd where "payload_update ''devstate_base_config'' second (c\<lparr>recv_buffer := q\<rparr>) = Inr cmd"
    using payload_update_texty [OF assms(4)] by blast
  then have "fsm e c db = Inr (True, (push_message (plain_request 0x04) (c\<lparr>recv_buffer := q\<rparr>))\<lparr>state := WaitProcInfo\<rparr>,
      answered [cmd] db)"
    using assms(1,3) r
    by (simp add: fsm_def on_wait_config_def got_config_def OnRecvConfInfoResponse_def refill_def ready_one)
  with q that assms(3) show thesis
    using ready_one(2) by blast
qed

lemma proc_proceeds:
  assumes "state c = WaitProcInfo" "holds_packet c 0x91 0x04 bs second rest" "ready (Suc n) db" "texty second"
  obtains q cmd where "cq_inv q" "cq_list q = rest" "cq_size q = cq_size (recv_buffer c)"
    "fsm e c db = Inr (True, ask_ethers (c\<lparr>recv_buffer := q\<rparr>), answered [cmd] db)"
    "ready n (answered [cmd] db)"
proof -
  obtain q where q: "cq_inv q" "cq_list q = rest" "cq_size q = cq_size (recv_buffer c)"
    and r: "receive e [0x04] c db (got_proc db) =
      got_proc db \<lparr>pk_header = packet_header 0x91 0x04 (length bs + length second), pk_first = Some bs,
          pk_second = second\<rparr> (c\<lparr>recv_buffer := q\<rparr>)"
    by (rule receive_proper [OF assms(2), of "[0x04]" e db "got_proc db"]) auto
  obtain cmd where "payload_update ''devstate_base_process'' second (c\<lparr>recv_buffer := q\<rparr>) = Inr cmd"
    using payload_update_texty [OF assms(4)] by blast
  then have "fsm e c db = Inr (True, ask_ethers (c\<lparr>recv_buffer := q\<rparr>), answered [cmd] db)"
    using assms(1,3) r
    by (simp add: fsm_def on_wait_proc_def got_proc_def OnRecvProcInfoResponse_def refill_def ready_one)
  with q that assms(3) show thesis
    using ready_one(2) by blast
qed

lemma ether_proceeds:
  assumes "state c = WaitEtheInfo" "holds_packet c 0x91 0x05 bs second rest" "ready (Suc n) db"
  obtains q cmd where "cq_inv q" "cq_list q = rest" "cq_size q = cq_size (recv_buffer c)"
    "fsm e c db = Inr (True,
       (let c2 = c\<lparr>recv_buffer := q, ethnum := ethnum c - 1\<rparr> in
        if ethnum c2 > 0 then c2\<lparr>state := WaitEtheInfo\<rparr> else (push_message (plain_request 0x09) c2)\<lparr>state := WaitTermInfo\<rparr>),
       answered [cmd] db)" "ready n (answered [cmd] db)"
    "cmd = ether_update (host_ether (EtherInfoResponsePacket_of bs)) c"
proof -
  obtain q where q: "cq_inv q" "cq_list q = rest" "cq_size q = cq_size (recv_buffer c)"
    and r: "receive e [0x05] c db (got_ether db) =
      got_ether db \<lparr>pk_header = packet_header 0x91 0x05 (length bs + length second), pk_first = Some bs,
          pk_second = second\<rparr> (c\<lparr>recv_buffer := q\<rparr>)"
    by (rule receive_proper [OF assms(2), of "[0x05]" e db "got_ether db"]) auto
  have len: "length bs = sizeof_EtherInfoResponsePacket"
    using assms(2) by (simp add: holds_packet_def struct_size_def)
  have cmd: "ether_update p (c\<lparr>recv_buffer := q\<rparr>) = ether_update p c" for p
    by (simp add: ether_update_def where_dev_def)
  have "fsm e c db = Inr (True,
       (let c2 = c\<lparr>recv_buffer := q, ethnum := ethnum c - 1\<rparr> in
        if ethnum c2 > 0 then c2\<lparr>state := WaitEtheInfo\<rparr> else (push_message (plain_request 0x09) c2)\<lparr>state := WaitTermInfo\<rparr>),
       answered [ether_update (host_ether (EtherInfoResponsePacket_of bs)) c] db)"
    using assms(1,3) r len
    by (simp add: fsm_def on_wait_ether_def got_ether_def OnRecvEtherInfoResponse_def refill_def
        EtherInfoResponsePacket_of_mem [OF length_host(2)] ready_one cmd Let_def)
  with q that assms(3) show thesis
    using ready_one(2) by blast
qed

text \<open>
  \<open>recved_pkt\<close> in WaitTermInfo refers to a struct that the database handler deletes before the
  tables of terminals are read; the number of terminals is read before. \<open>asked_table e bs\<close> is the table
  so put together, whatever the freed memory holds.
\<close>

definition asked_table :: "env \<Rightarrow> bytes \<Rightarrow> TerInfoResponsePacket" where
  "asked_table e bs =
     (let p = host_term (TerInfoResponsePacket_of bs);
          freed = TerInfoResponsePacket_of (env_freed e (TerInfoResponsePacket_mem p))
      in p\<lparr>tr_dumb_term := tr_dumb_term freed, tr_ip_term := tr_ip_term freed\<rparr>)"

text \<open>
  An assumption about undefined memory, not documented behaviour of any allocator (many
  overwrite the first bytes of a block that is freed): the memory of the deleted struct still holds the
  struct when it is read. Only the theorems about whole conversations rest on it.
\<close>

definition frees_lazily :: "env \<Rightarrow> bool" where
  "frees_lazily e \<longleftrightarrow> (\<forall>bs. env_freed e bs = bs)"

lemma asked_table_lazy:
  "frees_lazily e \<Longrightarrow> length bs = sizeof_TerInfoResponsePacket \<Longrightarrow>
     asked_table e bs = host_term (TerInfoResponsePacket_of bs)"
  by (simp add: asked_table_def frees_lazily_def TerInfoResponsePacket_of_mem [OF length_host(3)])

definition ask_terms :: "TerInfoResponsePacket \<Rightarrow> Client \<Rightarrow> Client" where
  "ask_terms p c = c\<lparr>tty_connected := uint (tr_term_num p), dumb_term := tr_dumb_term p, ip_term := tr_ip_term p,
     send_buffer := send_buffer c @ term_loop 0x0a 0 (tr_dumb_term p) @ term_loop 0x0b 0 (tr_ip_term p),
     state := WaitIPTermInfo\<rparr>"

lemma term_proceeds:
  assumes "state c = WaitTermInfo" "holds_packet c 0x91 0x09 bs second rest" "ready (Suc n) db"
  obtains q cmd where "cq_inv q" "cq_list q = rest" "cq_size q = cq_size (recv_buffer c)"
    "fsm e c db = Inr (True, ask_terms (asked_table e bs) (c\<lparr>recv_buffer := q\<rparr>), answered [cmd] db)"
    "ready n (answered [cmd] db)"
proof -
  obtain q where q: "cq_inv q" "cq_list q = rest" "cq_size q = cq_size (recv_buffer c)"
    and r: "receive e [0x09] c db (got_term e db) =
      got_term e db \<lparr>pk_header = packet_header 0x91 0x09 (length bs + length second), pk_first = Some bs,
          pk_second = second\<rparr> (c\<lparr>recv_buffer := q\<rparr>)"
    by (rule receive_proper [OF assms(2), of "[0x09]" e db "got_term e db"]) auto
  have len: "length bs = sizeof_TerInfoResponsePacket"
    using assms(2) by (simp add: holds_packet_def struct_size_def)
  have "\<exists>cmd. fsm e c db = Inr (True, ask_terms (asked_table e bs) (c\<lparr>recv_buffer := q\<rparr>), answered [cmd] db)"
    using assms(1,3) r len
    by (simp add: fsm_def on_wait_term_def got_term_def OnRecvTermResponse_def refill_def
        TerInfoResponsePacket_of_mem [OF length_host(3)] ready_one Let_def)
      (auto simp: ask_terms_def asked_table_def Let_def)
  with q that assms(3) show thesis
    using ready_one(2) by blast
qed

text \<open>An IPTerm packet in the buffer; its screens are not part of the packet that is taken.\<close>

definition holds_terminal :: "Client \<Rightarrow> nat \<Rightarrow> bytes \<Rightarrow> bytes \<Rightarrow> bool" where
  "holds_terminal c n bs rest \<longleftrightarrow>
     framed (recv_buffer c) (packet_header 0x91 0x0b n) bs rest \<and> length bs = sizeof_IPTermResponsePacket"

definition terminal_texts :: "bytes \<Rightarrow> bool" where
  "terminal_texts bs \<longleftrightarrow> 0 \<in> set (drop 24 bs)"

lemma receive_terminal:
  assumes "holds_terminal c n bs rest"
  obtains q where "cq_inv q" "cq_list q = rest" "cq_size q = cq_size (recv_buffer c)"
    "receive e [0x0a, 0x0b] c db k =
       k \<lparr>pk_header = packet_header 0x91 0x0b n, pk_first = Some bs, pk_second = []\<rparr> (c\<lparr>recv_buffer := q\<rparr>)"
proof -
  have "framed (recv_buffer c) (packet_header 0x91 0x0b n) bs rest"
    "hd_packet_type (packet_header 0x91 0x0b n) = code_of_type IPTerm"
    "length bs = sizeof_IPTermResponsePacket"
    using assms by (simp_all add: holds_terminal_def packet_header_def)
  from dequeue_packet_ipterm [OF this, of "env_junk e 0"] obtain q where
      "dequeue_packet (env_junk e 0) False (recv_buffer c) =
        Inr (\<lparr>pk_header = packet_header 0x91 0x0b n, pk_first = Some bs, pk_second = []\<rparr>, q)"
      "cq_inv q" "cq_list q = rest" "cq_size q = cq_size (recv_buffer c)"
    by blast
  then show thesis
    using that [of q] by (simp add: receive_def take_packet_def packet_header_def)
qed

lemma ipterm_insert_texts:
  assumes "length bs = sizeof_IPTermResponsePacket" "terminal_texts bs"
  shows "\<exists>cmd. ipterm_insert d (host_ipterm (IPTermResponsePacket_of bs)) c = Inr cmd"
proof -
  let ?m = "IPTermResponsePacket_mem (host_ipterm (IPTermResponsePacket_of bs))"
  have 12: "drop 12 ?m = drop 12 bs"
    using assms(1)
    by (simp add: IPTermResponsePacket_mem_def host_ipterm_def IPTermResponsePacket_of_def sizeof_defs layout_simps)
  have 24: "drop 24 ?m = drop 24 bs"
    using arg_cong [OF 12, of "drop 12"] by simp
  have "0 \<in> set (drop 24 bs)"
    using assms(2) by (simp add: terminal_texts_def)
  moreover from this have "0 \<in> set (drop 12 bs)"
    using set_drop_subset_set_drop [of 12 24 bs] by auto
  ultimately show ?thesis
    using cstr_texty [of "drop 12 bs"] cstr_texty [of "drop 24 bs"] 12 24
    by (auto simp: ipterm_insert_def Let_def)
qed

lemma terminal_proceeds:
  assumes "state c = WaitIPTermInfo" "holds_terminal c m bs rest" "ready (Suc n) db" "terminal_texts bs"
    and "tty_cnt c < 2 ^ 31 - 1"
  obtains q cmd tty p where "cq_inv q" "cq_list q = rest" "cq_size q = cq_size (recv_buffer c)"
    "fsm e c db = Inr (True, after_terminal (host_ipterm (IPTermResponsePacket_of bs)) p
       (c\<lparr>recv_buffer := q, current_tty := tty,
          current_scr := ir_active_screen (IPTermResponsePacket_of bs), tty_cnt := tty_cnt c + 1,
          scr_num := uint (ir_screen_num (IPTermResponsePacket_of bs))\<rparr>),
       answered [cmd] db)" "ready n (answered [cmd] db)"
proof -
  let ?p = "host_ipterm (IPTermResponsePacket_of bs)"
  obtain q where q: "cq_inv q" "cq_list q = rest" "cq_size q = cq_size (recv_buffer c)"
    and r: "receive e [0x0a, 0x0b] c db (got_ipterm db) =
      got_ipterm db \<lparr>pk_header = packet_header 0x91 0x0b m, pk_first = Some bs, pk_second = []\<rparr> (c\<lparr>recv_buffer := q\<rparr>)"
    by (rule receive_terminal [OF assms(2), of e db "got_ipterm db"])
  have len: "length bs = sizeof_IPTermResponsePacket"
    using assms(2) by (simp add: holds_terminal_def)
  obtain cmd where cmd: "ipterm_insert False ?p (c\<lparr>recv_buffer := q\<rparr>) = Inr cmd"
    using ipterm_insert_texts [OF len assms(4)] by blast
  have same: "ir_active_screen ?p = ir_active_screen (IPTermResponsePacket_of bs)"
    "ir_screen_num ?p = ir_screen_num (IPTermResponsePacket_of bs)"
    by (simp_all add: host_ipterm_def)
  have "\<exists>tty p. fsm e c db = Inr (True, after_terminal ?p p
       (c\<lparr>recv_buffer := q, current_tty := tty,
          current_scr := ir_active_screen (IPTermResponsePacket_of bs), tty_cnt := tty_cnt c + 1,
          scr_num := uint (ir_screen_num (IPTermResponsePacket_of bs))\<rparr>),
       answered [cmd] db)"
    using assms(1,3,5) r cmd len
    by (auto simp: fsm_def on_wait_ipterm_def got_ipterm_def OnRecvIPTermResponse_def refill_def
        IPTermResponsePacket_of_mem [OF length_host(4)] ready_one Let_def int_inc_def same
        host_header_def packet_header_def)
  with q that assms(3) show thesis
    using ready_one(2) by blast
qed

lemma end_proceeds:
  assumes "state c = Ended" "holds_packet c 0x91 0xff bs second rest" "ready (Suc n) db"
  obtains q cmd where "cq_inv q" "cq_list q = rest" "cq_size q = cq_size (recv_buffer c)"
    "fsm e c db = Inr (True, c\<lparr>recv_buffer := q\<rparr>, answered [cmd] db)" "ready n (answered [cmd] db)"
    "cmd = ''update devstate_base set devstate_base_tty_connected = '' @ dec_int (tty_connected c) @ where_dev c"
proof -
  obtain q where q: "cq_inv q" "cq_list q = rest" "cq_size q = cq_size (recv_buffer c)"
    and r: "receive e [0xff] c db (got_end db) =
      got_end db \<lparr>pk_header = packet_header 0x91 0xff (length bs + length second), pk_first = Some bs,
          pk_second = second\<rparr> (c\<lparr>recv_buffer := q\<rparr>)"
    by (rule receive_proper [OF assms(2), of "[0xff]" e db "got_end db"]) auto
  have "fsm e c db = Inr (True, c\<lparr>recv_buffer := q\<rparr>, answered [''update devstate_base set devstate_base_tty_connected = '' @
      dec_int (tty_connected c) @ where_dev c] db)"
    using assms(1,3) r
    by (simp add: fsm_def on_end_def got_end_def UpdateTTYConnected_def ready_one where_dev_def)
  with q that assms(3) show thesis
    using ready_one(2) by blast
qed

section \<open>Reading screens\<close>

text \<open>\<open>screen_bytes b\<close>: the 96 bytes of a screen; the type of its terminal is a C string.\<close>

definition screen_bytes :: "bytes \<Rightarrow> bool" where
  "screen_bytes b \<longleftrightarrow> length b = 96 \<and> 0 \<in> set (take 12 (drop 52 b))"

lemma take_screen:
  assumes "cq_inv (recv_buffer c)" "cq_list (recv_buffer c) = b @ rest" "length b = 96"
    and "unat (hd_packet_size junk) = 96"
  shows "\<exists>q. take_packet junk True c = Inr (\<lparr>pk_header = junk, pk_first = Some b, pk_second = []\<rparr>, c\<lparr>recv_buffer := q\<rparr>) \<and>
    cq_inv q \<and> cq_list q = rest"
proof -
  obtain q1 where q1: "dequeue 96 (recv_buffer c) = (Some b, q1)" "cq_inv q1" "cq_list q1 = rest"
    using deq_prefix [OF assms(1,2)] assms(3) by auto
  obtain q where "dequeue 0 q1 = (Some [], q)" "cq_inv q" "cq_list q = rest"
    using deq_prefix [OF q1(2), of "[]" rest] q1(3) by auto
  moreover have "sub64 96 96 = 0"
    by (simp add: sub64_le)
  ultimately show ?thesis
    using q1(1) assms(4)
    by (intro exI [of _ q])
      (simp add: take_packet_def dequeue_packet_def dequeue_screen_def Let_def sizeof_ScreenInfoPacket_def)
qed

lemma take_screen_short:
  assumes "unat (hd_packet_size junk) < 96"
  shows "take_packet junk True c = Inl Length_Error"
proof -
  have "max_vector < sub64 (unat (hd_packet_size junk)) 96"
    using assms sub64_less [of "unat (hd_packet_size junk)" 96] by (simp add: max_vector_def)
  then show ?thesis
    by (simp add: take_packet_def dequeue_packet_def dequeue_screen_def Let_def sizeof_ScreenInfoPacket_def
        case_prod_beta)
qed

lemma host_screen_tail:
  assumes "length b = 96"
  shows "take 12 (drop 52 (ScreenInfoPacket_mem (host_screen (ScreenInfoPacket_of b)))) = take 12 (drop 52 b)"
  using assms
  by (simp add: ScreenInfoPacket_mem_def host_screen_def ScreenInfoPacket_of_def get_bytes_def)

lemma wf_host_screen: "length b = 96 \<Longrightarrow> wf_ScreenInfoPacket (host_screen (ScreenInfoPacket_of b))"
  using wf_ScreenInfoPacket_of [of b] by (simp add: wf_ScreenInfoPacket_def host_screen_def sizeof_ScreenInfoPacket_def)

lemma screen_insert_texts:
  assumes "screen_bytes b"
  shows "\<exists>cmd. screen_insert gn (host_screen (ScreenInfoPacket_of b)) c = Inr cmd"
proof -
  let ?m = "ScreenInfoPacket_mem (host_screen (ScreenInfoPacket_of b))"
  have "0 \<in> set (take 12 (drop 52 ?m))"
    using assms host_screen_tail [of b] by (simp add: screen_bytes_def)
  then have "0 \<in> set (drop 52 ?m)"
    by (rule in_set_takeD)
  then have "0 \<in> set (drop k ?m)" if "k \<le> 52" for k
    using set_drop_subset_set_drop [OF that, of ?m] by auto
  then have "\<exists>s. cstr (drop k ?m) = Inr s" if "k \<le> 52" for k
    using that cstr_texty by blast
  from this [of 8] this [of 20] this [of 52] show ?thesis
    by (auto simp: screen_insert_def Let_def)
qed

text \<open>
  The server reads a screen with a header it has never filled. An assumption about undefined memory,
  not documented behaviour: the memory under that header happens to hold the size of a screen. When it
  holds less, the server throws \<^verbatim>\<open>std::length_error\<close> at the first screen (\<open>take_screen_short\<close>).
\<close>

definition lucky :: "env \<Rightarrow> bool" where
  "lucky e \<longleftrightarrow> (\<forall>i. unat (hd_packet_size (env_junk e i)) = sizeof_ScreenInfoPacket)"

lemma screen_loop_proceeds:
  "\<lbrakk>lucky e; \<forall>b \<in> set ss. screen_bytes b; cq_inv (recv_buffer c); cq_list (recv_buffer c) = concat ss @ rest;
    ready (length ss + k) db; global_number db + int (length ss) < 2 ^ 31\<rbrakk> \<Longrightarrow>
   \<exists>q db' cmds. screen_loop e i (length ss) c db = Inr (True, c\<lparr>recv_buffer := q\<rparr>, db') \<and> cq_inv q \<and>
     cq_list q = rest \<and> ready k db' \<and> db_sent db' = db_sent db @ map c_str cmds \<and> length cmds = length ss \<and>
     global_number db' = global_number db + int (length ss)"
proof (induction ss arbitrary: i c db)
  case Nil
  then show ?case
    by (intro exI [of _ "recv_buffer c"] exI [of _ db] exI [of _ "[]"]) simp
next
  case (Cons b ss)
  have b: "screen_bytes b" "length b = 96"
    using Cons.prems(2) by (simp_all add: screen_bytes_def)
  obtain q where q: "take_packet (env_junk e i) True c =
      Inr (\<lparr>pk_header = env_junk e i, pk_first = Some b, pk_second = []\<rparr>, c\<lparr>recv_buffer := q\<rparr>)"
      "cq_inv q" "cq_list q = concat ss @ rest"
    using take_screen [OF Cons.prems(3), of b "concat ss @ rest" "env_junk e i"] Cons.prems(1,4) b(2)
    by (auto simp: lucky_def sizeof_ScreenInfoPacket_def)
  let ?c = "c\<lparr>recv_buffer := q\<rparr>" and ?db = "db\<lparr>global_number := global_number db + 1\<rparr>"
  obtain cmd where cmd: "screen_insert (global_number db) (host_screen (ScreenInfoPacket_of b)) ?c = Inr cmd"
    using screen_insert_texts [OF b(1)] by blast
  have "ready (Suc (length ss + k)) ?db"
    using Cons.prems(5) by (simp add: ready_def)
  then have x: "execute cmd ?db = Inr (True, answered [cmd] ?db)" "ready (length ss + k) (answered [cmd] ?db)"
    using ready_one by blast+
  let ?db1 = "answered [cmd] ?db"
  have "global_number ?db1 + int (length ss) < 2 ^ 31"
    using Cons.prems(6) by (simp add: answered_def)
  then obtain q' db' cmds where "screen_loop e (i + 1) (length ss) ?c ?db1 = Inr (True, ?c\<lparr>recv_buffer := q'\<rparr>, db')"
      "cq_inv q'" "cq_list q' = rest" "ready k db'" "db_sent db' = db_sent ?db1 @ map c_str cmds" "length cmds = length ss"
      "global_number db' = global_number ?db1 + int (length ss)"
    using Cons.IH [of ?c ?db1 "i + 1"] Cons.prems(1,2) q(2,3) x(2) by auto
  then show ?case
    using q(1) cmd x(1) Cons.prems(6) ScreenInfoPacket_of_mem [OF wf_host_screen [OF b(2)]]
    by (intro exI [of _ q'] exI [of _ db'] exI [of _ "cmd # cmds"])
      (simp add: payload_of_Some OnRecvScreenInfoPacket_def Let_def int_inc_def answered_def)
qed

section \<open>A whole session\<close>

fun calls :: "env \<Rightarrow> nat \<Rightarrow> Client \<Rightarrow> Database \<Rightarrow> outcome" where
  "calls e 0 c db = Inr (True, c, db)"
| "calls e (Suc n) c db =
     and_then (fsm e c db) (\<lambda>(ok, c', db'). if ok then calls e n c' db' else Inr (False, c', db'))"

lemma calls_add:
  "calls e m c db = Inr (True, c1, db1) \<Longrightarrow> calls e (m + n) c db = calls e n c1 db1"
proof (induction m arbitrary: c db)
  case (Suc m)
  then obtain c' db' where "fsm e c db = Inr (True, c', db')" "calls e m c' db' = Inr (True, c1, db1)"
    by (auto simp: and_then_eq_Inr_iff split: if_splits)
  with Suc.IH show ?case by simp
qed simp

text \<open>
  \<open>reached e k m c db c' db' n rest\<close>: \<open>k\<close> calls lead to \<open>c'\<close>, they send \<open>m\<close> commands, and \<open>rest\<close>
  remains in the buffer.
\<close>

definition reached ::
  "env \<Rightarrow> nat \<Rightarrow> nat \<Rightarrow> Client \<Rightarrow> Database \<Rightarrow> Client \<Rightarrow> Database \<Rightarrow> nat \<Rightarrow> bytes \<Rightarrow> bool" where
  "reached e k m c db c' db' n rest \<longleftrightarrow>
     calls e k c db = Inr (True, c', db') \<and> cq_inv (recv_buffer c') \<and>
     cq_list (recv_buffer c') = rest \<and> room_for n db' \<and>
     (\<exists>cmds. length cmds = m \<and> db_sent db' = db_sent db @ map c_str cmds)"

lemma reached_trans:
  assumes "reached e j m c db c1 db1 n1 rest1" "reached e k n c1 db1 c2 db2 n2 rest2"
  shows "reached e (j + k) (m + n) c db c2 db2 n2 rest2"
proof -
  obtain xs ys where "length xs = m" "db_sent db1 = db_sent db @ map c_str xs" "length ys = n"
      "db_sent db2 = db_sent db1 @ map c_str ys"
    using assms by (auto simp: reached_def)
  then have "length (xs @ ys) = m + n" "db_sent db2 = db_sent db @ map c_str (xs @ ys)"
    by simp_all
  with assms show ?thesis
    unfolding reached_def using calls_add by metis
qed

lemma reached_one:
  "fsm e c db = Inr (True, c', answered [cmd] db) \<Longrightarrow> cq_inv (recv_buffer c') \<Longrightarrow>
     cq_list (recv_buffer c') = rest \<Longrightarrow> room_for (Suc n) db \<Longrightarrow>
     reached e 1 1 c db c' (answered [cmd] db) n rest"
  using room_answered [of n db cmd] by (auto simp: reached_def answered_def intro!: exI [of _ "[cmd]"])

lemma reachedD:
  assumes "reached e k m c db c' db' n rest"
  shows "cq_inv (recv_buffer c')" "cq_list (recv_buffer c') = rest" "room_for n db'"
  using assms by (simp_all add: reached_def)

definition answer :: "u8 \<Rightarrow> bytes \<Rightarrow> bytes \<Rightarrow> bytes" where
  "answer t first second =
     PacketHeader_mem (packet_header 0x91 t (length first + length second)) @ first @ second"

definition fits :: "u8 \<Rightarrow> bytes \<Rightarrow> bytes \<Rightarrow> bool" where
  "fits t first second \<longleftrightarrow>
     struct_size t = Some (length first) \<and> 4 + length first + length second < 2 ^ 16"

lemma holds_answer:
  "cq_inv (recv_buffer c) \<Longrightarrow> cq_list (recv_buffer c) = answer t first second @ rest \<Longrightarrow>
     fits t first second \<Longrightarrow> t \<noteq> 0x0b \<Longrightarrow> holds_packet c 0x91 t first second rest"
  by (simp add: holds_packet_def framed_def answer_def fits_def)

lemma ethers_reach:
  assumes "state c = WaitEtheInfo" "es \<noteq> []" "length es \<le> 2" "ethnum c = of_nat (length es)"
    and "\<forall>x \<in> set es. fits 0x05 x []" "cq_inv (recv_buffer c)"
    and "cq_list (recv_buffer c) = concat (map (\<lambda>x. answer 0x05 x []) es) @ rest"
    and "room_for (length es + n) db"
  shows "\<exists>c' db'. reached e (length es) (length es) c db c' db' n rest \<and> state c' = WaitTermInfo \<and> tty_cnt c' = tty_cnt c"
  using assms
proof (induction es arbitrary: c db)
  case (Cons x es)
  have "holds_packet c 0x91 0x05 x [] (concat (map (\<lambda>x. answer 0x05 x []) es) @ rest)"
    using Cons.prems by (intro holds_answer) auto
  moreover have room: "room_for (Suc (length es + n)) db"
    using Cons.prems(8) by simp
  then have "ready (Suc (length es + n)) db"
    by (rule room_ready)
  ultimately obtain q cmd where q: "cq_inv q" "cq_list q = concat (map (\<lambda>x. answer 0x05 x []) es) @ rest"
    and f: "fsm e c db = Inr (True,
       (let c2 = c\<lparr>recv_buffer := q, ethnum := ethnum c - 1\<rparr> in
        if ethnum c2 > 0 then c2\<lparr>state := WaitEtheInfo\<rparr> else (push_message (plain_request 0x09) c2)\<lparr>state := WaitTermInfo\<rparr>),
       answered [cmd] db)"
    using ether_proceeds [OF Cons.prems(1), where e = e] by blast
  have r: "room_for (length es + n) (answered [cmd] db)"
    by (rule room_answered [OF room])
  have num: "ethnum c - 1 = of_nat (length es)"
    using Cons.prems(4) by simp
  show ?case
  proof (cases es)
    case Nil
    let ?c = "(push_message (plain_request 0x09) (c\<lparr>recv_buffer := q, ethnum := ethnum c - 1\<rparr>))\<lparr>state := WaitTermInfo\<rparr>"
    have "reached e 1 1 c db ?c (answered [cmd] db) n rest"
      using f q room num Nil by (intro reached_one) (simp_all add: push_message_def)
    then show ?thesis
      using Nil by (intro exI [of _ ?c] exI [of _ "answered [cmd] db"]) (simp add: push_message_def)
  next
    case (Cons y ys)
    let ?c = "c\<lparr>recv_buffer := q, ethnum := ethnum c - 1, state := WaitEtheInfo\<rparr>"
    have "length es = 1"
      using Cons.prems(3) Cons by simp
    then have pos: "ethnum c - 1 > 0"
      using num by simp
    have 1: "reached e 1 1 c db ?c (answered [cmd] db) (length es + n) (concat (map (\<lambda>x. answer 0x05 x []) es) @ rest)"
      using f q room pos by (intro reached_one) simp_all
    obtain c' db' where c': "reached e (length es) (length es) ?c (answered [cmd] db) c' db' n rest"
        "state c' = WaitTermInfo" "tty_cnt c' = tty_cnt c"
      using Cons.IH [of ?c "answered [cmd] db"] Cons.prems q r num Cons by auto
    have "reached e (length (x # es)) (length (x # es)) c db c' db' n rest"
      using reached_trans [OF 1 c'(1)] by simp
    with c' show ?thesis by blast
  qed
qed simp

text \<open>A terminal of a device, with its screens: what it sends, and what the server does with it.\<close>

type_synonym terminal = "bytes \<times> bytes list"

definition terminal_answer :: "terminal \<Rightarrow> bytes" where
  "terminal_answer t = answer 0x0b (fst t) (concat (snd t))"

definition terminal_ok :: "terminal \<Rightarrow> bool" where
  "terminal_ok t \<longleftrightarrow> length (fst t) = 32 \<and> terminal_texts (fst t) \<and>
     unat (ir_screen_num (IPTermResponsePacket_of (fst t))) = length (snd t) \<and> (\<forall>b \<in> set (snd t). screen_bytes b)"

definition terminal_calls :: "terminal \<Rightarrow> nat" where
  "terminal_calls t = (if snd t = [] then 1 else 2)"

definition terminal_commands :: "terminal \<Rightarrow> nat" where
  "terminal_commands t = 1 + length (snd t)"

lemma screens_reach:
  assumes "state c = WaitScrInfo" "scr_num c = int (length ss)" "lucky e" "\<forall>b \<in> set ss. screen_bytes b"
    and "cq_inv (recv_buffer c)" "cq_list (recv_buffer c) = concat ss @ rest" "room_for (length ss + n) db"
  shows "\<exists>c' db'. reached e 1 (length ss) c db c' db' n rest \<and> tty_cnt c' = tty_cnt c \<and>
    tty_connected c' = tty_connected c \<and> state c' = (if tty_cnt c = tty_connected c then Ended else WaitIPTermInfo)"
proof -
  have room: "ready (length ss + n) db" "global_number db + int (length ss) < 2 ^ 31"
    using assms(7) by (simp_all add: room_for_def)
  obtain q db' cmds where l: "screen_loop e 0 (length ss) c db = Inr (True, c\<lparr>recv_buffer := q\<rparr>, db')" "cq_inv q"
      "cq_list q = rest" "ready n db'" "db_sent db' = db_sent db @ map c_str cmds" "length cmds = length ss"
      "global_number db' = global_number db + int (length ss)"
    using screen_loop_proceeds [OF assms(3-6) room] by blast
  let ?s = "c\<lparr>recv_buffer := q, is_scr := False\<rparr>"
  let ?s2 = "if tty_cnt ?s = tty_connected ?s then finish_session ?s else ?s\<lparr>state := WaitIPTermInfo\<rparr>"
  have "fsm e c db = Inr (True, ?s2, db')"
    using assms(1,2) l(1) by (simp add: fsm_def on_wait_screens_def Let_def)
  moreover have "room_for n db'"
    using l(4,7) assms(7) by (simp add: room_for_def)
  ultimately have "reached e 1 (length ss) c db ?s2 db' n rest"
    using l(2,3,5,6) by (auto simp: reached_def finish_session_def push_message_def)
  then show ?thesis
    by (intro exI [of _ ?s2] exI [of _ db']) (simp add: finish_session_def push_message_def)
qed

lemma terminal_reach:
  assumes "state c = WaitIPTermInfo" "terminal_ok t" "snd t \<noteq> [] \<Longrightarrow> lucky e" "tty_cnt c < 2 ^ 31 - 1"
    and "cq_inv (recv_buffer c)" "cq_list (recv_buffer c) = terminal_answer t @ rest"
    and "room_for (terminal_commands t + n) db"
  shows "\<exists>c' db'. reached e (terminal_calls t) (terminal_commands t) c db c' db' n rest \<and>
    tty_cnt c' = tty_cnt c + 1 \<and> tty_connected c' = tty_connected c \<and>
    state c' = (if tty_cnt c + 1 = tty_connected c then Ended else WaitIPTermInfo)"
proof -
  obtain x ss where t: "t = (x, ss)"
    by fastforce
  note ok = assms(2) [unfolded t terminal_ok_def fst_conv snd_conv]
  let ?m = "32 + length (concat ss)" and ?rest = "concat ss @ rest"
  have holds: "holds_terminal c ?m x ?rest"
    using assms(5,6) ok by (simp add: t terminal_answer_def holds_terminal_def framed_def answer_def sizeof_defs)
  have room: "room_for (Suc (length ss + n)) db"
    using assms(7) by (simp add: t terminal_commands_def)
  let ?p = "host_ipterm (IPTermResponsePacket_of x)"
  obtain q cmd tty p where q: "cq_inv q" "cq_list q = ?rest"
    and f: "fsm e c db = Inr (True, after_terminal ?p p
       (c\<lparr>recv_buffer := q, current_tty := tty,
          current_scr := ir_active_screen (IPTermResponsePacket_of x), tty_cnt := tty_cnt c + 1,
          scr_num := uint (ir_screen_num (IPTermResponsePacket_of x))\<rparr>),
       answered [cmd] db)"
    by (rule terminal_proceeds [OF assms(1) holds room_ready [OF room] _ assms(4), where e = e])
      (use ok in \<open>simp_all add: that\<close>)
  define c1 where "c1 = after_terminal ?p p (c\<lparr>recv_buffer := q, current_tty := tty,
    current_scr := ir_active_screen (IPTermResponsePacket_of x), tty_cnt := tty_cnt c + 1,
    scr_num := uint (ir_screen_num (IPTermResponsePacket_of x))\<rparr>)"
  have num: "uint (ir_screen_num (IPTermResponsePacket_of x)) = int (length ss)"
    using ok by (simp add: uint_nat)
  have same: "ir_screen_num ?p = ir_screen_num (IPTermResponsePacket_of x)"
    by (simp add: host_ipterm_def)
  have c1: "recv_buffer c1 = q" "tty_cnt c1 = tty_cnt c + 1" "tty_connected c1 = tty_connected c"
      "scr_num c1 = int (length ss)"
    by (simp_all add: c1_def after_terminal_def finish_session_def push_message_def num Let_def)
  have 1: "reached e 1 1 c db c1 (answered [cmd] db) (length ss + n) ?rest"
    using f q room c1(1) by (intro reached_one) (simp_all add: c1_def)
  have zero: "ir_screen_num (IPTermResponsePacket_of x) = 0 \<longleftrightarrow> ss = []"
    using num by (auto simp: uint_0_iff)
  show ?thesis
  proof (cases "ss = []")
    case True
    then have "state c1 = (if tty_cnt c + 1 = tty_connected c then Ended else WaitIPTermInfo)"
      using zero assms(1) by (simp add: c1_def after_terminal_def same finish_session_def push_message_def)
    then show ?thesis
      using 1 c1 True by (auto simp: t terminal_calls_def terminal_commands_def)
  next
    case False
    have "state c1 = WaitScrInfo"
      using zero False by (simp add: c1_def after_terminal_def same Let_def)
    then obtain c2 db2 where 2: "reached e 1 (length ss) c1 (answered [cmd] db) c2 db2 n rest" "tty_cnt c2 = tty_cnt c1"
        "tty_connected c2 = tty_connected c1"
        "state c2 = (if tty_cnt c1 = tty_connected c1 then Ended else WaitIPTermInfo)"
      using screens_reach [OF _ c1(4), of e rest n "answered [cmd] db"] assms(3) ok False q c1(1) reachedD(3) [OF 1]
      by (auto simp: t)
    have "reached e (terminal_calls t) (terminal_commands t) c db c2 db2 n rest"
      using reached_trans [OF 1 2(1)] False by (simp add: t terminal_calls_def terminal_commands_def numeral_2_eq_2)
    then show ?thesis
      using 2(2-4) c1 by auto
  qed
qed

lemma terminals_reach:
  assumes "state c = WaitIPTermInfo" "ts \<noteq> []" "tty_cnt c + int (length ts) = tty_connected c"
    and "tty_connected c < 2 ^ 16" "\<forall>t \<in> set ts. terminal_ok t \<and> (snd t \<noteq> [] \<longrightarrow> lucky e)"
    and "cq_inv (recv_buffer c)" "cq_list (recv_buffer c) = concat (map terminal_answer ts) @ rest"
    and "room_for (sum_list (map terminal_commands ts) + n) db"
  shows "\<exists>c' db'. reached e (sum_list (map terminal_calls ts)) (sum_list (map terminal_commands ts)) c db c' db' n rest \<and>
    state c' = Ended \<and> tty_cnt c' = tty_connected c' \<and> tty_connected c' = tty_connected c"
  using assms
proof (induction ts arbitrary: c db)
  case (Cons t ts)
  let ?n = "sum_list (map terminal_commands ts) + n" and ?rest = "concat (map terminal_answer ts) @ rest"
  have "tty_cnt c < 2 ^ 31 - 1" "room_for (terminal_commands t + ?n) db"
    using Cons.prems(3,4,8) by (simp_all add: add.assoc)
  then obtain c1 db1 where 1: "reached e (terminal_calls t) (terminal_commands t) c db c1 db1 ?n ?rest"
      "tty_cnt c1 = tty_cnt c + 1" "tty_connected c1 = tty_connected c"
      "state c1 = (if tty_cnt c + 1 = tty_connected c then Ended else WaitIPTermInfo)"
    using terminal_reach [OF Cons.prems(1), of t e ?rest ?n db] Cons.prems(5-7) by auto
  show ?case
  proof (cases "ts = []")
    case True
    then show ?thesis
      using 1 Cons.prems(3) by auto
  next
    case False
    then have "state c1 = WaitIPTermInfo"
      using 1(4) Cons.prems(3) by (cases ts) simp_all
    moreover have "tty_cnt c1 + int (length ts) = tty_connected c1" "tty_connected c1 < 2 ^ 16"
      using 1(2,3) Cons.prems(3,4) by simp_all
    moreover have "\<forall>t \<in> set ts. terminal_ok t \<and> (snd t \<noteq> [] \<longrightarrow> lucky e)"
      using Cons.prems(5) by simp
    ultimately obtain c2 db2 where 2: "reached e (sum_list (map terminal_calls ts)) (sum_list (map terminal_commands ts)) c1 db1 c2 db2 n rest"
        "state c2 = Ended" "tty_cnt c2 = tty_connected c2" "tty_connected c2 = tty_connected c1"
      using Cons.IH [OF _ False _ _ _ reachedD [OF 1(1)]] by blast
    then show ?thesis
      using reached_trans [OF 1(1) 2(1)] 1(3) by auto
  qed
qed simp

text \<open>
  The answers of a device: counters, two texts, its Ethernet ports, its terminals with their screens, the last
  word.
\<close>

record device =
  dv_sysinfo :: bytes
  dv_config :: bytes
  dv_process :: bytes
  dv_ethers :: "bytes list"
  dv_terms :: bytes
  dv_terminals :: "terminal list"

definition device_answers :: "device \<Rightarrow> bytes" where
  "device_answers d =
     answer 0x02 (dv_sysinfo d) [] @ answer 0x03 [0, 0, 0, 0] (dv_config d) @
     answer 0x04 [0, 0, 0, 0] (dv_process d) @ concat (map (\<lambda>x. answer 0x05 x []) (dv_ethers d)) @
     answer 0x09 (dv_terms d) [] @ concat (map terminal_answer (dv_terminals d)) @
     answer 0xff [0, 0, 0, 0] []"

text \<open>One call for every packet, and one more for the screens of a terminal; one command for every packet and
  every screen.\<close>

definition device_calls :: "device \<Rightarrow> nat" where
  "device_calls d = 5 + length (dv_ethers d) + sum_list (map terminal_calls (dv_terminals d))"

definition device_commands :: "device \<Rightarrow> nat" where
  "device_commands d = 5 + length (dv_ethers d) + sum_list (map terminal_commands (dv_terminals d))"

text \<open>
  What the protocol asks of the device: at most two ports, as announced in its AuthResponse (with more
  the server stalls, \<open>proc_stalls\<close>); at least one terminal, as announced in its table of terminals, each with
  up to 255 screens; texts with a NUL.
\<close>

definition conforming :: "device \<Rightarrow> Client \<Rightarrow> bool" where
  "conforming d c \<longleftrightarrow>
     length (dv_sysinfo d) = 20 + 4 \<and> texty (dv_config d) \<and> texty (dv_process d) \<and>
     length (dv_config d) < 65000 \<and> length (dv_process d) < 65000 \<and>
     length (dv_ethers d) \<le> 2 \<and> ethnum c = of_nat (length (dv_ethers d)) \<and>
     (\<forall>x \<in> set (dv_ethers d). length x = 128) \<and> length (dv_terms d) = 276 \<and>
     dv_terminals d \<noteq> [] \<and>
     length (dv_terminals d) = unat (ntohs (tr_term_num (TerInfoResponsePacket_of (dv_terms d)))) \<and>
     (\<forall>t \<in> set (dv_terminals d). terminal_ok t)"

definition without_screens :: "device \<Rightarrow> bool" where
  "without_screens d \<longleftrightarrow> (\<forall>t \<in> set (dv_terminals d). snd t = [])"

lemma ports_reach:
  assumes "state c = WaitProcInfo" "conforming d c" "cq_inv (recv_buffer c)" "tty_cnt c = 0"
    and "cq_list (recv_buffer c) = answer 0x04 [0, 0, 0, 0] (dv_process d) @
      concat (map (\<lambda>x. answer 0x05 x []) (dv_ethers d)) @ rest"
    and "room_for (Suc (length (dv_ethers d) + n)) db"
  shows "\<exists>c' db'. reached e (Suc (length (dv_ethers d))) (Suc (length (dv_ethers d))) c db c' db' n rest \<and>
    state c' = WaitTermInfo \<and> tty_cnt c' = 0"
proof -
  let ?rest = "concat (map (\<lambda>x. answer 0x05 x []) (dv_ethers d)) @ rest"
  have h: "holds_packet c 0x91 0x04 [0, 0, 0, 0] (dv_process d) ?rest" "texty (dv_process d)"
    using assms(2,3,5) by (auto intro!: holds_answer simp: conforming_def fits_def struct_size_def sizeof_defs)
  obtain q cmd where q: "cq_inv q" "cq_list q = ?rest"
    and f: "fsm e c db = Inr (True, ask_ethers (c\<lparr>recv_buffer := q\<rparr>), answered [cmd] db)"
    by (rule proc_proceeds [OF assms(1) h(1) room_ready [OF assms(6)] h(2), of e]) (rule that)
  let ?c = "ask_ethers (c\<lparr>recv_buffer := q\<rparr>)"
  have 1: "reached e 1 1 c db ?c (answered [cmd] db) (length (dv_ethers d) + n) ?rest"
    using f q assms(6) by (intro reached_one) (simp_all add: ask_ethers_def push_message_def)
  have len: "length (dv_ethers d) = 0 \<or> length (dv_ethers d) = 1 \<or> length (dv_ethers d) = 2"
      "ethnum c = of_nat (length (dv_ethers d))"
    using assms(2) unfolding conforming_def by linarith+
  show ?thesis
  proof (cases "dv_ethers d = []")
    case True
    then show ?thesis
      using 1 len assms(4)
      by (intro exI [of _ ?c] exI [of _ "answered [cmd] db"]) (simp add: ask_ethers_def push_message_def)
  next
    case False
    then have "state ?c = WaitEtheInfo" "ethnum ?c = of_nat (length (dv_ethers d))" "tty_cnt ?c = 0"
        "recv_buffer ?c = q"
      using len assms(4) by (auto simp: ask_ethers_def push_message_def)
    moreover have "\<forall>x \<in> set (dv_ethers d). fits 0x05 x []" "length (dv_ethers d) \<le> 2"
      using assms(2) by (auto simp: conforming_def fits_def struct_size_def sizeof_defs)
    ultimately obtain c' db' where c': "reached e (length (dv_ethers d)) (length (dv_ethers d)) ?c (answered [cmd] db) c' db' n rest"
        "state c' = WaitTermInfo" "tty_cnt c' = 0"
      using ethers_reach [of ?c "dv_ethers d" rest n "answered [cmd] db" e] False q reachedD(3) [OF 1] by auto
    have "reached e (Suc (length (dv_ethers d))) (Suc (length (dv_ethers d))) c db c' db' n rest"
      using reached_trans [OF 1 c'(1)] by simp
    with c' show ?thesis by blast
  qed
qed

lemma terms_reach:
  fixes d :: device
  defines "k \<equiv> sum_list (map terminal_calls (dv_terminals d))" and "m \<equiv> sum_list (map terminal_commands (dv_terminals d))"
  assumes "state c = WaitTermInfo" "conforming d c0" "cq_inv (recv_buffer c)" "tty_cnt c = 0"
    and "lucky e \<or> without_screens d"
    and "cq_list (recv_buffer c) = answer 0x09 (dv_terms d) [] @ concat (map terminal_answer (dv_terminals d)) @ rest"
    and "room_for (Suc (m + n)) db"
  shows "\<exists>c' db'. reached e (Suc k) (Suc m) c db c' db' n rest \<and>
    state c' = Ended \<and> tty_cnt c' = tty_connected c' \<and> tty_connected c' = int (length (dv_terminals d))"
proof -
  let ?rest = "concat (map terminal_answer (dv_terminals d)) @ rest" and ?p = "asked_table e (dv_terms d)"
  have h: "holds_packet c 0x91 0x09 (dv_terms d) [] ?rest"
    using assms(4,5,8) by (auto intro!: holds_answer simp: conforming_def fits_def struct_size_def sizeof_defs)
  obtain q cmd where q: "cq_inv q" "cq_list q = ?rest"
    and f: "fsm e c db = Inr (True, ask_terms ?p (c\<lparr>recv_buffer := q\<rparr>), answered [cmd] db)"
    by (rule term_proceeds [OF assms(3) h room_ready [OF assms(9)], of e]) (rule that)
  let ?c = "ask_terms ?p (c\<lparr>recv_buffer := q\<rparr>)"
  have 1: "reached e 1 1 c db ?c (answered [cmd] db) (m + n) ?rest"
    using f q assms(9) by (intro reached_one) (simp_all add: ask_terms_def)
  have c: "state ?c = WaitIPTermInfo" "tty_cnt ?c = 0" "recv_buffer ?c = q"
      "tty_connected ?c = int (length (dv_terminals d))"
    using assms(4,6) by (simp_all add: ask_terms_def asked_table_def host_term_def conforming_def Let_def)
  have "length (dv_terminals d) < 2 ^ 16"
    using assms(4) unat_16_lt by (simp add: conforming_def)
  moreover have "\<forall>t \<in> set (dv_terminals d). terminal_ok t \<and> (snd t \<noteq> [] \<longrightarrow> lucky e)"
    using assms(4,7) by (auto simp: conforming_def without_screens_def)
  ultimately obtain c' db' where c': "reached e k m ?c (answered [cmd] db) c' db' n rest"
      "state c' = Ended" "tty_cnt c' = tty_connected c'" "tty_connected c' = tty_connected ?c"
    using terminals_reach [of ?c "dv_terminals d" e rest n "answered [cmd] db"] assms(4) c q reachedD(3) [OF 1]
    by (auto simp: conforming_def k_def m_def)
  have "reached e (Suc k) (Suc m) c db c' db' n rest"
    using reached_trans [OF 1 c'(1)] by simp
  with c' c(4) show ?thesis by auto
qed

lemma session_reach:
  assumes st: "state c = WaitSysInfo" and d: "conforming d c" and inv: "cq_inv (recv_buffer c)" "tty_cnt c = 0"
    and e: "lucky e \<or> without_screens d" and list: "cq_list (recv_buffer c) = device_answers d"
    and room: "room_for (device_commands d) db"
  shows "\<exists>c' db'. reached e (device_calls d) (device_commands d) c db c' db' 0 [] \<and>
    state c' = Ended \<and> tty_cnt c' = tty_connected c' \<and> tty_connected c' = int (length (dv_terminals d))"
proof -
  let ?terms = "answer 0x09 (dv_terms d) [] @ concat (map terminal_answer (dv_terminals d)) @ answer 0xff [0, 0, 0, 0] []"
  let ?ports = "answer 0x04 [0, 0, 0, 0] (dv_process d) @ concat (map (\<lambda>x. answer 0x05 x []) (dv_ethers d)) @ ?terms"
  let ?n = "length (dv_ethers d)" and ?k = "sum_list (map terminal_calls (dv_terminals d))"
    and ?m = "sum_list (map terminal_commands (dv_terminals d))"
  have r0: "room_for (Suc (Suc (Suc (?n + Suc (?m + 1))))) db"
    using room by (rule room_fewer) (simp add: device_commands_def)
  have "holds_packet c 0x91 0x02 (dv_sysinfo d) [] (answer 0x03 [0, 0, 0, 0] (dv_config d) @ ?ports)"
    using d inv(1) list
    by (intro holds_answer) (auto simp: device_answers_def conforming_def fits_def struct_size_def sizeof_defs)
  then obtain q1 cmd1 where q1: "cq_inv q1" "cq_list q1 = answer 0x03 [0, 0, 0, 0] (dv_config d) @ ?ports"
    and f1: "fsm e c db = Inr (True, (push_message (plain_request 0x03) (c\<lparr>recv_buffer := q1\<rparr>))\<lparr>state := WaitConfigInfo\<rparr>,
      answered [cmd1] db)"
    by (rule sysinfo_proceeds [OF st _ room_ready [OF r0], where e = e]) (rule that)
  let ?c1 = "(push_message (plain_request 0x03) (c\<lparr>recv_buffer := q1\<rparr>))\<lparr>state := WaitConfigInfo\<rparr>"
    and ?db1 = "answered [cmd1] db"
  have 1: "reached e 1 1 c db ?c1 ?db1 (Suc (Suc (?n + Suc (?m + 1)))) (answer 0x03 [0, 0, 0, 0] (dv_config d) @ ?ports)"
    using f1 q1 r0 by (intro reached_one) (simp_all add: push_message_def)
  have "holds_packet ?c1 0x91 0x03 [0, 0, 0, 0] (dv_config d) ?ports" "texty (dv_config d)" "state ?c1 = WaitConfigInfo"
    using d q1 by (auto intro!: holds_answer simp: push_message_def conforming_def fits_def struct_size_def sizeof_defs)
  then obtain q2 cmd2 where q2: "cq_inv q2" "cq_list q2 = ?ports"
    and f2: "fsm e ?c1 ?db1 = Inr (True, (push_message (plain_request 0x04) (?c1\<lparr>recv_buffer := q2\<rparr>))\<lparr>state := WaitProcInfo\<rparr>,
      answered [cmd2] ?db1)"
    using config_proceeds [of ?c1 "[0, 0, 0, 0]" "dv_config d" ?ports "Suc (?n + Suc (?m + 1))" ?db1 e]
      room_ready [OF reachedD(3) [OF 1]] by blast
  let ?c2 = "(push_message (plain_request 0x04) (?c1\<lparr>recv_buffer := q2\<rparr>))\<lparr>state := WaitProcInfo\<rparr>"
    and ?db2 = "answered [cmd2] ?db1"
  have 2: "reached e 1 1 ?c1 ?db1 ?c2 ?db2 (Suc (?n + Suc (?m + 1))) ?ports"
    using f2 q2 reachedD(3) [OF 1] by (intro reached_one) (simp_all add: push_message_def)
  have "conforming d ?c2" "tty_cnt ?c2 = 0"
    using d inv by (simp_all add: conforming_def push_message_def)
  then obtain c3 db3 where 3: "reached e (Suc ?n) (Suc ?n) ?c2 ?db2 c3 db3 (Suc (?m + 1)) ?terms"
      "state c3 = WaitTermInfo" "tty_cnt c3 = 0"
    using ports_reach [of ?c2 d ?terms "Suc (?m + 1)" ?db2 e] q2 reachedD(3) [OF 2] by (auto simp: push_message_def)
  then obtain c4 db4 where 4: "reached e (Suc ?k) (Suc ?m) c3 db3 c4 db4 1 (answer 0xff [0, 0, 0, 0] [])"
      "state c4 = Ended" "tty_cnt c4 = tty_connected c4" "tty_connected c4 = int (length (dv_terminals d))"
    using terms_reach [of c3 d c e "answer 0xff [0, 0, 0, 0] []" 1 db3] d e reachedD [OF 3(1)] by auto
  then have holds: "holds_packet c4 0x91 0xff [0, 0, 0, 0] [] []" and r4: "room_for (Suc 0) db4"
    by (auto simp: reached_def fits_def struct_size_def sizeof_defs intro!: holds_answer)
  then obtain q5 cmd5 where q5: "cq_inv q5" "cq_list q5 = []"
    and f5: "fsm e c4 db4 = Inr (True, c4\<lparr>recv_buffer := q5\<rparr>, answered [cmd5] db4)"
    using end_proceeds [OF 4(2) holds room_ready [OF r4], where e = e] by blast
  have 5: "reached e 1 1 c4 db4 (c4\<lparr>recv_buffer := q5\<rparr>) (answered [cmd5] db4) 0 []"
    using f5 q5 r4 by (intro reached_one) simp_all
  have "reached e (1 + (1 + (Suc ?n + (Suc ?k + 1)))) (1 + (1 + (Suc ?n + (Suc ?m + 1)))) c db
      (c4\<lparr>recv_buffer := q5\<rparr>) (answered [cmd5] db4) 0 []"
    by (rule reached_trans [OF 1 reached_trans [OF 2 reached_trans [OF 3(1) reached_trans [OF 4(1) 5]]]])
  moreover have "1 + (1 + (Suc ?n + (Suc ?k + 1))) = device_calls d" "1 + (1 + (Suc ?n + (Suc ?m + 1))) = device_commands d"
    by (simp_all add: device_calls_def device_commands_def)
  ultimately have "reached e (device_calls d) (device_commands d) c db (c4\<lparr>recv_buffer := q5\<rparr>) (answered [cmd5] db4) 0 []"
    by simp
  with 4 show ?thesis
    by (intro exI [of _ "c4\<lparr>recv_buffer := q5\<rparr>"] exI [of _ "answered [cmd5] db4"]) simp
qed

text \<open>
  C4: a session whose client has passed authentication and answers as the protocol
  asks (its texts are NUL-terminated, it has at most two Ethernet ports and at least one terminal,
  as it announced, each terminal with any number of screens up to 255) runs to its end, whatever the counters and
  texts say: one call of the state machine per packet and one per group of screens, one command to the
  database per packet and per screen, every terminal counted, and an empty buffer left. The database
  accepts each command at the first attempt. If there are screens, the condition is that the header
  the server reads them with and never fills holds the size of a screen; for a device without screens
  nothing is assumed about undefined memory.
\<close>

theorem session_completes:
  assumes "state c = WaitSysInfo" "conforming d c" "session_inv c" "lucky e \<or> without_screens d"
    and "cq_list (recv_buffer c) = device_answers d" "room_for (device_commands d) db"
  shows "\<exists>c' db' cmds. calls e (device_calls d) c db = Inr (True, c', db') \<and>
    db_sent db' = db_sent db @ map c_str cmds \<and> length cmds = device_commands d \<and> state c' = Ended \<and>
    tty_cnt c' = int (length (dv_terminals d)) \<and> tty_connected c' = tty_cnt c' \<and> cq_list (recv_buffer c') = []"
proof -
  have "cq_inv (recv_buffer c)" "tty_cnt c = 0"
    using assms(1,3) by (auto simp: session_inv_def tally_def state_order)
  then obtain c' db' where "reached e (device_calls d) (device_commands d) c db c' db' 0 []" "state c' = Ended"
      "tty_cnt c' = tty_connected c'" "tty_connected c' = int (length (dv_terminals d))"
    using session_reach [OF assms(1,2) _ _ assms(4-6)] by blast
  then show ?thesis
    by (auto simp: reached_def)
qed

definition sample_device :: device where
  "sample_device =
     \<lparr>dv_sysinfo = replicate 24 1, dv_config = [65, 66, 0], dv_process = [67, 0],
      dv_ethers = [replicate 128 0, replicate 128 1], dv_terms = replicate 275 0 @ [2],
      dv_terminals = [(replicate 32 0, []), (replicate 7 0 @ [2] @ replicate 24 0, [replicate 96 0, replicate 96 0])]\<rparr>"

lemma length_answer [simp]: "length (answer t f s) = 4 + length f + length s"
  by (simp add: answer_def sizeof_defs)

lemma mk16_two: "unat (mk16 0 2) = 2"
  by code_simp

lemma sample_device_conforming: "conforming sample_device (sample_client st bs)"
  by (simp add: mk16_two conforming_def sample_device_def texty_def terminal_texts_def sample_client_def terminal_ok_def
      screen_bytes_def TerInfoResponsePacket_of_def IPTermResponsePacket_of_def get16_def get8_def nth_append)

theorem session_completes_witness:
  "\<exists>c' db' cmds. calls (sample_env\<lparr>env_junk := (\<lambda>_. (packet_header 0 0 0)\<lparr>hd_packet_size := 96\<rparr>)\<rparr>) 10
       (sample_client WaitSysInfo (device_answers sample_device)) (sample_db 11) = Inr (True, c', db') \<and>
     db_sent db' = map c_str cmds \<and> length cmds = 11 \<and> state c' = Ended \<and> tty_cnt c' = 2"
proof -
  let ?c = "sample_client WaitSysInfo (device_answers sample_device)"
    and ?e = "sample_env\<lparr>env_junk := (\<lambda>_. (packet_header 0 0 0)\<lparr>hd_packet_size := 96\<rparr>)\<rparr>"
  have n: "device_calls sample_device = 10" "device_commands sample_device = 11" "length (dv_terminals sample_device) = 2"
      "length (device_answers sample_device) \<le> kRecvBufferSize"
    by (simp_all add: device_calls_def device_commands_def terminal_calls_def terminal_commands_def terminal_answer_def
        sample_device_def device_answers_def kRecvBufferSize_def kMaxPacketLength_def)
  have "session_inv ?c"
    using sample_client_buffer(1) [OF n(4)]
    by (simp add: session_inv_def tally_def state_order) (simp add: sample_client_def)
  moreover have "lucky ?e"
    by (simp add: lucky_def sizeof_ScreenInfoPacket_def)
  moreover have "cq_list (recv_buffer ?c) = device_answers sample_device"
    by (rule sample_client_buffer(2) [OF n(4)])
  moreover have "room_for 11 (sample_db 11)" "db_sent (sample_db 11) = []"
    by (simp_all add: room_for_def) (simp_all add: sample_db_def)
  ultimately show ?thesis
    using session_completes [of ?c sample_device ?e "sample_db 11"] sample_device_conforming n(1-3) by auto
qed

section \<open>Refusals\<close>

text \<open>With a documented database, a call that returns false has not used it.\<close>

definition untouched :: "Client \<Rightarrow> Database \<Rightarrow> bool \<Rightarrow> Client \<Rightarrow> Database \<Rightarrow> bool" where
  "untouched c db ok c' db' \<longleftrightarrow> ok \<or> db' = db \<and> send_buffer c' = send_buffer c"

lemma untouched_same [simp]: "untouched c db ok c db"
  by (simp add: untouched_def)

lemma receive_untouched:
  assumes "receive e ts c db k = Inr (ok, c', db')"
    and "\<And>p c1. k p c1 = Inr (ok, c', db') \<Longrightarrow> untouched c1 db ok c' db'"
  shows "untouched c db ok c' db'"
  using assms(1)
proof (rule receive_eq_Inr)
  fix p c1
  assume take: "take_packet (env_junk e 0) False c = Inr (p, c1)"
  then have "send_buffer c1 = send_buffer c"
    using frame_take [OF take] by auto
  then show "\<not> ok \<and> c' = c1 \<and> db' = db \<or> hd_direction (pk_header p) = 0x91 \<and>
      hd_packet_type (pk_header p) \<in> set ts \<and> k p c1 = Inr (ok, c', db') \<Longrightarrow> ?thesis"
    using assms(2) by (auto simp: untouched_def)
qed

lemma admit_documented: "documented db \<Longrightarrow> admit a p c db = Inr (ok, c', db') \<Longrightarrow> ok"
  by (auto simp: admit_def and_then_eq_Inr_iff db_step_def dest!: OnRecvAuthResponse_spec split: if_splits)

lemma got_untouched:
  assumes "documented db"
  shows "got_auth db p c = Inr (ok, c', db') \<Longrightarrow> untouched c db ok c' db'"
    "got_sysinfo db p c = Inr (ok, c', db') \<Longrightarrow> untouched c db ok c' db'"
    "got_config db p c = Inr (ok, c', db') \<Longrightarrow> untouched c db ok c' db'"
    "got_proc db p c = Inr (ok, c', db') \<Longrightarrow> untouched c db ok c' db'"
    "got_ether db p c = Inr (ok, c', db') \<Longrightarrow> untouched c db ok c' db'"
    "got_end db p c = Inr (ok, c', db') \<Longrightarrow> untouched c db ok c' db'"
proof -
  show "got_auth db p c = Inr (ok, c', db') \<Longrightarrow> untouched c db ok c' db'"
    by (auto simp: got_auth_def check_auth_def and_then_eq_Inr_iff Let_def untouched_def case_prod_beta
        split: if_splits dest!: admit_documented [OF assms])
qed (use assms in \<open>auto simp: got_sysinfo_def got_config_def got_proc_def got_ether_def got_end_def
    and_then_eq_Inr_iff Let_def untouched_def db_step_def split: if_splits
    dest!: OnRecvConfInfoResponse_spec OnRecvProcInfoResponse_spec OnRecvEtherInfoResponse_spec
      UpdateTTYConnected_spec\<close>)

lemma got_term_untouched:
  assumes "documented db"
  shows "got_term e db p c = Inr (ok, c', db') \<Longrightarrow> untouched c db ok c' db'"
    "got_ipterm db p c = Inr (ok, c', db') \<Longrightarrow> untouched c db ok c' db'"
  using assms
  by (auto simp: got_term_def got_ipterm_def and_then_eq_Inr_iff Let_def untouched_def db_step_def
      split: if_splits dest!: OnRecvTermResponse_spec OnRecvIPTermResponse_spec)

lemma screen_loop_documented:
  "screen_loop e i n c db = Inr (ok, c', db') \<Longrightarrow> documented db \<Longrightarrow> ok"
proof (induction e i n c db rule: screen_loop.induct)
  case (2 e i n c db)
  obtain p c1 bs ok1 db1 where h: "take_packet (env_junk e i) True c = Inr (p, c1)"
      "payload_of p = Inr bs"
      "OnRecvScreenInfoPacket (p\<lparr>pk_first := Some (ScreenInfoPacket_mem (host_screen (ScreenInfoPacket_of bs)))\<rparr>)
         c1 db = Inr (ok1, db1)"
    and k: "(if \<not> ok1 then Inr (False, c1, db1) else screen_loop e (i + 1) n c1 db1) = Inr (ok, c', db')"
    using "2.prems"(1) by (auto simp: and_then_eq_Inr_iff)
  have "ok1" "documented db1"
    using OnRecvScreenInfoPacket_spec [OF h(3)] "2.prems"(2) by (auto simp: db_step_def)
  then show ?case
    using "2.IH" h k by fastforce
qed simp

lemma fsm_untouched:
  assumes "fsm e c db = Inr (ok, c', db')" "documented db"
  shows "untouched c db ok c' db'"
proof (cases "state c")
  case Acceptance
  with assms(1) show ?thesis
    by (auto simp: fsm_def on_acceptance_def and_then_eq_Inr_iff untouched_def)
next
  case WaitScrInfo
  with assms(1) have "on_wait_screens e c db = Inr (ok, c', db')"
    by (simp add: fsm_def)
  then obtain c1 db1 where "screen_loop e 0 (nat (scr_num c)) c db = Inr (ok, c1, db1)"
    by (auto simp: on_wait_screens_def and_then_eq_Inr_iff Let_def split: if_splits)
  then have ok
    using screen_loop_documented assms(2) by blast
  then show ?thesis
    by (simp add: untouched_def)
qed (use assms in \<open>auto simp: fsm_def on_wait_auth_def on_wait_sysinfo_def on_wait_config_def
    on_wait_proc_def on_wait_ether_def on_wait_term_def on_wait_ipterm_def on_end_def
    intro: receive_untouched got_untouched got_term_untouched\<close>)

text \<open>
  C30: as long as the MySQL library behaves as documented (after a result set has been
  handed out there is no error text), a call of the state machine that returns false, which makes
  the transfer layer drop the client, has sent nothing to the database and queued no message; a
  client is dropped for what it sent and never because a command failed.
\<close>

theorem refusal_clean:
  assumes "documented db" "fsm e c db = Inr (False, c', db')"
  shows "db' = db \<and> send_buffer c' = send_buffer c"
  using fsm_untouched [OF assms(2,1)] by (simp add: untouched_def)

lemma sample_misdirected:
  "\<exists>c1. fsm e (sample_client WaitSysInfo (PacketHeader_mem (packet_header 0x11 0x02 24) @ replicate 24 0)) db =
     Inr (False, c1, db)"
proof -
  have "holds_packet (sample_client WaitSysInfo (PacketHeader_mem (packet_header 0x11 0x02 24) @ replicate 24 0))
      0x11 0x02 (replicate 24 0) [] []"
    using sample_holds [of "replicate 24 0" "[]" 2 "[]" WaitSysInfo "0x11"]
    by (simp add: struct_size_def sizeof_defs kRecvBufferSize_def kMaxPacketLength_def)
  from receive_holds [OF this] show ?thesis
    by (auto simp: fsm_def on_wait_sysinfo_def)
qed

theorem refusal_clean_witness:
  "\<exists>c'. fsm sample_env (sample_client WaitSysInfo (PacketHeader_mem (packet_header 0x11 0x02 24) @ replicate 24 0))
       (sample_db 3) = Inr (False, c', sample_db 3) \<and> send_buffer c' = []"
proof -
  have "documented (sample_db 3)"
    by (simp add: documented_def sample_db_def)
  moreover obtain c' where c': "fsm sample_env
      (sample_client WaitSysInfo (PacketHeader_mem (packet_header 0x11 0x02 24) @ replicate 24 0))
      (sample_db 3) = Inr (False, c', sample_db 3)"
    using sample_misdirected by blast
  ultimately have "send_buffer c' = send_buffer
      (sample_client WaitSysInfo (PacketHeader_mem (packet_header 0x11 0x02 24) @ replicate 24 0))"
    using refusal_clean by blast
  with c' show ?thesis
    by (simp add: sample_client_def)
qed

section \<open>Input that ends the process\<close>

text \<open>
  The states that take a whole packet from the buffer when called. WaitScrInfo is not among them: it
  reads screens, and does not look at a length field.
\<close>

definition receiving :: "SessionState \<Rightarrow> bool" where
  "receiving s \<longleftrightarrow> s \<in> {WaitAuth, WaitSysInfo, WaitConfigInfo, WaitProcInfo, WaitEtheInfo, WaitTermInfo,
     WaitIPTermInfo, Ended}"

lemma receiving_fault:
  assumes "receiving (state c)" "\<And>junk. dequeue_packet junk False (recv_buffer c) = Inl f"
  shows "fsm e c db = Inl f"
  using assms
  by (auto simp: receiving_def fsm_def on_wait_auth_def on_wait_sysinfo_def on_wait_config_def
      on_wait_proc_def on_wait_ether_def on_wait_term_def on_wait_ipterm_def on_end_def receive_def
      take_packet_def)

text \<open>
  C40: in every state that takes a whole packet (all but WaitScrInfo and those that read nothing), a
  packet of a type with a case of its own, other than IPTerm, whose length field is smaller than its
  header and struct together, down to zero, makes the call throw \<^verbatim>\<open>std::length_error\<close>,
  which nothing catches: the subtractions of the sizes wrap around and the rest of the packet is
  taken to be of an impossible length. No authentication is needed for this. (For an IPTerm packet the
  code replaces the length field by a constant, and the types without a case fault before.)
\<close>

theorem short_length_throws:
  assumes "receiving (state c)" "framed (recv_buffer c) h body rest"
    and "struct_size (hd_packet_type h) = Some s" "hd_packet_type h \<noteq> code_of_type IPTerm"
    and "unat (ntohs (hd_packet_size h)) < 4 + s"
  shows "fsm e c db = Inl Length_Error"
  using assms dequeue_packet_short [OF assms(2,3,5,4)] by (intro receiving_fault)

lemma sample_framed:
  assumes "4 + length body + length rest \<le> kRecvBufferSize"
  shows "framed (recv_buffer (sample_client st (PacketHeader_mem h @ body @ rest))) h body rest"
  using assms by (simp add: framed_def sample_client_buffer sizeof_PacketHeader_def)

theorem short_length_throws_witness:
  "fsm sample_env (sample_client WaitAuth (PacketHeader_mem (packet_header 0x91 0x01 0))) (sample_db 0) = Inl Length_Error"
proof -
  have size: "unat (ntohs (hd_packet_size (packet_header 0x91 0x01 0))) = 4"
    by (simp add: packet_header_def)
  show ?thesis
    using short_length_throws [OF _ sample_framed [of "[]" "[]" WaitAuth "packet_header 0x91 0x01 0"],
        where s = 112 and e = sample_env and db = "sample_db 0"] size
    by (simp add: receiving_def struct_size_def sizeof_defs packet_header_def kRecvBufferSize_def
        kMaxPacketLength_def)
qed

text \<open>
  A packet of a type for which \<^verbatim>\<open>dequeue_packet\<close> has no case makes the call
  use an uninitialised size and pointer. Among these types are 0x00 and 0x0a, which the state machine
  itself declares acceptable in WaitAuth and WaitIPTermInfo.
\<close>

theorem unknown_type_faults:
  assumes "receiving (state c)" "framed (recv_buffer c) h body rest"
    and "hd_packet_type h \<notin> {0x01, 0x02, 0x03, 0x04, 0x05, 0x09, 0x0b, 0xff}"
  shows "fsm e c db = Inl Uninitialised_Read"
proof -
  have "struct_size (hd_packet_type h) = None"
    using assms(3) by (simp add: struct_size_def)
  then show ?thesis
    using assms(1) dequeue_packet_unknown [OF assms(2)] by (intro receiving_fault)
qed

theorem unknown_type_faults_witness:
  "fsm sample_env (sample_client WaitIPTermInfo (PacketHeader_mem (packet_header 0x91 0x0a 28) @ replicate 28 0))
     (sample_db 0) = Inl Uninitialised_Read"
  using unknown_type_faults [OF _ sample_framed [of "replicate 28 0" "[]" WaitIPTermInfo "packet_header 0x91 0x0a 28"],
      where e = sample_env and db = "sample_db 0"]
  by (simp add: receiving_def packet_header_def kRecvBufferSize_def kMaxPacketLength_def)

section \<open>Stalls\<close>

text \<open>
  A device that announces three or more Ethernet ports is never asked anything again:
  its answer in WaitProcInfo is entered in the database, but no message is queued and the session
  stays in WaitProcInfo.
\<close>

theorem proc_stalls:
  assumes "state c = WaitProcInfo" "holds_packet c 0x91 0x04 bs second rest" "texty second" "ready 1 db"
    and "2 < ethnum c"
  shows "\<exists>q cmd. fsm e c db = Inr (True, c\<lparr>recv_buffer := q\<rparr>, answered [cmd] db) \<and> cq_list q = rest"
proof -
  have r: "ready (Suc 0) db"
    using assms(4) by simp
  obtain q cmd where "cq_list q = rest"
    and f: "fsm e c db = Inr (True, ask_ethers (c\<lparr>recv_buffer := q\<rparr>), answered [cmd] db)"
    by (rule proc_proceeds [OF assms(1,2) r assms(3), of e]) (rule that)
  moreover have "ethnum c \<notin> {0, 1, 2}"
    using assms(5) by auto
  ultimately show ?thesis
    by (auto simp: ask_ethers_def)
qed

theorem proc_stalls_witness:
  "\<exists>q cmd. fsm sample_env ((sample_client WaitProcInfo (answer 0x04 [0, 0, 0, 0] [67, 0]))\<lparr>ethnum := 3\<rparr>) (sample_db 1) =
     Inr (True, (sample_client WaitProcInfo (answer 0x04 [0, 0, 0, 0] [67, 0]))\<lparr>ethnum := 3, recv_buffer := q\<rparr>,
       answered [cmd] (sample_db 1))"
proof -
  let ?c = "(sample_client WaitProcInfo (answer 0x04 [0, 0, 0, 0] [67, 0]))\<lparr>ethnum := 3\<rparr>"
  have "holds_packet (sample_client WaitProcInfo (answer 0x04 [0, 0, 0, 0] [67, 0])) 0x91 0x04 [0, 0, 0, 0] [67, 0] []"
    using sample_holds [of "[0, 0, 0, 0]" "[67, 0]" 4 "[]" WaitProcInfo "0x91"]
    by (simp add: answer_def struct_size_def sizeof_defs kRecvBufferSize_def kMaxPacketLength_def)
  then have h: "holds_packet ?c 0x91 0x04 [0, 0, 0, 0] [67, 0] []"
    by (simp add: holds_packet_def)
  show ?thesis
    using proc_stalls [OF _ h, of "sample_db 1" sample_env] by (auto simp: texty_def)
qed

end
