(* ===== verification/Client_Terminals.thy ===== *)
theory Client_Terminals
  imports Handshake Session_Progress "HOL-Library.Multiset"
begin

text \<open>
  The table of terminals: how the client fills it, whether its loop over random positions ends,
  and what the server makes of it.
\<close>

section \<open>The loop over random positions\<close>

text \<open>\<open>terms_map m k\<close>: a table without dumb terminals and with \<open>k\<close> IP terminals.\<close>

definition terms_map :: "bytes \<Rightarrow> nat \<Rightarrow> bool" where
  "terms_map m k \<longleftrightarrow> length m = 270 \<and> take 16 m = replicate 16 0 \<and> set m \<subseteq> {0, 1} \<and>
     count (mset (drop 16 m)) 1 = k"

text \<open>Every position is drawn again and again.\<close>

definition plenty :: "(nat \<Rightarrow> nat) \<Rightarrow> bool" where
  "plenty rs \<longleftrightarrow> (\<forall>p < 254. \<forall>k. \<exists>i \<ge> k. rs i mod 254 = p)"

lemma plenty_shift:
  assumes "plenty rs"
  shows "plenty (\<lambda>i. rs (i + j))"
  unfolding plenty_def
proof (intro allI impI)
  fix p k :: nat
  assume "p < 254"
  then obtain i where "k + j \<le> i" "rs i mod 254 = p"
    using assms unfolding plenty_def by blast
  then show "\<exists>i \<ge> k. rs (i + j) mod 254 = p"
    by (intro exI [of _ "i - j"]) simp
qed

lemma terms_map_empty: "terms_map (replicate 270 0) 0"
  by (simp add: terms_map_def)

text \<open>What the loop returns, if it returns, is the first free position drawn.\<close>

lemma draw_free_result:
  assumes "draw_free m rs = Some y"
  shows "\<exists>j. y = (rs j mod 254, \<lambda>i. rs (i + Suc j)) \<and> m ! (16 + rs j mod 254) \<noteq> 1"
  using assms
proof (rule draw_free.raw_induct [rotated])
  fix df m rs y
  assume 1: "\<And>m rs y. df m rs = Some y \<Longrightarrow>
      \<exists>j. y = (rs j mod 254, \<lambda>i. rs (i + Suc j)) \<and> m ! (16 + rs j mod 254) \<noteq> 1"
    "(if m ! (16 + rs 0 mod 254) = 1 then df m (\<lambda>i. rs (Suc i))
      else Some (rs 0 mod 254, \<lambda>i. rs (Suc i))) = Some y"
  show "\<exists>j. y = (rs j mod 254, \<lambda>i. rs (i + Suc j)) \<and> m ! (16 + rs j mod 254) \<noteq> 1"
  proof (cases "m ! (16 + rs 0 mod 254) = 1")
    case True
    then have "df m (\<lambda>i. rs (Suc i)) = Some y"
      using 1(2) by simp
    then obtain j where "y = (rs (Suc j) mod 254, \<lambda>i. rs (Suc (i + Suc j)))" "m ! (16 + rs (Suc j) mod 254) \<noteq> 1"
      using 1(1) by blast
    then show ?thesis
      by (intro exI [of _ "Suc j"]) simp
  next
    case False
    then show ?thesis
      using 1(2) by (intro exI [of _ 0]) auto
  qed
qed

lemma draw_free_returns: "m ! (16 + rs i mod 254) \<noteq> 1 \<Longrightarrow> \<exists>p rs'. draw_free m rs = Some (p, rs')"
proof (induction i arbitrary: rs)
  case 0
  then show ?case
    by (subst draw_free.simps) auto
next
  case (Suc i)
  then show ?case
    using Suc.IH [of "\<lambda>i. rs (Suc i)"] by (subst draw_free.simps) auto
qed

lemma terms_map_count:
  assumes "terms_map m k"
  shows "k \<le> 254" "k = 254 \<Longrightarrow> p < 254 \<Longrightarrow> m ! (16 + p) = 1" "k < 254 \<Longrightarrow> \<exists>p < 254. m ! (16 + p) \<noteq> 1"
proof -
  let ?xs = "drop 16 m"
  have len: "length ?xs = 254" and k: "k = length (filter ((=) 1) ?xs)"
    using assms by (simp_all add: terms_map_def count_mset count_list_eq_length_filter)
  show "k \<le> 254"
    using len k length_filter_le [of "(=) 1" ?xs] by simp
  show "m ! (16 + p) = 1" if "k = 254" "p < 254"
  proof -
    have "length (filter ((=) 1) ?xs) = length ?xs"
      using that(1) len k by simp
    then have "\<forall>x \<in> set ?xs. 1 = x"
      using length_filter_less [of _ ?xs "(=) 1"] by (metis order_less_irrefl)
    moreover have "?xs ! p \<in> set ?xs"
      using that(2) len by (intro nth_mem) simp
    ultimately show ?thesis
      using that(2) len by (metis (no_types) add.commute le_add2 less_diff_conv length_drop nth_drop
          nat_less_le not_le diff_is_0_eq' zero_neq_numeral)
  qed
  show "\<exists>p < 254. m ! (16 + p) \<noteq> 1" if "k < 254"
  proof -
    have "\<exists>x \<in> set ?xs. x \<noteq> 1"
    proof (rule ccontr)
      assume "\<not> ?thesis"
      then have "filter ((=) 1) ?xs = ?xs"
        by (auto simp: filter_id_conv)
      then show False
        using that len k by simp
    qed
    then obtain p where "p < 254" "?xs ! p \<noteq> 1"
      using len by (auto simp: in_set_conv_nth)
    then show ?thesis
      using len by (intro exI [of _ p]) simp
  qed
qed

lemma terms_map_set:
  assumes "terms_map m k" "p < 254" "m ! (16 + p) \<noteq> 1"
  shows "terms_map (m[16 + p := 1]) (Suc k)"
proof -
  have len: "length m = 270"
    using assms(1) by (simp add: terms_map_def)
  then have "drop 16 m ! p = m ! (16 + p)"
    by simp
  then have "count (mset ((drop 16 m)[p := 1])) 1 = Suc k"
    using assms len by (simp add: mset_update terms_map_def)
  moreover have "drop 16 (m[16 + p := 1]) = (drop 16 m)[p := 1]"
    by (simp add: drop_update_swap)
  moreover have "set (m[16 + p := 1]) \<subseteq> {0, 1}"
    using assms(1) set_update_subset_insert [of m "16 + p" 1] by (auto simp: terms_map_def)
  ultimately show ?thesis
    using assms(1) by (simp add: terms_map_def)
qed

lemma place_terms_spec:
  "terms_map m k \<Longrightarrow> plenty rs \<Longrightarrow>
   if k + n \<le> 254 then \<exists>m' rs'. place_terms n m rs = Some (m', rs') \<and> terms_map m' (k + n) \<and> plenty rs'
   else place_terms n m rs = None"
proof (induction n arbitrary: m k rs)
  case (Suc n)
  show ?case
  proof (cases "k < 254")
    case True
    then obtain p i where "p < 254" "m ! (16 + p) \<noteq> 1" "rs i mod 254 = p"
      using terms_map_count(3) [OF Suc.prems(1)] Suc.prems(2) unfolding plenty_def by blast
    then obtain q rs' where d: "draw_free m rs = Some (q, rs')"
      using draw_free_returns [of m rs i] by auto
    then obtain j where "q = rs j mod 254" "rs' = (\<lambda>i. rs (i + Suc j))" "m ! (16 + q) \<noteq> 1"
      using draw_free_result by blast
    then have "terms_map (m[16 + q := 1]) (Suc k)" "plenty rs'"
      using terms_map_set [OF Suc.prems(1), of q] plenty_shift [OF Suc.prems(2), of "Suc j"] by simp_all
    then show ?thesis
      using Suc.IH [of "m[16 + q := 1]" "Suc k" rs'] d by (simp split: if_splits)
  next
    case False
    then have "k = 254"
      using terms_map_count(1) [OF Suc.prems(1)] by simp
    have "draw_free m rs = None"
    proof (rule ccontr)
      assume "draw_free m rs \<noteq> None"
      then obtain q rs' where "draw_free m rs = Some (q, rs')"
        by auto
      then obtain j where "q = rs j mod 254" "m ! (16 + q) \<noteq> 1"
        using draw_free_result by blast
      then show False
        using terms_map_count(2) [OF Suc.prems(1) \<open>k = 254\<close>, of q] by simp
    qed
    then show ?thesis
      using \<open>k = 254\<close> by simp
  qed
qed (auto dest: terms_map_count(1))

text \<open>Whatever is drawn: a call that returns has placed as many terminals as it was asked to.\<close>

lemma place_terms_sound:
  "place_terms n m rs = Some (m', rs') \<Longrightarrow> terms_map m k \<Longrightarrow> terms_map m' (k + n)"
proof (induction n arbitrary: m k rs)
  case (Suc n)
  then obtain y where d: "draw_free m rs = Some y" and r: "place_terms n (m[16 + fst y := 1]) (snd y) = Some (m', rs')"
    by (auto split: option.splits)
  then have "fst y < 254" "m ! (16 + fst y) \<noteq> 1"
    using draw_free_result by fastforce+
  then show ?case
    using Suc.IH [OF r, of "Suc k"] terms_map_set [OF Suc.prems(2)] by simp
qed simp

text \<open>
  C8: as long as the generator keeps producing every position, the loop that
  scatters the terminals ends with exactly as many distinct ones set as were asked for, up to all
  254 of them, and does not end for more.
\<close>

theorem terminals_placed:
  assumes "plenty rs"
  shows "if n \<le> 254 then \<exists>m rs'. place_terms n (replicate 270 0) rs = Some (m, rs') \<and> terms_map m n
    else place_terms n (replicate 270 0) rs = None"
  using place_terms_spec [OF terms_map_empty assms, of n] by (auto split: if_splits)

lemma plenty_count: "plenty (\<lambda>i. i)"
  unfolding plenty_def
proof (intro allI impI)
  fix p k :: nat
  assume "p < 254"
  then show "\<exists>i \<ge> k. i mod 254 = p"
    by (intro exI [of _ "p + 254 * k"]) simp
qed

theorem terminals_placed_witness:
  "(\<exists>m rs'. place_terms 254 (replicate 270 0) (\<lambda>i. i) = Some (m, rs') \<and> terms_map m 254) \<and>
   place_terms 255 (replicate 270 0) (\<lambda>i. i) = None"
  using terminals_placed [OF plenty_count, of 254] terminals_placed [OF plenty_count, of 255] by simp

section \<open>The table at the server\<close>

definition table_bytes :: "bytes \<Rightarrow> u16 \<Rightarrow> bytes" where
  "table_bytes m num = [0, 0] @ mem16 (htons 272) @ m @ mem16 (htons num)"

lemma push_terminals_eq:
  assumes "length m = 270"
  shows "push_terminals (begin_message 0x09) m num = answer 0x09 (table_bytes m num) []"
  using assms by (simp add: push_terminals_def begin_message_eq push_simps answer_def table_bytes_def header_mem
      mem16_0)

lemma table_read:
  assumes "terms_map m k"
  shows "tr_dumb_term (host_term (TerInfoResponsePacket_of (table_bytes m num))) = replicate 16 0"
    "tr_ip_term (host_term (TerInfoResponsePacket_of (table_bytes m num))) = drop 16 m"
    "tr_term_num (host_term (TerInfoResponsePacket_of (table_bytes m num))) = num"
  using assms
  by (simp_all add: terms_map_def host_term_def TerInfoResponsePacket_of_def table_bytes_def layout_simps
      get_bytes_def)

lemma term_loop_zeros: "term_loop t i (replicate n 0) = []"
  by (induction n arbitrary: i) simp_all

text \<open>The requests the server sends are those for the set positions, in order.\<close>

lemma term_loop_set: "term_loop t i bs = map (\<lambda>j. term_request t (i + j)) (filter (\<lambda>j. bs ! j \<noteq> 0) [0..<length bs])"
proof (induction t i bs rule: term_loop.induct)
  case (2 t i b bs)
  have "[0..<length (b # bs)] = 0 # map Suc [0..<length bs]"
    by (simp add: upt_conv_Cons map_Suc_upt del: upt_Suc)
  with 2 show ?case
    by (simp add: filter_map comp_def del: upt_Suc)
qed simp

lemma length_term_loop:
  assumes "set bs \<subseteq> {0, 1}"
  shows "length (term_loop t i bs) = count (mset bs) 1"
  using assms by (induction t i bs rule: term_loop.induct) auto

lemma int_unat: "int (unat w) = uint w"
  unfolding unat_eq_nat_uint by simp

lemma uint_pos32: "0 \<le> i \<Longrightarrow> i < 2 ^ 31 \<Longrightarrow> uint (word_of_int i :: u32) = i"
  unfolding uint_word_of_int_eq by (rule take_bit_int_eq_self) simp_all

lemma uint_neg32:
  assumes "- (2 ^ 31) \<le> i" "i < (0 :: int)"
  shows "uint (word_of_int i :: u32) = i + 2 ^ 32"
proof -
  have "uint (word_of_int i :: u32) = i mod 2 ^ 32"
    unfolding uint_word_of_int_eq take_bit_eq_mod by simp
  also have "\<dots> = (i + 2 ^ 32) mod 2 ^ 32"
    by (rule mod_add_self2 [symmetric])
  also have "\<dots> = i + 2 ^ 32"
    using assms by (intro mod_pos_pos_trivial) simp_all
  finally show ?thesis .
qed
text \<open>What the packing of the table amounts to.\<close>

lemma terminals_packed:
  assumes "client_pack_message 0x09 opts c w = Inr (True, c', w')"
  obtains m k r where "send_message c' = answer 0x09 (table_bytes m (of_nat (k + r))) []" "terms_map m k"
    "unat (terCount c') = k" "r < 270 - k"
    "\<exists>w1 rs. terminal_total opts w = Inr (int k, w1) \<and>
       place_terms k (replicate 270 0) (w_rand (seed_by_time w1)) = Some (m, rs) \<and> r = rs 0 mod (270 - k)"
proof -
  obtain bs c1 where p: "pack_terminals opts c (begin_message 0x09) w = Inr (bs, c1, w')"
      and c': "c' = c1\<lparr>send_message := bs\<rparr>"
    using assms by (auto simp: client_pack_message_def and_then_eq_Inr_iff stored_eq_Inr)
  obtain total w1 where t: "terminal_total opts w = Inr (total, w1)"
    and rest: "(let c1 = c\<lparr>terCount := word_of_int (total - 0)\<rparr>; w2 = seed_by_time w1
      in case place_terms (unat (terCount c1)) (replicate 270 0) (w_rand w2) of
           None \<Rightarrow> Inl Endless
         | Some (ttyInfoMap, rs) \<Rightarrow>
             and_then (as_int (270 - total)) (\<lambda>k.
             and_then (rand_mod k (w2\<lparr>w_rand := rs\<rparr>)) (\<lambda>(r, w3).
             and_then (as_int (total + r)) (\<lambda>num.
             Inr (push_terminals (begin_message 0x09) ttyInfoMap (word_of_int num), c1, w3))))) = Inr (bs, c1, w')"
    using p unfolding pack_terminals_def and_then_eq_Inr_iff by auto
  have i: "- (2 ^ 31) \<le> total" "total < 2 ^ 31"
    using t by (auto simp: terminal_total_def rand_between_def and_then_eq_Inr_iff as_int_eq_Inr)
  obtain m rs where m: "place_terms (unat (word_of_int total :: u32)) (replicate 270 0) (w_rand (seed_by_time w1)) = Some (m, rs)"
    using rest by (auto simp: Let_def split: option.splits)
  then obtain i where r: "i = int (rs 0) mod \<bar>270 - total\<bar>"
    and bs: "bs = push_terminals (begin_message 0x09) m (word_of_int (total + i))"
    and c1: "c1 = c\<lparr>terCount := word_of_int total\<rparr>"
    using rest by (auto simp: Let_def and_then_eq_Inr_iff as_int_eq_Inr rand_mod_eq_Inr)
  let ?k = "unat (word_of_int total :: u32)"
  have map: "terms_map m ?k"
    using place_terms_sound [OF m terms_map_empty] by simp
  then have k: "?k \<le> 254"
    by (rule terms_map_count(1))
  have u: "int ?k = uint (word_of_int total :: u32)"
    by (rule int_unat)
  have "total = int ?k"
  proof (cases "0 \<le> total")
    case True
    then have "uint (word_of_int total :: u32) = total"
      using i by (intro uint_pos32) simp_all
    then show ?thesis
      using u by simp
  next
    case False
    then have "uint (word_of_int total :: u32) = total + 2 ^ 32"
      using i(1) by (intro uint_neg32) simp_all
    moreover have "254 < total + 2 ^ 32"
      using i(1) by simp
    ultimately show ?thesis
      using u k by linarith
  qed
  note tot = this
  moreover from this have "0 < 270 - total"
    using k by linarith
  then have "0 \<le> i" "i < 270 - total"
    using r pos_mod_bound [of "270 - total" "int (rs 0)"] by simp_all
  moreover have "nat i = rs 0 mod (270 - ?k)"
  proof -
    have "\<bar>270 - total\<bar> = 270 - int ?k"
      using \<open>0 < 270 - total\<close> tot by linarith
    also have "\<dots> = int (270 - ?k)"
      using k by simp
    finally have "\<bar>270 - total\<bar> = int (270 - ?k)" .
    then show ?thesis
      using r by (simp flip: zmod_int)
  qed
  then have drawn: "\<exists>w1 rs. terminal_total opts w = Inr (int ?k, w1) \<and>
       place_terms ?k (replicate 270 0) (w_rand (seed_by_time w1)) = Some (m, rs) \<and> nat i = rs 0 mod (270 - ?k)"
    using t m tot by (intro exI [of _ w1] exI [of _ rs]) simp
  ultimately have sum: "total + i = int (?k + nat i)" and less: "nat i < 270 - ?k"
    by (simp, linarith)
  have "word_of_int (total + i) = (of_nat (?k + nat i) :: u16)"
    unfolding sum by (rule of_int_of_nat_eq)
  moreover have "length m = 270"
    using map by (simp add: terms_map_def)
  ultimately have "send_message c' = answer 0x09 (table_bytes m (of_nat (?k + nat i))) []"
    using bs c' push_terminals_eq by (simp del: of_nat_add)
  moreover have "unat (terCount c') = ?k"
    using c' c1 by simp
  ultimately show thesis
    using that map less drawn by blast
qed

text \<open>
  C9: what becomes of the client's table at the server. The client draws a number \<open>k\<close> from the
  range of its options, marks \<open>k\<close> distinct positions of the table, and writes into its last field not
  \<open>k\<close> but \<open>k\<close> plus the next number drawn modulo \<open>270 - k\<close>. The server takes that sum for the number of
  terminals it will hear of. It asks for the terminals in the table as it reads it after the struct was
  freed, whatever is there then; if the memory still holds the table, these are exactly the marked
  positions, in order. So whenever the number drawn last is not a multiple of \<open>270 - k\<close>, the session waits for
  answers to requests it has never sent.
\<close>

theorem terminals_announced:
  assumes "client_pack_message 0x09 opts c w = Inr (True, c', w')"
    and "state s = WaitTermInfo" "cq_inv (recv_buffer s)" "cq_list (recv_buffer s) = send_message c' @ rest"
    and "ready 1 db"
  shows "\<exists>k w1 m rs table s' db'. terminal_total opts w = Inr (int k, w1) \<and> unat (terCount c') = k \<and>
    place_terms k (replicate 270 0) (w_rand (seed_by_time w1)) = Some (m, rs) \<and> terms_map m k \<and>
    fsm e s db = Inr (True, s', db') \<and> state s' = WaitIPTermInfo \<and> cq_list (recv_buffer s') = rest \<and>
    tty_connected s' = int (k + rs 0 mod (270 - k)) \<and>
    table = asked_table e (drop 4 (send_message c')) \<and>
    send_buffer s' = send_buffer s @ term_loop 0x0a 0 (tr_dumb_term table) @ term_loop 0x0b 0 (tr_ip_term table) \<and>
    (frees_lazily e \<longrightarrow>
      send_buffer s' = send_buffer s @ map (term_request 0x0b) (filter (\<lambda>i. m ! (16 + i) \<noteq> 0) [0..<254]))"
proof -
  obtain m k r where m: "send_message c' = answer 0x09 (table_bytes m (of_nat (k + r))) []" "terms_map m k"
      "unat (terCount c') = k" "r < 270 - k"
      "\<exists>w1 rs. terminal_total opts w = Inr (int k, w1) \<and>
         place_terms k (replicate 270 0) (w_rand (seed_by_time w1)) = Some (m, rs) \<and> r = rs 0 mod (270 - k)"
    by (rule terminals_packed [OF assms(1)])
  then obtain w1 rs where d: "terminal_total opts w = Inr (int k, w1)"
      "place_terms k (replicate 270 0) (w_rand (seed_by_time w1)) = Some (m, rs)" "r = rs 0 mod (270 - k)"
    by blast
  let ?bs = "table_bytes m (of_nat (k + r))"
  have len: "length ?bs = sizeof_TerInfoResponsePacket" "length m = 270"
    using m(2) by (simp_all add: table_bytes_def terms_map_def sizeof_defs)
  then have "fits 0x09 ?bs []"
    by (simp add: fits_def struct_size_def) (simp add: sizeof_defs)
  then have holds: "holds_packet s 0x91 0x09 ?bs [] rest"
    using assms(3,4) m(1) by (intro holds_answer) simp_all
  then obtain q cmd where q: "cq_list q = rest"
    and f: "fsm e s db = Inr (True, ask_terms (asked_table e ?bs) (s\<lparr>recv_buffer := q\<rparr>), answered [cmd] db)"
    using term_proceeds [OF assms(2) holds assms(5) [unfolded One_nat_def]] by blast
  let ?s = "ask_terms (asked_table e ?bs) (s\<lparr>recv_buffer := q\<rparr>)"
  have "uint (of_nat (k + r) :: u16) = int (k + r)"
    unfolding int_unat [symmetric] by (subst unat_of_nat16) (use m(4) in simp_all)
  then have "tty_connected ?s = int (k + r)"
    by (simp add: ask_terms_def asked_table_def Let_def table_read [OF m(2)])
  moreover have "drop 4 (send_message c') = ?bs"
    using m(1) by (simp add: answer_def sizeof_PacketHeader_def)
  moreover have "send_buffer ?s = send_buffer s @ map (term_request 0x0b) (filter (\<lambda>i. m ! (16 + i) \<noteq> 0) [0..<254])"
    if "frees_lazily e"
    unfolding asked_table_lazy [OF that len(1)] ask_terms_def table_read [OF m(2)] term_loop_zeros
    using len(2) by (simp add: term_loop_set)
  ultimately show ?thesis
    using f q d m(2,3)
    by (intro exI [of _ k] exI [of _ w1] exI [of _ m] exI [of _ rs] exI [of _ "asked_table e ?bs"] exI [of _ ?s]
        exI [of _ "answered [cmd] db"]) (simp add: ask_terms_def)
qed

section \<open>Options that suit the client\<close>

text \<open>What packing a table needs: options that allow it, and a generator that keeps producing.\<close>

definition good_range :: "Options \<Rightarrow> string \<Rightarrow> string \<Rightarrow> int \<Rightarrow> int \<Rightarrow> bool" where
  "good_range opts min_key max_key lowest highest \<longleftrightarrow>
     (\<exists>lo hi. stoi_at opts min_key = Inr lo \<and> stoi_at opts max_key = Inr hi \<and>
        lowest \<le> lo \<and> lo \<le> hi \<and> hi \<le> highest)"

lemma rand_between_returns:
  assumes "0 \<le> lo" "lo \<le> hi" "hi \<le> 254"
  obtains n where "rand_between lo hi w = Inr (n, snd (call_rand w))" "lo \<le> n" "n \<le> hi"
proof -
  define r where "r = int (w_rand w 0) mod (hi - lo + 1)"
  have "0 \<le> r" "r < hi - lo + 1"
    unfolding r_def using assms by (intro pos_mod_sign pos_mod_bound; linarith)+
  then have "0 \<le> r" "lo + r \<le> hi"
    by linarith+
  moreover from this have "rand_between lo hi w = Inr (lo + r, snd (call_rand w))"
    using assms by (simp add: rand_between_def as_int_def rand_mod_def call_rand_def flip: r_def)
  ultimately show thesis
    using that by simp
qed

lemma seed_by_time_gen: "w_rand (seed_by_time w) = w_gen w (w_clock w 0)" "w_gen (seed_by_time w) = w_gen w"
  by (simp_all add: seed_by_time_def call_time_def call_srand_def)

lemma terminals_return:
  assumes "good_range opts min_terms_key max_terms_key 0 254" "\<forall>s. plenty (w_gen w s)"
  shows "\<exists>c' w'. client_pack_message 0x09 opts c w = Inr (True, c', w')"
proof -
  obtain lo hi where lh: "stoi_at opts min_terms_key = Inr lo" "stoi_at opts max_terms_key = Inr hi"
      "0 \<le> lo" "lo \<le> hi" "hi \<le> 254"
    using assms(1) by (auto simp: good_range_def)
  then obtain n where "rand_between lo hi w = Inr (n, snd (call_rand w))" "lo \<le> n" "n \<le> hi"
    using rand_between_returns [of lo hi w] by auto
  then have t: "terminal_total opts w = Inr (n, snd (call_rand w))" and n: "0 \<le> n" "n \<le> 254"
    using lh by (simp_all add: terminal_total_def)
  let ?w1 = "seed_by_time (snd (call_rand w))"
  have "plenty (w_rand ?w1)"
    using assms(2) by (simp add: seed_by_time_gen call_rand_def)
  moreover have "unat (word_of_int n :: u32) \<le> 254"
    using n uint_pos32 [of n] by (simp add: unat_eq_nat_uint)
  ultimately obtain m rs where
    "place_terms (unat (word_of_int n :: u32)) (replicate 270 0) (w_rand ?w1) = Some (m, rs)"
    using place_terms_spec [OF terms_map_empty, of "w_rand ?w1" "unat (word_of_int n :: u32)"]
    by (auto split: if_splits)
  moreover have "n + int (rs 0) mod (270 - n) < 270"
    using n pos_mod_bound [of "270 - n" "int (rs 0)"] by linarith
  moreover have "- 2147483648 \<le> n + int (rs 0) mod (270 - n)"
    using n pos_mod_sign [of "270 - n" "int (rs 0)"] by linarith
  ultimately have "\<exists>bs c1 w'. pack_terminals opts c (begin_message 0x09) w = Inr (bs, c1, w')"
    using t n by (simp add: pack_terminals_def Let_def as_int_def rand_mod_def call_rand_def)
  then show ?thesis
    by (auto simp: client_pack_message_def stored_def)
qed

definition one_of_each :: Options where
  "one_of_each = (\<lambda>_. Some ''1'')"

lemma one_of_each_range: "lowest \<le> 1 \<Longrightarrow> 1 \<le> highest \<Longrightarrow> good_range one_of_each k1 k2 lowest highest"
proof -
  have "stoi ''1'' = Inr 1"
    by code_simp
  then show "lowest \<le> 1 \<Longrightarrow> 1 \<le> highest \<Longrightarrow> ?thesis"
    by (simp add: good_range_def stoi_at_def one_of_each_def)
qed

definition counting_world :: world where
  "counting_world = sample_world\<lparr>w_gen := (\<lambda>_ i. i)\<rparr>"

theorem terminals_announced_witness:
  "\<exists>c' w' k (m :: bytes) (rs :: nat \<Rightarrow> nat) s' db'. client_pack_message 0x09 one_of_each sample_ts counting_world = Inr (True, c', w') \<and>
     fsm sample_env (sample_client WaitTermInfo (send_message c')) (sample_db 1) = Inr (True, s', db') \<and>
     unat (terCount c') = k \<and> tty_connected s' = int (k + rs 0 mod (270 - k)) \<and>
     send_buffer s' = map (term_request 0x0b) (filter (\<lambda>i. m ! (16 + i) \<noteq> 0) [0..<254])"
proof -
  have "\<forall>s. plenty (w_gen counting_world s)"
    by (simp add: counting_world_def plenty_count)
  then obtain c' w' where p: "client_pack_message 0x09 one_of_each sample_ts counting_world = Inr (True, c', w')"
    using terminals_return [OF one_of_each_range, where c = sample_ts and w = counting_world] by auto
  then obtain m k r where "send_message c' = answer 0x09 (table_bytes m (of_nat (k + r))) []" "terms_map m k"
    by (rule terminals_packed)
  then have len: "length (send_message c') \<le> kRecvBufferSize"
    by (simp add: table_bytes_def terms_map_def kRecvBufferSize_def kMaxPacketLength_def)
  let ?s = "sample_client WaitTermInfo (send_message c')"
  have s: "state ?s = WaitTermInfo" "send_buffer ?s = []" "frees_lazily sample_env"
    by (simp_all add: sample_client_def frees_lazily_def sample_env_def)
  have "cq_list (recv_buffer ?s) = send_message c' @ []"
    using sample_client_buffer(2) [OF len] by simp
  note told = terminals_announced [OF p s(1) sample_client_buffer(1) [OF len] this sample_db_ready, of sample_env]
  obtain k w1 m rs table s' db' where "terminal_total one_of_each counting_world = Inr (int k, w1)"
      and k: "unat (terCount c') = k"
    and "place_terms k (replicate 270 0) (w_rand (seed_by_time w1)) = Some (m, rs)" "terms_map m k"
    and f: "fsm sample_env ?s (sample_db 1) = Inr (True, s', db')" and "state s' = WaitIPTermInfo"
      "cq_list (recv_buffer s') = []" and n: "tty_connected s' = int (k + rs 0 mod (270 - k))"
    and "table = asked_table sample_env (drop 4 (send_message c'))"
      "send_buffer s' = send_buffer ?s @ term_loop 0x0a 0 (tr_dumb_term table) @ term_loop 0x0b 0 (tr_ip_term table)"
    and lazy: "frees_lazily sample_env \<longrightarrow>
      send_buffer s' = send_buffer ?s @ map (term_request 0x0b) (filter (\<lambda>i. m ! (16 + i) \<noteq> 0) [0..<254])"
    using told by (elim exE conjE) (rule that)
  have "send_buffer s' = map (term_request 0x0b) (filter (\<lambda>i. m ! (16 + i) \<noteq> 0) [0..<254])"
    using lazy s(2,3) by simp
  with p k f n show ?thesis
    by (intro exI [of _ c'] exI [of _ w'] exI [of _ k] exI [of _ m] exI [of _ rs] exI [of _ s'] exI [of _ db'] conjI)
qed

end
