(* ===== verification/Client_Answers.thy ===== *)
theory Client_Answers
  imports Client_Terminals
begin

text \<open>
  What the client answers. Given suitable surroundings, it answers every request it has a case for
  with a message of the right form, and a conversation ends; the requests it has no case for, a
  missing file and a long one make it fault.
\<close>

section \<open>Messages of the right form\<close>

text \<open>Eight bytes of head and \<open>n\<close> of data, whose number the head tells; \<open>f\<close> is the middle field.\<close>

definition client_message :: "u8 \<Rightarrow> u16 \<Rightarrow> bytes \<Rightarrow> bytes" where
  "client_message t f body =
     ([0x91, t] @ mem16 (htons (8 + of_nat (length body))) @ mem16 (htons f) @
      mem16 (htons (of_nat (length body)))) @ body"

lemma client_message_sound:
  assumes "length body \<le> buffer_size"
  shows "sound_message (client_message t f body)"
  unfolding client_message_def
  by (rule sound_message_head [OF _ _ refl assms]) (simp_all add: layout_simps)

text \<open>\<open>frame_of t body\<close>: a packet of a device as the server reads it, with the length of the whole in its header.\<close>

definition frame_of :: "u8 \<Rightarrow> bytes \<Rightarrow> bytes" where
  "frame_of t body = PacketHeader_mem (packet_header 0x91 t (length body)) @ body"

lemma client_frame:
  "client_message t f body = frame_of t (mem16 (htons f) @ mem16 (htons (of_nat (length body))) @ body)"
  by (simp add: client_message_def frame_of_def header_mem add.commute)

lemma push_simple:
  "pack_sysinfo (begin_message t) = client_message t 0 (drop 8 (pack_sysinfo (begin_message t)))"
  "pack_print_queue (begin_message t) = client_message t 0 [0]"
  "pack_end (begin_message t) = client_message t 0 []"
  by (simp_all add: pack_sysinfo_def pack_print_queue_def pack_end_def Let_def begin_message_eq push_simps
      client_message_def)

lemma table_message:
  "answer 0x09 (table_bytes m n) [] = client_message 0x09 0 (m @ mem16 (htons n))" if "length m = 270"
  using that by (simp add: answer_def header_mem table_bytes_def client_message_def mem16_0)

lemma pack_file_message:
  assumes "w_files w name = Some bs" "length bs < buffer_size" "length bs \<le> n"
  shows "pack_file name n (begin_message t) w = Some (client_message t 0 (bs @ [0]))"
  using assms
  by (simp add: pack_file_def read_dat_def Let_def begin_message_eq push_simps client_message_def add.commute)

section \<open>Screens\<close>

lemma push_rands_body: "\<exists>body. fst (push_rands ks m w) = m @ body \<and> length body = 4 * length ks"
proof (induction ks arbitrary: m w)
  case (Cons k ks)
  obtain r w1 where r: "call_rand w = (r, w1)"
    by fastforce
  then show ?case
    using Cons [of "push_back_uint32 m (of_nat r mod k)" w1] by (auto simp: push32_eq)
qed simp

lemma push_address_body: "\<exists>addr. push_address m w = m @ addr \<and> length addr = 4"
  by (simp add: push_address_def Let_def push_simps)

lemma screen_info_body: "\<exists>b. fst (push_back_screen_info m n c w) = m @ b \<and> screen_bytes b"
proof -
  obtain t w1 where t: "call_time w = (t, w1)"
    by fastforce
  let ?port = "mem16 (htons (ucast (ucast (rawIPTerFlags c) :: u8)))"
  obtain addr where addr: "push_address (m @ [n, 0] @ ?port) w = (m @ [n, 0] @ ?port) @ addr" "length addr = 4"
    using push_address_body by blast
  let ?front = "[n, 0] @ ?port @ addr @ tp1 @ tp2 @ tp3"
  have tp: "length tp1 = 12" "length tp2 = 8" "length tp3 = 24" "length tp4 = 12"
    by (simp_all add: tp1_def tp2_def tp3_def tp4_def padded_def)
  obtain nums where nums: "fst (push_rands [1000000, 1000000, 1000000, 1000000, 123456, 123456, 123456]
      (m @ ?front @ tp4 @ mem32 (htonl t)) w1) = (m @ ?front @ tp4 @ mem32 (htonl t)) @ nums" "length nums = 28"
    using push_rands_body [of "[1000000, 1000000, 1000000, 1000000, 123456, 123456, 123456]"] by fastforce
  let ?b = "?front @ tp4 @ mem32 (htonl t) @ nums"
  have "fst (push_back_screen_info m n c w) = m @ ?b"
    using addr nums(1) tp by (simp add: push_back_screen_info_def Let_def push_simps t del: push_rands.simps)
  moreover have "length ?front = 52" "length ?b = 96" "0 \<in> set tp4"
    using addr(2) nums(2) tp by (simp_all add: tp4_def padded_def)
  then have "screen_bytes ?b"
    using tp by (simp add: screen_bytes_def)
  ultimately show ?thesis
    by blast
qed

lemma push_screens_body:
  "\<exists>ss. fst (push_screens is m c w) = m @ concat ss \<and> length ss = length is \<and> (\<forall>b \<in> set ss. screen_bytes b)"
proof (induction "is" arbitrary: m w)
  case Nil
  then show ?case
    by (intro exI [of _ "[]"]) simp
next
  case (Cons i "is")
  obtain m1 w1 where p: "push_back_screen_info m i c w = (m1, w1)"
    by fastforce
  then obtain b where b: "m1 = m @ b" "screen_bytes b"
    using screen_info_body [of m i c w] by auto
  obtain ss where "fst (push_screens is m1 c w1) = m1 @ concat ss" "length ss = length is" "\<forall>b \<in> set ss. screen_bytes b"
    using Cons [of m1 w1] by blast
  with p b show ?case
    by (intro exI [of _ "b # ss"]) simp
qed

lemma length_screens: "\<forall>b \<in> set ss. screen_bytes b \<Longrightarrow> length (concat ss) = 96 * length ss"
  by (induction ss) (simp_all add: screen_bytes_def)

lemma screens_loop_body:
  assumes "n \<noteq> 255"
  shows "\<exists>ss w'. screens_loop n m c w = Inr (m @ concat ss, w') \<and> length ss = unat n \<and> (\<forall>b \<in> set ss. screen_bytes b)"
proof -
  obtain ss where "fst (push_screens (map of_nat [1..<unat n + 1]) m c w) = m @ concat ss" "length ss = unat n"
      "\<forall>b \<in> set ss. screen_bytes b"
    using push_screens_body [of "map of_nat [1..<unat n + 1]" m c w] by auto
  moreover obtain w' where "push_screens (map of_nat [1..<unat n + 1]) m c w =
      (fst (push_screens (map of_nat [1..<unat n + 1]) m c w), w')"
    by (metis prod.collapse)
  ultimately show ?thesis
    using assms unfolding screens_loop_def by (metis (no_types))
qed

lemma draw_screens_return:
  assumes "good_range opts min_screens_key max_screens_key 1 42"
  shows "\<exists>n a c' w'. draw_screens opts c w = Inr (n, a, c', w') \<and> unat n \<le> 42"
proof -
  obtain lo hi where lh: "stoi_at opts min_screens_key = Inr lo" "stoi_at opts max_screens_key = Inr hi"
      "1 \<le> lo" "lo \<le> hi" "hi \<le> 42"
    using assms by (auto simp: good_range_def)
  then obtain n where n: "rand_between lo hi (seed_by_time w) = Inr (n, snd (call_rand (seed_by_time w)))"
      "lo \<le> n" "n \<le> hi"
    using rand_between_returns [of lo hi "seed_by_time w"] by auto
  have u: "uint (word_of_int n :: u8) = n"
    using n lh unfolding uint_word_of_int_eq by (intro take_bit_int_eq_self) simp_all
  then have "int (unat (word_of_int n :: u8)) = n"
    by (simp only: int_unat)
  then have "unat (word_of_int n :: u8) \<le> 42"
    using n lh by linarith
  then show ?thesis
    using lh n u by (simp add: draw_screens_def Let_def rand_mod_def case_prod_beta)
qed

text \<open>Both cases of terminals: the 28 bytes of the terminal, then its screens.\<close>

lemma terminal_size:
  assumes "length body = 28 + 96 * unat n"
  shows "screens_size n = of_nat (length body)"
proof -
  have "28 + uint n * 96 = int (length body)"
    using assms unfolding int_unat [symmetric] by simp
  then show ?thesis
    unfolding screens_size_def by (simp only: of_int_of_nat_eq)
qed

lemma ipterm_shape:
  assumes "draw_screens opts c w = Inr (n, a, c1, w1)" "n \<noteq> 255"
  shows "\<exists>f front ss w2. pack_ipterm opts c (begin_message t) w = Inr (client_message t f (front @ concat ss), c1, w2) \<and>
    length front = 28 \<and> front ! 3 = n \<and> 0 \<in> set (drop 20 front) \<and> length ss = unat n \<and>
    (\<forall>b \<in> set ss. screen_bytes b)"
proof -
  let ?flag = "ucast (rawIPTerFlags c1) :: u8"
  let ?head = "[0x91, t] @ mem16 (htons (8 + screens_size n)) @ mem16 (htons (rawIPTerFlags c1)) @
    mem16 (htons (screens_size n))"
  obtain addr where addr: "push_address (?head @ [?flag, ?flag, a, n]) w1 = (?head @ [?flag, ?flag, a, n]) @ addr"
      "length addr = 4"
    using push_address_body by blast
  let ?front = "[?flag, ?flag, a, n] @ addr @ tp7 @ tp8"
  have tp: "length tp7 = 12" "length tp8 = 8"
    by (simp_all add: tp7_def tp8_def padded_def)
  obtain ss w2 where ss: "screens_loop n (?head @ ?front) c1 w1 = Inr ((?head @ ?front) @ concat ss, w2)"
      "length ss = unat n" "\<forall>b \<in> set ss. screen_bytes b"
    using screens_loop_body [OF assms(2)] by blast
  have front: "length ?front = 28" "?front ! 3 = n" "0 \<in> set (drop 20 ?front)"
    using addr(2) tp by (simp_all add: tp8_def padded_def)
  then have "screens_size n = of_nat (length (?front @ concat ss))"
    using ss(2,3) length_screens by (intro terminal_size) simp
  then have "pack_ipterm opts c (begin_message t) w =
      Inr (client_message t (rawIPTerFlags c1) (?front @ concat ss), c1, w2)"
    using assms(1) addr ss(1) tp by (simp add: pack_ipterm_def Let_def push_simps begin_message_eq client_message_def)
  with ss front show ?thesis
    by blast
qed

lemma dumb_shape:
  assumes "draw_screens opts c w = Inr (n, a, c1, w1)" "n \<noteq> 255"
  shows "\<exists>f front ss w2. pack_dumb opts c (begin_message t) w = Inr (client_message t f (front @ concat ss), c1, w2) \<and>
    length front = 28 \<and> length ss = unat n \<and> (\<forall>b \<in> set ss. screen_bytes b)"
proof -
  obtain r w2 where r: "call_rand w1 = (r, w2)"
    by fastforce
  let ?flag = "ucast (rawIPTerFlags c1) :: u8" and ?f = "of_nat (1 + r mod 16)"
  let ?head = "[0x91, t] @ mem16 (htons (8 + screens_size n)) @ mem16 (htons ?f) @ mem16 (htons (screens_size n))"
  let ?front = "[?flag, ?flag, a, n] @ mem32 (htonl 0) @ tp5 @ tp6"
  have tp: "length tp5 = 12" "length tp6 = 8"
    by (simp_all add: tp5_def tp6_def padded_def)
  then have front: "length ?front = 28"
    by simp
  obtain ss w3 where ss: "screens_loop n (?head @ ?front) c1 w2 = Inr ((?head @ ?front) @ concat ss, w3)"
      "length ss = unat n" "\<forall>b \<in> set ss. screen_bytes b"
    using screens_loop_body [OF assms(2)] by blast
  have "screens_size n = of_nat (length (?front @ concat ss))"
    using front ss(2,3) length_screens by (intro terminal_size) simp
  then have "pack_dumb opts c (begin_message t) w = Inr (client_message t ?f (?front @ concat ss), c1, w3)"
    using assms(1) r ss(1) tp by (simp add: pack_dumb_def Let_def push_simps begin_message_eq client_message_def)
  with ss front show ?thesis
    by blast
qed

lemma screens_fit:
  assumes "length front = 28" "length ss = unat n" "\<forall>b \<in> set ss. screen_bytes b" "unat n \<le> 42"
  shows "length (front @ concat ss) \<le> buffer_size"
  using assms length_screens by (simp add: buffer_size_def)

lemma screen_messages:
  assumes "good_range opts min_screens_key max_screens_key 1 42"
  shows "\<exists>f body c' w'. pack_ipterm opts c (begin_message t) w = Inr (client_message t f body, c', w') \<and>
      length body \<le> buffer_size"
    and "\<exists>f body c' w'. pack_dumb opts c (begin_message t) w = Inr (client_message t f body, c', w') \<and>
      length body \<le> buffer_size"
proof -
  obtain n a c1 w1 where d: "draw_screens opts c w = Inr (n, a, c1, w1)" "unat n \<le> 42"
    using draw_screens_return [OF assms] by blast
  then have "n \<noteq> 255"
    by auto
  with d show "\<exists>f body c' w'. pack_ipterm opts c (begin_message t) w = Inr (client_message t f body, c', w') \<and>
      length body \<le> buffer_size"
    using ipterm_shape [of opts c w n a c1 w1 t] screens_fit by blast
  show "\<exists>f body c' w'. pack_dumb opts c (begin_message t) w = Inr (client_message t f body, c', w') \<and>
      length body \<le> buffer_size"
    using d \<open>n \<noteq> 255\<close> dumb_shape [of opts c w n a c1 w1 t] screens_fit by blast
qed

section \<open>Every answer\<close>

definition good_surroundings :: "Options \<Rightarrow> world \<Rightarrow> bool" where
  "good_surroundings opts w \<longleftrightarrow>
     good_range opts min_terms_key max_terms_key 0 254 \<and>
     good_range opts min_screens_key max_screens_key 1 42 \<and> (\<forall>s. plenty (w_gen w s)) \<and>
     (\<forall>name \<in> {''config.dat'', ''process.dat'', ''usbfile.dat''}.
        \<exists>bs. w_files w name = Some bs \<and> length bs < buffer_size)"

lemma good_surroundings_io: "io w' = io w \<Longrightarrow> good_surroundings opts w' = good_surroundings opts w"
  by (simp add: good_surroundings_def io_def)

definition answers_to :: "u8 \<Rightarrow> bytes \<Rightarrow> bool" where
  "answers_to t m \<longleftrightarrow> sound_message m \<and> (\<exists>body. m = frame_of t body)"

lemma answers_client_message: "length body \<le> buffer_size \<Longrightarrow> answers_to t (client_message t f body)"
  unfolding answers_to_def using client_message_sound client_frame by blast

lemma answers_auth_response:
  assumes "wf_dev d"
  shows "answers_to 0x01 (PacketHeader_mem (packet_header 0x91 0x01 112) @ sealed (reported d) (htons 108) r)"
proof -
  have "length (sealed (reported d) (htons 108) r) = 112"
    using assms by (simp add: sizeof_defs)
  then have "PacketHeader_mem (packet_header 0x91 0x01 112) @ sealed (reported d) (htons 108) r =
      frame_of 0x01 (sealed (reported d) (htons 108) r)"
    by (simp add: frame_of_def)
  then show ?thesis
    unfolding answers_to_def using sound_auth_response [OF assms] by blast
qed

lemma pack_keeps:
  assumes "client_pack_message t opts c w = Inr (ok, c', w')"
  shows "ts_dev c' = ts_dev c \<and> recvPacketType c' = recvPacketType c"
proof -
  have screens: "ts_dev c1 = ts_dev c \<and> recvPacketType c1 = recvPacketType c"
    if "draw_screens opts c w = Inr (n, a, c1, w1)" for n a c1 w1
    using that by (auto simp: draw_screens_def Let_def and_then_eq_Inr_iff)
  have inner: "pack_terminals opts c m w = Inr (bs, c1, w1) \<Longrightarrow> ts_dev c1 = ts_dev c \<and> recvPacketType c1 = recvPacketType c"
    "pack_dumb opts c m w = Inr (bs, c1, w1) \<Longrightarrow> ts_dev c1 = ts_dev c \<and> recvPacketType c1 = recvPacketType c"
    "pack_ipterm opts c m w = Inr (bs, c1, w1) \<Longrightarrow> ts_dev c1 = ts_dev c \<and> recvPacketType c1 = recvPacketType c"
    for m bs c1 w1
    by (auto simp: pack_terminals_def pack_dumb_def pack_ipterm_def Let_def and_then_eq_Inr_iff case_prod_beta
        dest!: screens split: option.splits)
  show ?thesis
  proof (cases "t = 0x09 \<or> t = 0x0A \<or> t = 0x0B")
    case True
    with assms inner show ?thesis
      by (elim disjE) (fastforce simp: client_pack_message_def and_then_eq_Inr_iff stored_eq_Inr)+
  next
    case False
    with assms show ?thesis
      by (auto simp: client_pack_message_def stored_eq_Inr Let_def case_prod_beta split: if_splits option.splits)
  qed
qed

text \<open>
  The client's own \<^verbatim>\<open>enum class PacketType\<close>. Where both programs name a packet they give it the same
  number; what the server calls USBState and USBInfo the client calls USBInfo and USBfile.
\<close>

datatype ClientPacketType =
    VersionRequire_client | AuthRequest | AuthResponse | SysInfoRequest | SysInfoResponse
  | ConfInfoRequest | ConfInfoResponse | ProcInfoRequest | ProcInfoResponse
  | EtherInfoRequest | EtherInfoResponse | USBInfoRequest | USBInfoResponse
  | USBfileRequest | USBfileResponse | PrintDevRequest | PrintDevResponse
  | PrintQueueRequest | PrintQueueResponse | TerInfoRequest | TerInfoResponse
  | DumbTerRequest | DumbTerResponse | IPTermRequest | IPTermResponse | End_client

fun client_code :: "ClientPacketType \<Rightarrow> u8" where
  "client_code VersionRequire_client = 0x00"
| "client_code AuthRequest = 0x01"
| "client_code AuthResponse = 0x01"
| "client_code SysInfoRequest = 0x02"
| "client_code SysInfoResponse = 0x02"
| "client_code ConfInfoRequest = 0x03"
| "client_code ConfInfoResponse = 0x03"
| "client_code ProcInfoRequest = 0x04"
| "client_code ProcInfoResponse = 0x04"
| "client_code EtherInfoRequest = 0x05"
| "client_code EtherInfoResponse = 0x05"
| "client_code USBInfoRequest = 0x07"
| "client_code USBInfoResponse = 0x07"
| "client_code USBfileRequest = 0x0C"
| "client_code USBfileResponse = 0x0C"
| "client_code PrintDevRequest = 0x08"
| "client_code PrintDevResponse = 0x08"
| "client_code PrintQueueRequest = 0x0D"
| "client_code PrintQueueResponse = 0x0D"
| "client_code TerInfoRequest = 0x09"
| "client_code TerInfoResponse = 0x09"
| "client_code DumbTerRequest = 0x0A"
| "client_code DumbTerResponse = 0x0A"
| "client_code IPTermRequest = 0x0B"
| "client_code IPTermResponse = 0x0B"
| "client_code End_client = 0xFF"

lemma codes_agree:
  "client_code VersionRequire_client = code_of_type VersionRequire" "client_code AuthRequest = code_of_type Auth"
  "client_code SysInfoRequest = code_of_type SysInfo" "client_code ConfInfoRequest = code_of_type ConfInfo"
  "client_code ProcInfoRequest = code_of_type ProcInfo" "client_code EtherInfoRequest = code_of_type EtherInfo"
  "client_code USBInfoRequest = code_of_type USBState" "client_code USBfileRequest = code_of_type USBInfo"
  "client_code PrintDevRequest = code_of_type PrintDev" "client_code PrintQueueRequest = code_of_type PrintQueue"
  "client_code TerInfoRequest = code_of_type TerInfo" "client_code DumbTerRequest = code_of_type DumbTer"
  "client_code IPTermRequest = code_of_type IPTerm" "client_code End_client = code_of_type End"
  by simp_all

text \<open>The requests the client has an answer to: the cases of \<^verbatim>\<open>client_pack_message\<close> that go on.\<close>

definition answerable :: "u8 set" where
  "answerable = {0x01, 0x02, 0x03, 0x04, 0x09, 0x0A, 0x0B, 0x0C, 0x0D, 0xFF}"

lemma answerable_codes:
  "answerable = client_code ` {AuthResponse, SysInfoResponse, ConfInfoResponse, ProcInfoResponse, USBfileResponse,
     PrintQueueResponse, TerInfoResponse, DumbTerResponse, IPTermResponse, End_client}"
  by (auto simp: answerable_def)

lemma packs:
  assumes "good_surroundings opts w" "wf_dev (ts_dev c)" "t \<in> answerable"
  shows "\<exists>c' w'. client_pack_message t opts c w = Inr (True, c', w') \<and> answers_to t (send_message c')"
proof -
  have files: "\<exists>body. pack_file f n (begin_message t) w = Some (client_message t 0 body) \<and> length body \<le> buffer_size"
    if "f \<in> {''config.dat'', ''process.dat'', ''usbfile.dat''}" "buffer_size - 1 \<le> n" for f n
  proof -
    have "\<forall>name \<in> {''config.dat'', ''process.dat'', ''usbfile.dat''}. \<exists>bs. w_files w name = Some bs \<and> length bs < buffer_size"
      using assms(1) unfolding good_surroundings_def by (elim conjE)
    from bspec [OF this that(1)] obtain bs where bs: "w_files w f = Some bs" "length bs < buffer_size"
      by (elim exE conjE)
    then have "length bs \<le> n"
      using that(2) by linarith
    then have "pack_file f n (begin_message t) w = Some (client_message t 0 (bs @ [0]))"
      by (rule pack_file_message [OF bs])
    moreover have "length (bs @ [0]) \<le> buffer_size"
      using bs(2) by simp
    ultimately show ?thesis
      by blast
  qed
  have simple: "length (drop 8 (pack_sysinfo (begin_message t))) \<le> buffer_size" "length [0] \<le> buffer_size"
    by (simp_all add: pack_sysinfo_def Let_def begin_message_eq push_simps buffer_size_def)
  have screens: "good_range opts min_screens_key max_screens_key 1 42"
    using assms(1) by (simp add: good_surroundings_def)
  consider "t = 0x01" | "t = 0x02 \<or> t = 0x0D \<or> t = 0xFF" | "t = 0x03" | "t = 0x04" | "t = 0x0C" | "t = 0x09" | "t = 0x0A" | "t = 0x0B"
    using assms(3) unfolding answerable_def by blast
  then show ?thesis
  proof cases
    case 1
    then show ?thesis
      using pack_response [OF assms(2), of opts w] answers_auth_response [OF assms(2), of "next_random w"] by simp
  next
    case 2
    then show ?thesis
      using simple answers_client_message [of "drop 8 (pack_sysinfo (begin_message t))" t 0]
        answers_client_message [of "[0]" t 0] answers_client_message [of "[]" t 0] push_simple [of t]
      by (auto simp: client_pack_message_def stored_def Let_def)
  next
    case 3
    then show ?thesis
      using files [of "''config.dat''" 8191] by (auto simp: client_pack_message_def stored_def buffer_size_def answers_client_message)
  next
    case 4
    then show ?thesis
      using files [of "''process.dat''" 8191] by (auto simp: client_pack_message_def stored_def buffer_size_def answers_client_message)
  next
    case 5
    then show ?thesis
      using files [of "''usbfile.dat''" 4095] by (auto simp: client_pack_message_def stored_def buffer_size_def answers_client_message)
  next
    case 6
    have "\<forall>s. plenty (w_gen w s)" "good_range opts min_terms_key max_terms_key 0 254"
      using assms(1) by (simp_all add: good_surroundings_def)
    then obtain c' w' where p: "client_pack_message 0x09 opts c w = Inr (True, c', w')"
      using terminals_return by blast
    then obtain m k r where m: "send_message c' = answer 0x09 (table_bytes m (of_nat (k + r))) []" "terms_map m k"
      by (rule terminals_packed)
    then have "length m = 270"
      by (simp add: terms_map_def)
    then have "answers_to 0x09 (send_message c')"
      unfolding m(1) table_message [OF \<open>length m = 270\<close>] by (intro answers_client_message) (simp add: buffer_size_def)
    with 6 p show ?thesis
      by blast
  next
    case 7
    then show ?thesis
      using screen_messages(2) [OF screens, where c = c and t = "0x0A" and w = w]
      by (auto simp: client_pack_message_def stored_def answers_client_message)
  next
    case 8
    then show ?thesis
      using screen_messages(1) [OF screens, where c = c and t = "0x0B" and w = w]
      by (auto simp: client_pack_message_def stored_def answers_client_message)
  qed
qed

section \<open>A whole conversation\<close>

text \<open>A request the client takes apart without a fault.\<close>

definition understood :: "bytes \<Rightarrow> bool" where
  "understood m \<longleftrightarrow> sound_message m \<and> m ! 0 = 0x11 \<and> m ! 1 \<in> answerable \<and>
     (m ! 1 = 0x01 \<longrightarrow> (\<exists>v0 v1 v2 a b p str r t. m = request_bytes v0 v1 v2 a b p str r t \<and>
        length str = 32 \<and> 2 \<le> v0))"

lemma list_ge_6: "6 \<le> length m \<Longrightarrow> \<exists>x0 x1 x2 x3 x4 x5 rest. m = x0 # x1 # x2 # x3 # x4 # x5 # rest"
  by (auto simp: numeral_eq_Suc Suc_le_length_iff)

lemma unpack_understood:
  assumes "understood m" "recv_message c = m"
  shows "\<exists>ok c'. client_unpack_message opts c w = Inr (ok, c', w) \<and> recvPacketType c' = m ! 1 \<and>
    sendPacketType c' = m ! 1 \<and> ts_dev c' = ts_dev c"
proof (cases "m ! 1 = 0x01")
  case True
  then obtain v0 v1 v2 a b p str r t where "m = request_bytes v0 v1 v2 a b p str r t" "length str = 32" "2 \<le> v0"
    using assms(1) unfolding understood_def by blast
  then show ?thesis
    using request_unpacked [of c v0 v1 v2 a b p str r t opts w] assms(2) True by (simp add: greeted_def)
next
  case False
  obtain x0 x1 x2 x3 x4 x5 rest where m: "m = x0 # x1 # x2 # x3 # x4 # x5 # rest"
  proof -
    have "6 \<le> length m"
      using assms(1) by (simp add: understood_def sound_message_def)
    then show ?thesis
      using that list_ge_6 by blast
  qed
  then have "x0 = 0x11" "x1 \<in> answerable" "x1 \<noteq> 0x01"
    using assms(1) False by (simp_all add: understood_def)
  then show ?thesis
    using assms(2) m
    by (auto simp: client_unpack_message_def unpack_request_def Let_def pop16_Cons answerable_def)
qed

lemma understood_request:
  assumes "length str = 32" "2 \<le> v0"
  shows "understood (request_bytes v0 v1 v2 a b p str r t)"
proof -
  let ?m = "request_bytes v0 v1 v2 a b p str r t"
  have "?m ! 0 = 0x11" "?m ! 1 = 0x01"
    by (simp_all add: request_bytes_def)
  moreover have "\<exists>v0' v1' v2' a' b' p' str' r' t'. ?m = request_bytes v0' v1' v2' a' b' p' str' r' t' \<and>
      length str' = 32 \<and> 2 \<le> v0'"
    using assms by blast
  ultimately show ?thesis
    unfolding understood_def using sound_request [OF assms(1)] by (simp add: answerable_def)
qed

lemma htons_0: "htons 0 = 0"
  by code_simp

lemma understood_plain: "t \<in> answerable - {0x01} \<Longrightarrow> understood (plain_request t)"
  by (auto simp: understood_def sound_message_def plain_request_def message_def Let_def
      PacketHeader_mem_def PlainPacket_mem_def data_length_def layout_simps plain_header_def htons_0)

lemma understood_term: "t \<in> answerable - {0x01} \<Longrightarrow> understood (term_request t i)"
  by (auto simp: understood_def sound_message_def term_request_def message_def Let_def
      PacketHeader_mem_def IPTermRequestPacket_mem_def data_length_def layout_simps plain_header_def htons_0)

lemma understood_auth: "understood (auth_request e a b)"
  unfolding auth_request_eq by (rule understood_request) (simp_all add: server_crypt_def)

lemma request_types [simp]: "plain_request t ! Suc 0 = t" "term_request t i ! Suc 0 = t" "auth_request e a b ! Suc 0 = 0x01"
  by (simp_all add: plain_request_def term_request_def auth_request_eq request_bytes_def message_def
      PacketHeader_mem_def plain_header_def)

text \<open>A socket that takes what it is offered, for \<open>n\<close> messages at least.\<close>

definition willing :: "nat \<Rightarrow> world \<Rightarrow> bool" where
  "willing n w \<longleftrightarrow> set (w_send w) \<subseteq> {int} \<and> 2 * n \<le> length (w_send w)"

lemma send_willing:
  assumes "sound_message (send_message c)" "willing (Suc n) w"
  shows "\<exists>c' ns. send_msg c w = Inr (True, c',
      w\<lparr>w_send := ns, w_sent := w_sent w @ pieces (send_message c)\<rparr>) \<and>
    set ns \<subseteq> {int} \<and> 2 * n \<le> length ns \<and> ts_dev c' = ts_dev c \<and> recvPacketType c' = recvPacketType c"
proof -
  let ?k = "length (pieces (send_message c))" and ?ns = "drop (length (pieces (send_message c))) (w_send w)"
  have k: "?k \<le> 2"
    by (simp add: pieces_def)
  have "\<And>i. i < length (w_send w) \<Longrightarrow> w_send w ! i = int"
    using assms(2) nth_mem by (fastforce simp: willing_def)
  then have "take ?k (w_send w) = map (\<lambda>_. int) (pieces (send_message c))"
    using assms(2) k by (intro nth_equalityI) (simp_all add: willing_def)
  then have "w_send w = map (\<lambda>_. int) (pieces (send_message c)) @ ?ns"
    using append_take_drop_id [of ?k "w_send w"] by simp
  moreover have "set ?ns \<subseteq> {int}" "2 * n \<le> length ?ns"
    using assms(2) k set_drop_subset [of ?k "w_send w"] by (auto simp: willing_def)
  moreover obtain a where "send_msg c w = Inr (True, c\<lparr>send_message := [], send_array := a\<rparr>,
      w\<lparr>w_send := ?ns, w_sent := w_sent w @ pieces (send_message c)\<rparr>)"
    using send_msg_pieces [OF assms(1) calculation(1)] by blast
  ultimately show ?thesis
    by (intro exI [of _ "c\<lparr>send_message := [], send_array := a\<rparr>"] exI [of _ ?ns]) simp
qed

lemma answer_sent:
  assumes "good_surroundings opts w" "wf_dev (ts_dev c)" "t \<in> answerable" "willing (Suc n) w"
  shows "\<exists>ok c1 w1 c2 w2 m. client_pack_message t opts c w = Inr (ok, c1, w1) \<and>
    send_msg c1 w1 = Inr (True, c2, w2) \<and> answers_to t m \<and> w_sent w2 = w_sent w @ pieces m \<and>
    w_recv w2 = w_recv w \<and> willing n w2 \<and> good_surroundings opts w2 \<and> ts_dev c2 = ts_dev c \<and>
    recvPacketType c2 = recvPacketType c"
proof -
  obtain c1 w1 where p: "client_pack_message t opts c w = Inr (True, c1, w1)" and a: "answers_to t (send_message c1)"
    using packs [OF assms(1-3)] by blast
  have io: "io w1 = io w"
    by (rule io_pack [OF p])
  then have "willing (Suc n) w1"
    using assms(4) by (simp add: willing_def io_def)
  then obtain c2 ns where "send_msg c1 w1 = Inr (True, c2,
      w1\<lparr>w_send := ns, w_sent := w_sent w1 @ pieces (send_message c1)\<rparr>)"
      "set ns \<subseteq> {int}" "2 * n \<le> length ns" "ts_dev c2 = ts_dev c1" "recvPacketType c2 = recvPacketType c1"
    using send_willing [of c1 n w1] a unfolding answers_to_def by blast
  moreover have "good_surroundings opts (w1\<lparr>w_send := ns, w_sent := w_sent w1 @ pieces (send_message c1)\<rparr>)"
    using assms(1) io by (simp add: good_surroundings_def io_def)
  ultimately show ?thesis
    using p a pack_keeps [OF p] io by (auto simp: willing_def io_def)
qed

lemma request_read:
  assumes "understood m" "w_recv w = map Got (pieces m) @ rs"
  shows "\<exists>ok c1 c2. recv_msg c w = Inr (True, c1, w\<lparr>w_recv := rs\<rparr>) \<and>
    client_unpack_message opts c1 (w\<lparr>w_recv := rs\<rparr>) = Inr (ok, c2, w\<lparr>w_recv := rs\<rparr>) \<and>
    recvPacketType c2 = m ! 1 \<and> sendPacketType c2 = m ! 1 \<and> ts_dev c2 = ts_dev c"
proof -
  obtain a where "recv_msg c w =
      Inr (True, c\<lparr>recvPacketType := m ! 1, recv_array := a, recv_message := m\<rparr>, w\<lparr>w_recv := rs\<rparr>)"
    using recv_msg_pieces [of m w rs c] assms by (auto simp: understood_def)
  then show ?thesis
    using unpack_understood [OF assms(1), of "c\<lparr>recvPacketType := m ! 1, recv_array := a, recv_message := m\<rparr>"
        opts "w\<lparr>w_recv := rs\<rparr>"] by simp
qed

text \<open>What the client sends in reply to a list of requests.\<close>

definition replies :: "bytes list \<Rightarrow> bytes list \<Rightarrow> bool" where
  "replies reqs answers \<longleftrightarrow> list_all2 (\<lambda>m. answers_to (m ! 1)) reqs answers"

lemma loop_replies:
  assumes "understood fin" "fin ! 1 = 0xFF"
  shows "\<lbrakk>\<forall>m \<in> set reqs. understood m \<and> m ! 1 \<noteq> 0xFF; t \<in> answerable; t \<noteq> 0xFF; sendPacketType c = t;
      recvPacketType c = t; good_surroundings opts w; wf_dev (ts_dev c);
      w_recv w = map Got (concat (map pieces (reqs @ [fin]))) @ rs; willing (Suc (Suc (length reqs))) w\<rbrakk>
    \<Longrightarrow> \<exists>answer answers c' w'. communicate_loop opts c w = Inr (True, c', w') \<and>
      w_sent w' = w_sent w @ pieces answer @ concat (map pieces answers) \<and> answers_to t answer \<and>
      replies reqs answers \<and> sendPacketType c' = 0xFF \<and> good_surroundings opts w' \<and> wf_dev (ts_dev c') \<and>
      willing 1 w' \<and> w_recv w' = rs"
proof (induction reqs arbitrary: t c w)
  case Nil
  obtain ok c1 w1 c2 w2 answer where p: "client_pack_message t opts c w = Inr (ok, c1, w1)"
      "send_msg c1 w1 = Inr (True, c2, w2)"
    and s: "answers_to t answer" "w_sent w2 = w_sent w @ pieces answer"
      "w_recv w2 = w_recv w" "willing (Suc 0) w2" "good_surroundings opts w2" "ts_dev c2 = ts_dev c"
    using answer_sent [OF Nil.prems(6,7,2), of "Suc 0"] Nil.prems(9) by auto
  have "w_recv w2 = map Got (pieces fin) @ rs"
    using s(3) Nil.prems(8) by simp
  then obtain ok' c3 c4 where r: "recv_msg c2 w2 = Inr (True, c3, w2\<lparr>w_recv := rs\<rparr>)"
      "client_unpack_message opts c3 (w2\<lparr>w_recv := rs\<rparr>) = Inr (ok', c4, w2\<lparr>w_recv := rs\<rparr>)"
    and c4: "recvPacketType c4 = 0xFF" "sendPacketType c4 = 0xFF" "ts_dev c4 = ts_dev c2"
    using request_read [OF assms(1)] unfolding assms(2) by blast
  have "exchange opts c w = Inr (True, c4, w2\<lparr>w_recv := rs\<rparr>)"
    using p r Nil.prems(4) by (simp add: exchange_def)
  then have "communicate_loop opts c w = Inr (True, c4, w2\<lparr>w_recv := rs\<rparr>)"
    using Nil.prems(3,5) c4(1) by (simp add: communicate_loop.simps [of opts c w] communicate_loop.simps [of opts c4])
  moreover have "good_surroundings opts (w2\<lparr>w_recv := rs\<rparr>)" "willing 1 (w2\<lparr>w_recv := rs\<rparr>)"
    using s by (simp_all add: good_surroundings_def willing_def)
  ultimately show ?case
    using s c4 Nil.prems(7) by (intro exI [of _ answer] exI [of _ "[]"]) (simp add: replies_def)
next
  case (Cons m reqs)
  obtain ok c1 w1 c2 w2 answer where p: "client_pack_message t opts c w = Inr (ok, c1, w1)"
      "send_msg c1 w1 = Inr (True, c2, w2)"
    and s: "answers_to t answer" "w_sent w2 = w_sent w @ pieces answer"
      "w_recv w2 = w_recv w" "willing (Suc (Suc (length reqs))) w2" "good_surroundings opts w2" "ts_dev c2 = ts_dev c"
    using answer_sent [OF Cons.prems(6,7,2), of "Suc (Suc (length reqs))"] Cons.prems(9) by auto
  let ?rs = "map Got (concat (map pieces (reqs @ [fin]))) @ rs"
  let ?w = "w2\<lparr>w_recv := ?rs\<rparr>"
  have "w_recv w2 = map Got (pieces m) @ ?rs"
    using s(3) Cons.prems(8) by simp
  moreover have m: "understood m" "m ! 1 \<noteq> 0xFF" "\<forall>m \<in> set reqs. understood m \<and> m ! 1 \<noteq> 0xFF"
    using Cons.prems(1) by simp_all
  ultimately obtain ok' c3 c4 where r: "recv_msg c2 w2 = Inr (True, c3, ?w)"
      "client_unpack_message opts c3 ?w = Inr (ok', c4, ?w)"
    and c4: "recvPacketType c4 = m ! 1" "sendPacketType c4 = m ! 1" "ts_dev c4 = ts_dev c2"
    using request_read [of m w2 ?rs c2 opts] by blast
  have "m ! 1 \<in> answerable"
    using m(1) by (simp add: understood_def)
  moreover have "wf_dev (ts_dev c4)" "good_surroundings opts ?w" "willing (Suc (Suc (length reqs))) ?w"
    using c4 s Cons.prems(7) by (simp_all add: good_surroundings_def willing_def)
  ultimately obtain answer' answers c' w' where "communicate_loop opts c4 ?w = Inr (True, c', w')"
      "w_sent w' = w_sent ?w @ pieces answer' @ concat (map pieces answers)" "answers_to (m ! 1) answer'"
      "replies reqs answers" "sendPacketType c' = 0xFF" "good_surroundings opts w'" "wf_dev (ts_dev c')"
      "willing 1 w'" "w_recv w' = rs"
    using Cons.IH [of "m ! 1" c4 ?w] m c4 by auto
  moreover have "exchange opts c w = Inr (True, c4, ?w)"
    using p r Cons.prems(4) by (simp add: exchange_def)
  ultimately show ?case
    using Cons.prems(3,5) s(1,2)
    by (intro exI [of _ answer] exI [of _ "answer' # answers"] exI [of _ c'] exI [of _ w'])
      (simp add: communicate_loop.simps [of opts c w] replies_def)
qed

text \<open>
  C10: a conversation the client survives. In good surroundings (the options have
  sensible ranges, the files are there and short enough, the generator keeps producing, the socket
  takes what it is offered) any series of well-formed requests that the client has an answer to,
  the last of which is End, makes \<^verbatim>\<open>client_communicate\<close> return 0, having answered each of them, in
  order, with one well-formed message of the same type.
\<close>

theorem client_completes:
  assumes "good_surroundings opts w" "wf_dev (ts_dev c)" "reqs \<noteq> []"
    and "\<forall>m \<in> set reqs. understood m \<and> m ! 1 \<noteq> 0xFF" "understood fin" "fin ! 1 = 0xFF"
    and "w_recv w = map Got (concat (map pieces (reqs @ [fin]))) @ rs" "willing (Suc (length reqs)) w"
  shows "\<exists>answers c' w'. client_communicate opts c w = Inr (0, c', w') \<and>
    w_sent w' = w_sent w @ concat (map pieces answers) \<and> replies (reqs @ [fin]) answers \<and> w_recv w' = rs"
proof -
  obtain m rest where reqs: "reqs = m # rest"
    using assms(3) by (cases reqs) auto
  let ?w = "seed_by_time w" and ?rs = "map Got (concat (map pieces (rest @ [fin]))) @ rs"
  let ?w1 = "?w\<lparr>w_recv := ?rs\<rparr>"
  have io: "io ?w = io w"
    by simp
  then have "w_recv ?w = map Got (pieces m) @ ?rs"
    using assms(7) by (simp add: io_def reqs)
  moreover have m: "understood m" "m ! 1 \<noteq> 0xFF" "\<forall>m \<in> set rest. understood m \<and> m ! 1 \<noteq> 0xFF"
    using assms(4) reqs by simp_all
  ultimately obtain ok c1 c2 where r: "recv_msg c ?w = Inr (True, c1, ?w1)"
      "client_unpack_message opts c1 ?w1 = Inr (ok, c2, ?w1)"
    and c2: "recvPacketType c2 = m ! 1" "sendPacketType c2 = m ! 1" "ts_dev c2 = ts_dev c"
    using request_read [of m ?w ?rs c opts] by blast
  have "m ! 1 \<in> answerable" "wf_dev (ts_dev c2)"
    using m(1) c2 assms(2) by (simp_all add: understood_def)
  moreover have "good_surroundings opts ?w1" "willing (Suc (Suc (length rest))) ?w1" "w_sent ?w1 = w_sent w"
    using assms(1,8) io by (simp_all add: good_surroundings_def willing_def io_def reqs)
  ultimately obtain answer answers c3 w3 where l: "communicate_loop opts c2 ?w1 = Inr (True, c3, w3)"
      "w_sent w3 = w_sent w @ pieces answer @ concat (map pieces answers)" "answers_to (m ! 1) answer"
      "replies rest answers" "sendPacketType c3 = 0xFF" "good_surroundings opts w3" "wf_dev (ts_dev c3)"
      "willing 1 w3" "w_recv w3 = rs"
    using loop_replies [OF assms(5,6) m(3), of "m ! 1" c2 opts ?w1 rs] m c2 by auto
  then obtain ok' c4 w4 c5 w5 last_answer where e: "client_pack_message 0xFF opts c3 w3 = Inr (ok', c4, w4)"
      "send_msg c4 w4 = Inr (True, c5, w5)" "answers_to 0xFF last_answer"
      "w_sent w5 = w_sent w3 @ pieces last_answer" "w_recv w5 = w_recv w3"
    using answer_sent [OF l(6,7), where t = "0xFF" and n = 0] l(8) by (auto simp: answerable_def)
  have "replies (reqs @ [fin]) (answer # answers @ [last_answer])"
    using l(3,4) e(3) assms(6) by (simp add: replies_def reqs list_all2_appendI)
  moreover have "client_communicate opts c w = Inr (0, c5, w5)"
    using r l(1,5) e by (simp add: client_communicate_def)
  ultimately show ?thesis
    using l(2,9) e(4,5) by (intro exI [of _ "answer # answers @ [last_answer]"]) simp
qed

definition furnished_world :: world where
  "furnished_world = counting_world\<lparr>w_files := (\<lambda>_. Some [65, 66]), w_send := [int, int, int, int, int, int],
     w_recv := map Got (concat (map pieces [auth_request sample_env 20 60, plain_request 0x09, plain_request 0xff]))\<rparr>"

theorem client_completes_witness:
  "\<exists>answers c' w'. client_communicate one_of_each sample_ts furnished_world = Inr (0, c', w') \<and>
     w_sent w' = concat (map pieces answers) \<and>
     replies [auth_request sample_env 20 60, plain_request 0x09, plain_request 0xff] answers"
proof -
  have "\<forall>m \<in> set [auth_request sample_env 20 60, plain_request 0x09]. understood m \<and> m ! 1 \<noteq> 0xFF"
      "understood (plain_request 0xff)" "plain_request 0xff ! 1 = 0xFF"
    using understood_auth understood_plain by (simp_all add: answerable_def)
  note requests = this
  have good: "good_surroundings one_of_each furnished_world"
    by (simp add: good_surroundings_def one_of_each_range furnished_world_def counting_world_def plenty_count buffer_size_def)
  have "willing (Suc (length [auth_request sample_env 20 60, plain_request 0x09])) furnished_world"
    by (simp add: willing_def furnished_world_def)
  moreover have "w_recv furnished_world = map Got (concat (map pieces ([auth_request sample_env 20 60,
      plain_request 0x09] @ [plain_request 0xff]))) @ []"
    by (simp add: furnished_world_def)
  moreover have "w_sent furnished_world = []"
    by (simp add: furnished_world_def counting_world_def sample_world_def)
  ultimately show ?thesis
    using client_completes [OF good wf_sample_ts _ requests] by fastforce
qed

section \<open>A server that is an impostor\<close>

text \<open>The client about to read its next message, of a series that ends with \<open>fin\<close>.\<close>

lemma next_served:
  assumes "understood fin" "fin ! 1 = 0xFF" "\<forall>m \<in> set reqs. understood m \<and> m ! 1 \<noteq> 0xFF"
    and "good_surroundings opts w" "wf_dev (ts_dev c)" "willing (Suc (length reqs)) w"
    and "w_recv w = map Got (concat (map pieces (reqs @ [fin]))) @ rs"
  shows "\<exists>c1 w1 ok c2 answers c' w'. recv_msg c w = Inr (True, c1, w1) \<and>
    client_unpack_message opts c1 w1 = Inr (ok, c2, w1) \<and> communicate_loop opts c2 w1 = Inr (True, c', w') \<and>
    w_sent w' = w_sent w @ concat (map pieces answers) \<and> replies reqs answers \<and> sendPacketType c' = 0xFF \<and>
    good_surroundings opts w' \<and> wf_dev (ts_dev c') \<and> willing 1 w' \<and> w_recv w' = rs"
proof (cases reqs)
  case Nil
  then obtain ok c1 c2 where n: "recv_msg c w = Inr (True, c1, w\<lparr>w_recv := rs\<rparr>)"
      "client_unpack_message opts c1 (w\<lparr>w_recv := rs\<rparr>) = Inr (ok, c2, w\<lparr>w_recv := rs\<rparr>)"
      "recvPacketType c2 = 0xFF" "sendPacketType c2 = 0xFF" "ts_dev c2 = ts_dev c"
    using request_read [OF assms(1), of w rs c opts] assms(7) unfolding assms(2) by auto
  moreover have "communicate_loop opts c2 (w\<lparr>w_recv := rs\<rparr>) = Inr (True, c2, w\<lparr>w_recv := rs\<rparr>)"
    using n(3) by (simp add: communicate_loop.simps [of opts c2])
  moreover have "good_surroundings opts (w\<lparr>w_recv := rs\<rparr>)" "willing 1 (w\<lparr>w_recv := rs\<rparr>)"
    using assms(4,6) Nil by (simp_all add: good_surroundings_def willing_def)
  ultimately show ?thesis
    using assms(5) Nil by (intro exI [of _ c1] exI [of _ "w\<lparr>w_recv := rs\<rparr>"] exI [of _ ok] exI [of _ c2] exI [of _ "[]"]
        exI [of _ c2] exI [of _ "w\<lparr>w_recv := rs\<rparr>"]) (simp add: replies_def)
next
  case (Cons m rest)
  let ?rs = "map Got (concat (map pieces (rest @ [fin]))) @ rs"
  let ?w = "w\<lparr>w_recv := ?rs\<rparr>"
  have m: "understood m" "m ! 1 \<noteq> 0xFF" "\<forall>m \<in> set rest. understood m \<and> m ! 1 \<noteq> 0xFF" "m ! 1 \<in> answerable"
    using assms(3) Cons by (simp_all add: understood_def)
  obtain ok c1 c2 where n: "recv_msg c w = Inr (True, c1, ?w)" "client_unpack_message opts c1 ?w = Inr (ok, c2, ?w)"
      "recvPacketType c2 = m ! 1" "sendPacketType c2 = m ! 1" "ts_dev c2 = ts_dev c"
    using request_read [OF m(1), of w ?rs c opts] assms(7) Cons by auto
  have "good_surroundings opts ?w" "wf_dev (ts_dev c2)" "w_recv ?w = ?rs" "willing (Suc (Suc (length rest))) ?w"
    using assms(4-6) n(5) Cons by (simp_all add: good_surroundings_def willing_def)
  from loop_replies [OF assms(1,2) m(3,4,2) n(4,3) this] obtain answer answers c' w' where l:
    "communicate_loop opts c2 ?w = Inr (True, c', w')" "answers_to (m ! 1) answer" "replies rest answers"
    "w_sent w' = w_sent ?w @ pieces answer @ concat (map pieces answers)" "sendPacketType c' = 0xFF"
    "good_surroundings opts w'" "wf_dev (ts_dev c')" "willing 1 w'" "w_recv w' = rs"
    by blast
  then have "replies reqs (answer # answers)" "w_sent w' = w_sent w @ concat (map pieces (answer # answers))"
    using Cons by (simp_all add: replies_def)
  then show ?thesis
    using n(1,2) l(1,5-9) by blast
qed

text \<open>The first exchange with an impostor: the verdict is false, the answer is sent.\<close>

lemma forged_exchange:
  assumes "good_surroundings opts w" "wf_dev (ts_dev c)" "willing (Suc n) w"
    and "length str = 32" "2 \<le> v0" "\<not> snd (client_decrypt_auth (htonl r) str)"
    and "w_recv w = map Got (pieces (request_bytes v0 v1 v2 a b p str r t)) @ rs"
  shows "\<exists>c1 w1 c2 c3 w3 c4 w4 bs. recv_msg c w = Inr (True, c1, w1) \<and>
    client_unpack_message opts c1 w1 = Inr (False, c2, w1) \<and> recvPacketType c2 = 0x01 \<and>
    client_pack_message (sendPacketType c2) opts c2 w1 = Inr (True, c3, w3) \<and> send_msg c3 w3 = Inr (True, c4, w4) \<and>
    w_sent w4 = w_sent w @ pieces bs \<and> admitted_as (ts_dev c) bs \<and> w_recv w4 = rs \<and> willing n w4 \<and>
    good_surroundings opts w4 \<and> wf_dev (ts_dev c4)"
proof -
  let ?m = "request_bytes v0 v1 v2 a b p str r t" and ?w1 = "w\<lparr>w_recv := rs\<rparr>"
  obtain ra where recv: "recv_msg c w =
      Inr (True, c\<lparr>recvPacketType := ?m ! 1, recv_array := ra, recv_message := ?m\<rparr>, ?w1)"
    using recv_msg_pieces [OF sound_request [OF assms(4)] assms(7)] by blast
  let ?c1 = "c\<lparr>recvPacketType := ?m ! 1, recv_array := ra, recv_message := ?m\<rparr>"
  let ?c2 = "greeted v0 v1 v2 a b p ?c1"
  have unpack: "client_unpack_message opts ?c1 ?w1 = Inr (False, ?c2, ?w1)" "recvPacketType ?c2 = 0x01"
    using request_unpacked [of ?c1 v0 v1 v2 a b p str r t opts ?w1] assms(4-6) by (simp_all add: greeted_def)
  let ?bs = "PacketHeader_mem (packet_header 0x91 0x01 112) @ sealed (reported (ts_dev c)) (htons 108) (next_random ?w1)"
  let ?c3 = "?c2\<lparr>send_message := ?bs\<rparr>" and ?w3 = "after_encrypt ?w1"
  have pack: "client_pack_message (sendPacketType ?c2) opts ?c2 ?w1 = Inr (True, ?c3, ?w3)"
    using pack_response [of ?c2 opts ?w1] assms(2) by simp
  have "sound_message (send_message ?c3)" "willing (Suc n) ?w3"
    using sound_auth_response [OF assms(2)] assms(3) io_after_encrypt [of ?w1] by (simp_all add: willing_def io_def)
  then obtain c4 ns where send: "send_msg ?c3 ?w3 = Inr (True, c4, ?w3\<lparr>w_send := ns, w_sent := w_sent ?w3 @ pieces ?bs\<rparr>)"
      "set ns \<subseteq> {int}" "2 * n \<le> length ns" "ts_dev c4 = ts_dev c"
    using send_willing [of ?c3 n ?w3] by auto
  let ?w4 = "?w3\<lparr>w_send := ns, w_sent := w_sent ?w3 @ pieces ?bs\<rparr>"
  have w4: "good_surroundings opts ?w4" "willing n ?w4" "w_sent ?w4 = w_sent w @ pieces ?bs" "w_recv ?w4 = rs"
    using assms(1) send(2,3) io_after_encrypt [of ?w1] by (simp_all add: good_surroundings_def willing_def io_def)
  have "wf_dev (ts_dev c4)" "admitted_as (ts_dev c) ?bs"
    using send(4) assms(2) sealed_admitted [OF assms(2)] by simp_all
  then show ?thesis
    using recv unpack pack send(1) w4 by blast
qed


definition forged_request :: bytes where
  "forged_request = request_bytes 3 4 5 0 0 1 (server_crypt 7 (replicate 32 0)) (htonl 7) 0"


section \<open>Where the client faults\<close>

lemma short_message_faults:
  assumes "client_pack_message (sendPacketType c) opts c w = Inr (ok, c1, w1)" "length (send_message c1) < 8"
  shows "exchange opts c w = Inl Out_Of_Bounds"
  using assms by (simp add: exchange_def send_msg_def)

text \<open>
  C34: a request the client reports as understood but has no case for (the
  Ethernet, USB and printer requests among them), and one for a file that is missing, make it read
  eight bytes of a message of two or of none.
\<close>

theorem unanswerable_faults:
  assumes "sendPacketType c \<notin> insert 0x00 answerable \<or>
    sendPacketType c = 0x03 \<and> w_files w ''config.dat'' = None \<and> send_message c = [] \<or>
    sendPacketType c = 0x04 \<and> w_files w ''process.dat'' = None \<and> send_message c = [] \<or>
    sendPacketType c = 0x0C \<and> w_files w ''usbfile.dat'' = None \<and> send_message c = []"
  shows "exchange opts c w = Inl Out_Of_Bounds"
  using assms
proof (elim disjE conjE)
  assume "sendPacketType c \<notin> insert 0x00 answerable"
  then have "client_pack_message (sendPacketType c) opts c w =
      Inr (True, c\<lparr>send_message := begin_message (sendPacketType c)\<rparr>, w)"
    by (simp add: answerable_def client_pack_message_def stored_def Let_def)
  then show ?thesis
    by (rule short_message_faults) (simp add: begin_message_eq)
qed (simp_all add: short_message_faults client_pack_message_def pack_file_def read_dat_def stored_def)

theorem unanswerable_faults_witness:
  "exchange one_of_each (sample_ts\<lparr>sendPacketType := 0x05\<rparr>) counting_world = Inl Out_Of_Bounds \<and>
   exchange one_of_each (sample_ts\<lparr>sendPacketType := 0x0C\<rparr>) counting_world = Inl Out_Of_Bounds"
proof -
  have "w_files counting_world ''usbfile.dat'' = None" "send_message sample_ts = []"
    by (simp_all add: counting_world_def sample_world_def sample_ts_def new_ts_client_def case_prod_beta)
  then show ?thesis
    using unanswerable_faults [of "sample_ts\<lparr>sendPacketType := 0x05\<rparr>" counting_world one_of_each]
      unanswerable_faults [of "sample_ts\<lparr>sendPacketType := 0x0C\<rparr>" counting_world one_of_each]
    by (simp add: answerable_def)
qed

text \<open>
  C35: a configuration or process list of 4096 bytes or more, of which up to 8191
  are read, is written behind the end of the buffer of 4096 bytes it is sent from, once its head is
  on the way.
\<close>

theorem long_file_overflows:
  assumes "sendPacketType c = 0x03 \<and> w_files w ''config.dat'' = Some bs \<or>
      sendPacketType c = 0x04 \<and> w_files w ''process.dat'' = Some bs"
    and "buffer_size \<le> length bs" "w_send w = int # ns"
  shows "exchange opts c w = Inl Out_Of_Bounds"
proof -
  let ?body = "take 8191 bs @ [0]"
  let ?m = "client_message (sendPacketType c) 0 ?body"
  have "pack_file f 8191 (begin_message t) w = Some (client_message t 0 ?body)" if "w_files w f = Some bs" for f t
    using that
    by (simp add: pack_file_def read_dat_def Let_def begin_message_eq push_simps client_message_def add.commute)
  then have pack: "client_pack_message (sendPacketType c) opts c w = Inr (True, c\<lparr>send_message := ?m\<rparr>, w)"
    using assms(1) by (auto simp: client_pack_message_def stored_def)
  have "length ?m = 8 + length ?body" "length (drop 8 ?m) = length ?body"
    by (simp_all add: client_message_def)
  moreover have "buffer_size < length ?body"
    using assms(2) by (simp add: buffer_size_def)
  ultimately have "send_msg (c\<lparr>send_message := ?m\<rparr>) w = Inl Out_Of_Bounds"
    using assms(3) by (simp add: send_msg_def call_send_def send_data_def Let_def)
  then show ?thesis
    using pack by (simp add: exchange_def)
qed

theorem long_file_overflows_witness:
  "exchange one_of_each (sample_ts\<lparr>sendPacketType := 0x03\<rparr>)
     (furnished_world\<lparr>w_files := (\<lambda>_. Some (replicate 4096 65))\<rparr>) = Inl Out_Of_Bounds"
  by (rule long_file_overflows [where bs = "replicate 4096 65" and ns = "[int, int, int, int, int]"])
    (simp_all add: furnished_world_def buffer_size_def)

text \<open>
  When the server closes the connection before it has sent a request, the failed \<^verbatim>\<open>recv_msg\<close> is
  passed over and the front of an empty vector is read.
\<close>

lemma closed_first:
  assumes "recv_message c = []" "w_recv w = Got [] # rs \<or> w_recv w = Failed # rs"
  shows "client_communicate opts c w = Inl Empty_Front"
proof -
  have "w_recv (seed_by_time w) = w_recv w"
    using io_calls(4) [of w] by (simp add: io_def)
  then show ?thesis
    using assms by (auto simp: client_communicate_def recv_msg_def call_recv_def client_unpack_message_def)
qed

end
