(* ===== verification/Client_Screens.thy ===== *)
theory Client_Screens
  imports Client_Answers
begin

text \<open>
  A terminal with its screens, from the client's message to the server's database. The server reads
  a screen with a header it has never filled, so what happens depends on what the memory held.
\<close>

section \<open>The client's message\<close>

lemma draw_screens_shape:
  assumes "draw_screens opts c w = Inr (n, a, c1, w1)"
  shows "n \<noteq> 0" "screenCount c1 = screenCount c + ucast n"
  using assms by (auto simp: draw_screens_def Let_def and_then_eq_Inr_iff rand_mod_eq_Inr)

lemma ipterm_packed:
  assumes "client_pack_message 0x0B opts c w = Inr (True, c', w')"
  obtains f front ss where "send_message c' = client_message 0x0B f (front @ concat ss)" "length front = 28"
    "unat (front ! 3) = length ss" "0 \<in> set (drop 20 front)" "\<forall>b \<in> set ss. screen_bytes b" "ss \<noteq> []"
    "length ss < 255" "screenCount c' = screenCount c + of_nat (length ss)"
proof -
  obtain m c1 where p: "pack_ipterm opts c (begin_message 0x0B) w = Inr (m, c1, w')" and c': "c' = c1\<lparr>send_message := m\<rparr>"
    using assms by (auto simp: client_pack_message_def and_then_eq_Inr_iff stored_eq_Inr)
  then obtain n a c2 w1 where d: "draw_screens opts c w = Inr (n, a, c2, w1)"
    by (auto simp: pack_ipterm_def and_then_eq_Inr_iff)
  have "n \<noteq> 255"
    using p d by (auto simp: pack_ipterm_def screens_loop_def Let_def)
  then obtain f front ss where shape: "m = client_message 0x0B f (front @ concat ss)" "c1 = c2" "length front = 28"
      "front ! 3 = n" "0 \<in> set (drop 20 front)" "length ss = unat n" "\<forall>b \<in> set ss. screen_bytes b"
    using ipterm_shape [OF d, of "0x0B"] p by auto
  moreover have "unat n \<noteq> 255"
    using \<open>n \<noteq> 255\<close> word_unat_eq_iff [of n 255] by simp
  then have "unat n < 255"
    using unat_8_lt [of n] by simp
  moreover have "unat n \<noteq> 0"
    using draw_screens_shape(1) [OF d] by (simp add: unat_eq_zero)
  then have "ss \<noteq> []"
    using shape(6) by auto
  moreover have "screenCount c' = screenCount c + of_nat (length ss)"
    using c' shape(2,6) draw_screens_shape(2) [OF d] by simp
  ultimately show thesis
    using that [of f front ss] c' by simp
qed

section \<open>From the client to the database\<close>

definition terminal_bytes :: "u16 \<Rightarrow> bytes \<Rightarrow> bytes \<Rightarrow> bytes" where
  "terminal_bytes f front screens = mem16 (htons f) @ mem16 (htons (of_nat (length (front @ screens)))) @ front"

lemma ipterm_framed:
  assumes "length front = 28"
  shows "client_message 0x0B f (front @ screens) =
    PacketHeader_mem (packet_header 0x91 0x0b (4 + length (front @ screens))) @ terminal_bytes f front screens @ screens"
  by (simp add: client_message_def header_mem terminal_bytes_def add.commute add.left_commute)

lemma terminal_entered:
  assumes "client_pack_message 0x0B opts c w = Inr (True, c', w')"
    and "state s = WaitIPTermInfo" "cq_inv (recv_buffer s)" "cq_list (recv_buffer s) = send_message c' @ rest"
    and "ready (Suc k) db" "tty_cnt s < 2 ^ 31 - 1"
  obtains ss s1 cmd where "\<forall>b \<in> set ss. screen_bytes b" "length ss < 255" "screenCount c' = screenCount c + of_nat (length ss)"
    "fsm e s db = Inr (True, s1, answered [cmd] db)" "state s1 = WaitScrInfo" "cq_inv (recv_buffer s1)"
    "cq_list (recv_buffer s1) = concat ss @ rest" "scr_num s1 = int (length ss)" "ss \<noteq> []"
    "tty_cnt s1 = tty_cnt s + 1" "tty_connected s1 = tty_connected s" "ready k (answered [cmd] db)"
    "is_scr s1" "send_buffer s1 = send_buffer s"
proof -
  obtain f front ss where m: "send_message c' = client_message 0x0B f (front @ concat ss)" "length front = 28"
    "unat (front ! 3) = length ss" "0 \<in> set (drop 20 front)" "\<forall>b \<in> set ss. screen_bytes b" "ss \<noteq> []"
    "length ss < 255" "screenCount c' = screenCount c + of_nat (length ss)"
    by (rule ipterm_packed [OF assms(1)])
  let ?bs = "terminal_bytes f front (concat ss)"
  have holds: "holds_terminal s (4 + length (front @ concat ss)) ?bs (concat ss @ rest)"
    using assms(3,4) m(1,2) ipterm_framed [OF m(2), of f "concat ss"]
    by (simp add: holds_terminal_def framed_def terminal_bytes_def sizeof_defs)
  have texts: "terminal_texts ?bs"
    using m(2,4) by (simp add: terminal_texts_def terminal_bytes_def)
  have num: "ir_screen_num (IPTermResponsePacket_of ?bs) = front ! 3"
    using m(2) by (simp add: IPTermResponsePacket_of_def terminal_bytes_def layout_simps get8_def nth_append)
  obtain q cmd tty p where q: "cq_inv q" "cq_list q = concat ss @ rest"
    and f: "fsm e s db = Inr (True, after_terminal (host_ipterm (IPTermResponsePacket_of ?bs)) p
       (s\<lparr>recv_buffer := q, current_tty := tty,
          current_scr := ir_active_screen (IPTermResponsePacket_of ?bs), tty_cnt := tty_cnt s + 1,
          scr_num := uint (ir_screen_num (IPTermResponsePacket_of ?bs))\<rparr>),
       answered [cmd] db)" "ready k (answered [cmd] db)"
    by (rule terminal_proceeds [OF assms(2) holds assms(5) texts assms(6)])
  moreover have "front ! 3 \<noteq> 0" "uint (front ! 3) = int (length ss)"
    using m(3,6) int_unat [of "front ! 3"] by auto
  ultimately show thesis
    using that [OF m(5,7,8) f(1)] m(6) by (simp add: after_terminal_def host_ipterm_def num)
qed

text \<open>Both calls: the one that takes the terminal, and the one that takes its screens.\<close>

lemma terminal_with_screens:
  assumes "client_pack_message 0x0B opts c w = Inr (True, c', w')"
    and "state s = WaitIPTermInfo" "cq_inv (recv_buffer s)" "cq_list (recv_buffer s) = send_message c' @ rest"
    and "ready (255 + k) db" "tty_cnt s < 2 ^ 31 - 1" "global_number db + 254 < 2 ^ 31" "lucky e"
  obtains s1 db1 s2 db2 cmds where "fsm e s db = Inr (True, s1, db1)" "state s1 = WaitScrInfo" "is_scr s1"
    "fsm e s1 db1 = Inr (True, s2, db2)" "db_sent db2 = db_sent db @ map c_str cmds"
    "screenCount c' + 1 = screenCount c + of_nat (length cmds)" "tty_cnt s2 = tty_cnt s + 1"
    "state s2 = (if tty_cnt s2 = tty_connected s then Ended else WaitIPTermInfo)"
    "cq_list (recv_buffer s2) = rest" "tty_connected s2 = tty_connected s" "ready k db2"
    "send_buffer s2 = send_buffer s @ (if tty_cnt s2 = tty_connected s then [plain_request 0xff] else [])"
    "global_number db2 \<le> global_number db + 254"
proof -
  have "ready (Suc (254 + k)) db"
    using assms(5) by simp
  note entered = terminal_entered [OF assms(1-4) this assms(6)]
  obtain ss s1 cmd where ss: "\<forall>b \<in> set ss. screen_bytes b" "length ss < 255" "screenCount c' = screenCount c + of_nat (length ss)"
    and 1: "fsm e s db = Inr (True, s1, answered [cmd] db)" "state s1 = WaitScrInfo" "cq_inv (recv_buffer s1)"
    "cq_list (recv_buffer s1) = concat ss @ rest" "scr_num s1 = int (length ss)"
    "tty_cnt s1 = tty_cnt s + 1" "tty_connected s1 = tty_connected s" "ready (254 + k) (answered [cmd] db)"
    "is_scr s1" "send_buffer s1 = send_buffer s"
    by (rule entered) (rule that)
  let ?db = "answered [cmd] db"
  have "ready (length ss + k) ?db" "global_number ?db + int (length ss) < 2 ^ 31"
    using ss(2) assms(7) 1(8) by (auto intro: ready_more simp: answered_def)
  then obtain q db' cmds where loop: "screen_loop e 0 (length ss) s1 ?db = Inr (True, s1\<lparr>recv_buffer := q\<rparr>, db')"
      "cq_list q = rest" "ready k db'" "db_sent db' = db_sent ?db @ map c_str cmds" "length cmds = length ss"
      "global_number db' = global_number ?db + int (length ss)"
    using screen_loop_proceeds [OF assms(8) ss(1) 1(3,4)] by blast
  let ?s = "s1\<lparr>recv_buffer := q, is_scr := False\<rparr>"
  let ?s2 = "if tty_cnt ?s = tty_connected ?s then finish_session ?s else ?s\<lparr>state := WaitIPTermInfo\<rparr>"
  have 2: "fsm e s1 ?db = Inr (True, ?s2, db')"
    using 1(2,5) loop(1) by (simp add: fsm_def on_wait_screens_def Let_def)
  have 3: "tty_cnt ?s2 = tty_cnt s + 1" "cq_list (recv_buffer ?s2) = rest" "tty_connected ?s2 = tty_connected s"
    "state ?s2 = (if tty_cnt ?s2 = tty_connected s then Ended else WaitIPTermInfo)"
    "send_buffer ?s2 = send_buffer s @ (if tty_cnt ?s2 = tty_connected s then [plain_request 0xff] else [])"
    using 1(6,7,10) loop(2) by (simp_all add: finish_session_def push_message_def)
  have 4: "db_sent db' = db_sent db @ map c_str (cmd # cmds)" "screenCount c' + 1 = screenCount c + of_nat (length (cmd # cmds))"
    "global_number db' \<le> global_number db + 254"
    using loop(4,5,6) ss(2,3) by (simp_all add: answered_def)
  show thesis
    by (rule that [OF 1(1,2,9) 2 4(1,2) 3(1,4,2,3) loop(3) 3(5) 4(3)])
qed

text \<open>
  C11: a terminal with screens, from one program through the other. The server takes
  the client's answer to an IPTerm request in two calls, enters the terminal and each of its
  screens with one command, counts the terminal once and leaves what follows the answer in the
  buffer, provided the memory of the header it does not fill happens to hold the size of a screen.
\<close>

theorem screens_entered:
  assumes "client_pack_message 0x0B opts c w = Inr (True, c', w')"
    and "state s = WaitIPTermInfo" "cq_inv (recv_buffer s)" "cq_list (recv_buffer s) = send_message c' @ rest"
    and "ready 255 db" "tty_cnt s < 2 ^ 31 - 1" "global_number db + 254 < 2 ^ 31" "lucky e"
  shows "\<exists>s1 db1 s2 db2 cmds. fsm e s db = Inr (True, s1, db1) \<and> state s1 = WaitScrInfo \<and>
    fsm e s1 db1 = Inr (True, s2, db2) \<and> db_sent db2 = db_sent db @ map c_str cmds \<and>
    screenCount c' + 1 = screenCount c + of_nat (length cmds) \<and> tty_cnt s2 = tty_cnt s + 1 \<and>
    state s2 = (if tty_cnt s2 = tty_connected s then Ended else WaitIPTermInfo) \<and>
    cq_list (recv_buffer s2) = rest"
proof -
  have "ready (255 + 0) db"
    using assms(5) by simp
  note both = terminal_with_screens [OF assms(1-4) this assms(6-8)]
  show ?thesis
    by (rule both) blast
qed

text \<open>An environment whose memory under the header holds the size \<open>n\<close>.\<close>

definition env_holding :: "u16 \<Rightarrow> env" where
  "env_holding n = sample_env\<lparr>env_junk := (\<lambda>_. (packet_header 0 0 0)\<lparr>hd_packet_size := n\<rparr>)\<rparr>"

lemma sample_terminal:
  obtains c' w' where "client_pack_message 0x0B one_of_each sample_ts counting_world = Inr (True, c', w')"
    "length (send_message c') \<le> kRecvBufferSize"
proof -
  obtain f body c1 w1 where "pack_ipterm one_of_each sample_ts (begin_message 0x0B) counting_world =
      Inr (client_message 0x0B f body, c1, w1)" "length body \<le> buffer_size"
    using screen_messages(1) [OF one_of_each_range, where c = sample_ts and t = "0x0B" and w = counting_world] by auto
  then show thesis
    using that
    by (simp add: client_pack_message_def stored_def Let_def client_message_def kRecvBufferSize_def kMaxPacketLength_def
        buffer_size_def)
qed

theorem screens_entered_witness:
  "\<exists>c' w' s1 db1 s2 db2 cmds. let e = env_holding 96 in
     client_pack_message 0x0B one_of_each sample_ts counting_world = Inr (True, c', w') \<and>
     fsm e (sample_client WaitIPTermInfo (send_message c')) (sample_db 255) = Inr (True, s1, db1) \<and>
     fsm e s1 db1 = Inr (True, s2, db2) \<and> db_sent db2 = map c_str cmds \<and> state s2 = WaitIPTermInfo"
proof -
  let ?e = "env_holding 96"
  obtain c' w' where p: "client_pack_message 0x0B one_of_each sample_ts counting_world = Inr (True, c', w')"
      "length (send_message c') \<le> kRecvBufferSize"
    by (rule sample_terminal)
  let ?s = "sample_client WaitIPTermInfo (send_message c')"
  have "lucky ?e"
    by (simp add: lucky_def env_holding_def sizeof_ScreenInfoPacket_def)
  moreover have "tty_cnt ?s = 0" "tty_connected ?s = 3" "global_number (sample_db 255) = 0" "db_sent (sample_db 255) = []"
    by (simp_all add: sample_client_def sample_db_def)
  moreover note sample_client_buffer [OF p(2), of WaitIPTermInfo]
  ultimately obtain s1 db1 s2 db2 cmds where "fsm ?e ?s (sample_db 255) = Inr (True, s1, db1)"
      "fsm ?e s1 db1 = Inr (True, s2, db2)" "db_sent db2 = map c_str cmds" "state s2 = WaitIPTermInfo"
    using screens_entered [OF p(1), of ?s "[]" "sample_db 255" ?e] by auto
  with p(1) show ?thesis
    unfolding Let_def by blast
qed

lemma entered_then_thrown:
  assumes "client_pack_message 0x0B opts c w = Inr (True, c', w')"
    and "state s = WaitIPTermInfo" "cq_inv (recv_buffer s)" "cq_list (recv_buffer s) = send_message c' @ rest"
    and "ready 255 db" "tty_cnt s < 2 ^ 31 - 1" "unat (hd_packet_size (env_junk e 0)) < sizeof_ScreenInfoPacket"
  obtains s1 db1 where "fsm e s db = Inr (True, s1, db1)" "tty_cnt s1 = tty_cnt s + 1" "state s1 = WaitScrInfo" "is_scr s1"
    "fsm e s1 db1 = Inl Length_Error"
proof -
  have r: "ready (Suc 254) db"
    using assms(5) by simp
  obtain ss s1 cmd where "\<forall>b \<in> set ss. screen_bytes b" "fsm e s db = Inr (True, s1, answered [cmd] db)"
    "state s1 = WaitScrInfo" "scr_num s1 = int (length ss)" "ss \<noteq> []" "tty_cnt s1 = tty_cnt s + 1" "is_scr s1"
    using terminal_entered [OF assms(1-4) r assms(6), of e] by metis
  note s1 = this
  have "take_packet (env_junk e 0) True s1 = Inl Length_Error"
    using assms(7) by (intro take_screen_short) (simp add: sizeof_ScreenInfoPacket_def)
  then have "screen_loop e 0 (length ss) s1 (answered [cmd] db) = Inl Length_Error"
    using s1(5) by (cases ss) simp_all
  then have "fsm e s1 (answered [cmd] db) = Inl Length_Error"
    using s1(3,4) by (simp add: fsm_def on_wait_screens_def Let_def)
  then show thesis
    using that s1(2,3,6,7) by blast
qed

text \<open>
  C39: the same terminal, when the header that is never filled happens to hold a size
  below that of a screen. The terminal is entered, but the next call of the state machine asks for
  a vector of almost \<open>2 ^ 64\<close> bytes and throws \<^verbatim>\<open>std::length_error\<close>, whatever the client sent.
\<close>

theorem screens_crash:
  assumes "client_pack_message 0x0B opts c w = Inr (True, c', w')"
    and "state s = WaitIPTermInfo" "cq_inv (recv_buffer s)" "cq_list (recv_buffer s) = send_message c' @ rest"
    and "ready 255 db" "tty_cnt s < 2 ^ 31 - 1" "unat (hd_packet_size (env_junk e 0)) < sizeof_ScreenInfoPacket"
  shows "\<exists>s1 db1. fsm e s db = Inr (True, s1, db1) \<and> tty_cnt s1 = tty_cnt s + 1 \<and> state s1 = WaitScrInfo \<and>
    fsm e s1 db1 = Inl Length_Error"
  by (rule entered_then_thrown [OF assms]) blast

theorem screens_crash_witness:
  "\<exists>c' w' s1 db1. client_pack_message 0x0B one_of_each sample_ts counting_world = Inr (True, c', w') \<and>
     fsm (env_holding 50) (sample_client WaitIPTermInfo (send_message c')) (sample_db 255) = Inr (True, s1, db1) \<and>
     fsm (env_holding 50) s1 db1 = Inl Length_Error"
proof -
  obtain c' w' where p: "client_pack_message 0x0B one_of_each sample_ts counting_world = Inr (True, c', w')"
      "length (send_message c') \<le> kRecvBufferSize"
    by (rule sample_terminal)
  let ?s = "sample_client WaitIPTermInfo (send_message c')"
  have "tty_cnt ?s = 0" "unat (hd_packet_size (env_junk (env_holding 50) 0)) < sizeof_ScreenInfoPacket"
    by (simp_all add: sample_client_def env_holding_def sizeof_ScreenInfoPacket_def)
  then show ?thesis
    using screens_crash [OF p(1), of ?s "[]" "sample_db 255" "env_holding 50"] sample_client_buffer [OF p(2)] p(1) by auto
qed

end
