(* ===== verification/Client_Turns.thy ===== *)
theory Client_Turns
  imports Client_Answers
begin

text \<open>
  What arrives later does not disturb the client: each of its functions that returns does the same
  when more is to come on the socket. So a client that is handed its requests one by one, turn by
  turn, does what \<^verbatim>\<open>client_communicate\<close> does when all of them are there.
\<close>

section \<open>More to come\<close>

definition more :: "recv_result list \<Rightarrow> world \<Rightarrow> world" where
  "more rs w = w\<lparr>w_recv := w_recv w @ rs\<rparr>"

lemma more_fields [simp]:
  "w_clock (more rs w) = w_clock w" "w_rand (more rs w) = w_rand w" "w_gen (more rs w) = w_gen w"
  "w_files (more rs w) = w_files w" "w_aton (more rs w) = w_aton w" "w_recv (more rs w) = w_recv w @ rs"
  "w_send (more rs w) = w_send w" "w_sent (more rs w) = w_sent w"
  by (simp_all add: more_def)

lemma more_update [simp]:
  "(more rs w)\<lparr>w_clock := cl\<rparr> = more rs (w\<lparr>w_clock := cl\<rparr>)"
  "(more rs w)\<lparr>w_rand := ra\<rparr> = more rs (w\<lparr>w_rand := ra\<rparr>)"
  "(more rs w)\<lparr>w_send := se\<rparr> = more rs (w\<lparr>w_send := se\<rparr>)"
  "(more rs w)\<lparr>w_sent := st\<rparr> = more rs (w\<lparr>w_sent := st\<rparr>)"
  by (simp_all add: more_def)

lemma more_calls [simp]:
  "call_time (more rs w) = (fst (call_time w), more rs (snd (call_time w)))"
  "call_rand (more rs w) = (fst (call_rand w), more rs (snd (call_rand w)))"
  "call_srand seed (more rs w) = more rs (call_srand seed w)"
  "seed_by_time (more rs w) = more rs (seed_by_time w)"
  by (simp_all add: call_time_def call_rand_def call_srand_def seed_by_time_def Let_def)

text \<open>The result of a call when more is to come than the call has used.\<close>

definition later :: "recv_result list \<Rightarrow> fault + 'a \<times> world \<Rightarrow> fault + 'a \<times> world" where
  "later rs = map_sum id (\<lambda>(x, w). (x, more rs w))"

definition later2 :: "recv_result list \<Rightarrow> fault + 'a \<times> 'b \<times> world \<Rightarrow> fault + 'a \<times> 'b \<times> world" where
  "later2 rs = map_sum id (\<lambda>(x, y, w). (x, y, more rs w))"

definition later3 :: "recv_result list \<Rightarrow> fault + 'a \<times> 'b \<times> 'c \<times> world \<Rightarrow> fault + 'a \<times> 'b \<times> 'c \<times> world" where
  "later3 rs = map_sum id (\<lambda>(x, y, z, w). (x, y, z, more rs w))"

lemmas later_defs = later_def later2_def later3_def and_then_def

lemma more_encrypt [simp]: "encrypt_call auth (more rs w) =
    (case encrypt_call auth w of (r, bs, w') \<Rightarrow> (r, bs, more rs w'))"
  by (simp add: encrypt_call_def case_prod_beta Let_def)

lemma more_push_rands [simp]: "push_rands ks m (more rs w) = (case push_rands ks m w of (m', w') \<Rightarrow> (m', more rs w'))"
  by (induction ks arbitrary: m w) (auto simp: case_prod_beta)

lemma more_address [simp]: "push_address m (more rs w) = push_address m w"
  by (simp add: push_address_def)

lemma more_screen_info [simp]:
  "push_back_screen_info m n c (more rs w) = (case push_back_screen_info m n c w of (m', w') \<Rightarrow> (m', more rs w'))"
  by (simp add: push_back_screen_info_def Let_def case_prod_beta del: push_rands.simps)

lemma more_push_screens [simp]: "push_screens is m c (more rs w) = (case push_screens is m c w of (m', w') \<Rightarrow> (m', more rs w'))"
  by (induction "is" arbitrary: m w) (auto simp: case_prod_beta)

lemma more_screens_loop [simp]: "screens_loop n m c (more rs w) = later rs (screens_loop n m c w)"
  by (simp add: screens_loop_def later_defs)

lemma more_rand_mod [simp]: "rand_mod k (more rs w) = later rs (rand_mod k w)"
  by (simp add: rand_mod_def later_defs case_prod_beta)

lemma more_rand_between [simp]: "rand_between lo hi (more rs w) = later rs (rand_between lo hi w)"
  by (simp add: rand_between_def later_defs split: sum.split)

lemma more_draw_screens [simp]: "draw_screens opts c (more rs w) = later3 rs (draw_screens opts c w)"
  by (simp add: draw_screens_def later_defs Let_def split: sum.split)

lemma more_pack_terminals [simp]: "pack_terminals opts c m (more rs w) = later2 rs (pack_terminals opts c m w)"
  by (simp add: pack_terminals_def terminal_total_def later_defs Let_def split: sum.split option.split)

lemma more_pack_dumb [simp]: "pack_dumb opts c m (more rs w) = later2 rs (pack_dumb opts c m w)"
  by (simp add: pack_dumb_def later_defs Let_def case_prod_beta split: sum.split)

lemma more_pack_ipterm [simp]: "pack_ipterm opts c m (more rs w) = later2 rs (pack_ipterm opts c m w)"
  by (simp add: pack_ipterm_def later_defs Let_def split: sum.split)

lemma more_pack_auth [simp]: "pack_auth dev m (more rs w) = (case pack_auth dev m w of (bs, w') \<Rightarrow> (bs, more rs w'))"
  by (simp add: pack_auth_def Let_def case_prod_beta)

lemma more_pack_file [simp]: "pack_file f n m (more rs w) = pack_file f n m w"
  by (simp add: pack_file_def read_dat_def)

lemma more_stored [simp]: "stored m early c (more rs w) = later2 rs (stored m early c w)"
  by (simp add: stored_def later_defs split: option.split)

lemma more_if: "x = later2 rs x' \<Longrightarrow> y = later2 rs y' \<Longrightarrow> (if b then x else y) = later2 rs (if b then x' else y')"
  by simp

lemma more_kept:
  "p = later2 rs p' \<Longrightarrow> and_then p (\<lambda>(bs, c1, w1). stored (Some bs) True c1 w1) =
     later2 rs (and_then p' (\<lambda>(bs, c1, w1). stored (Some bs) True c1 w1))"
  by (simp add: later_defs stored_def split: sum.split)

lemma more_file: "stored (pack_file f n m (more rs w)) True c (more rs w) = later2 rs (stored (pack_file f n m w) True c w)"
  by simp

lemma more_response:
  "(let (bs, w1) = pack_auth dev m (more rs w) in stored bs False c w1) =
     later2 rs (let (bs, w1) = pack_auth dev m w in stored bs False c w1)"
  by (simp add: case_prod_beta)

lemma more_pack [simp]: "client_pack_message t opts c (more rs w) = later2 rs (client_pack_message t opts c w)"
proof -
  note rules = more_if more_kept more_file more_response more_stored more_pack_terminals more_pack_dumb more_pack_ipterm
  show ?thesis
    unfolding client_pack_message_def Let_def [of "begin_message t"] Let_def [of "case_prod _"]
    by (rule rules)+
qed

section \<open>Sending and receiving\<close>

lemma more_call_send [simp]: "call_send bs (more rs w) = later rs (call_send bs w)"
  by (simp add: call_send_def later_defs Let_def split: list.split)

lemma more_send_data [simp]: "send_data head c (more rs w) = later2 rs (send_data head c w)"
  by (simp add: send_data_def later_defs Let_def split: sum.split)

lemma more_send_msg [simp]: "send_msg c (more rs w) = later2 rs (send_msg c w)"
  by (simp add: send_msg_def later_defs Let_def split: sum.split)

text \<open>A call of \<^verbatim>\<open>recv\<close> that would block does not when more is to come; the others are the same.\<close>

lemma more_call_recv: "call_recv w = Inr (r, w') \<Longrightarrow> call_recv (more rs w) = Inr (r, more rs w')"
  by (auto simp: call_recv_def more_def split: list.splits recv_result.splits)

lemma more_recv_data:
  assumes "recv_data head c w = Inr (ok, c', w')"
  shows "recv_data head c (more rs w) = Inr (ok, c', more rs w')"
proof (cases "data_length head > 0")
  case True
  then obtain r w1 where r: "call_recv w = Inr (r, w1)"
    using assms by (auto simp: recv_data_def Let_def and_then_eq_Inr_iff)
  show ?thesis
    using assms True r more_call_recv [OF r, of rs] by (cases r) (auto simp: recv_data_def Let_def split: if_split_asm)
next
  case False
  then show ?thesis
    using assms by (simp add: recv_data_def)
qed

lemma more_recv_msg:
  assumes "recv_msg c w = Inr (ok, c', w')"
  shows "recv_msg c (more rs w) = Inr (ok, c', more rs w')"
proof -
  obtain r w1 where r: "call_recv w = Inr (r, w1)"
    using assms by (auto simp: recv_msg_def and_then_eq_Inr_iff)
  show ?thesis
    using assms r more_call_recv [OF r, of rs] more_recv_data
    by (cases r) (auto simp: recv_msg_def split: if_split_asm)
qed

lemma more_unpack [simp]: "client_unpack_message opts c (more rs w) = later2 rs (client_unpack_message opts c w)"
proof -
  have "refuse_version opts c (more rs w) = later2 rs (refuse_version opts c w)" for c
    by (simp add: refuse_version_def later_defs split: sum.split)
  then have "unpack_request m opts c (more rs w) = later2 rs (unpack_request m opts c w)" for m c
    by (simp add: unpack_request_def later_defs Let_def split: sum.split)
  then show ?thesis
    by (simp add: client_unpack_message_def later_defs split: sum.split)
qed

section \<open>Turn by turn\<close>

definition able :: "Options \<Rightarrow> nat \<Rightarrow> TsClient \<Rightarrow> world \<Rightarrow> bool" where
  "able opts n c w \<longleftrightarrow> good_surroundings opts w \<and> wf_dev (ts_dev c) \<and> willing n w"

lemma able_fewer: "able opts n c w \<Longrightarrow> k \<le> n \<Longrightarrow> able opts k c w"
  by (auto simp: able_def willing_def)

fun client_turns :: "Options \<Rightarrow> bytes list \<Rightarrow> TsClient \<Rightarrow> world \<Rightarrow> fault + TsClient \<times> world" where
  "client_turns opts [] c w = Inr (c, w)"
| "client_turns opts (m # ms) c w =
     and_then (turn opts c (w\<lparr>w_recv := map Got (pieces m)\<rparr>)) (\<lambda>(_, c1, w1). client_turns opts ms c1 w1)"

text \<open>A turn in two halves: the request is read, the answer sent. Both halves work.\<close>

lemma turn_halves:
  assumes "understood m" "able opts (Suc n) c w"
  obtains ok c1 c2 p c3 w3 c4 w4 where "recv_msg c (w\<lparr>w_recv := map Got (pieces m)\<rparr>) = Inr (True, c1, w\<lparr>w_recv := []\<rparr>)"
    "client_unpack_message opts c1 (w\<lparr>w_recv := []\<rparr>) = Inr (ok, c2, w\<lparr>w_recv := []\<rparr>)"
    "recvPacketType c2 = m ! 1" "sendPacketType c2 = m ! 1"
    "client_pack_message (m ! 1) opts c2 (w\<lparr>w_recv := []\<rparr>) = Inr (p, c3, w3)" "send_msg c3 w3 = Inr (True, c4, w4)"
    "turn opts c (w\<lparr>w_recv := map Got (pieces m)\<rparr>) = Inr (ok \<and> p, c4, w4)" "able opts n c4 w4" "w_recv w4 = []"
proof -
  let ?w = "w\<lparr>w_recv := map Got (pieces m)\<rparr>" and ?w1 = "w\<lparr>w_recv := []\<rparr>"
  obtain ok c1 c2 where r: "recv_msg c ?w = Inr (True, c1, ?w1)" "client_unpack_message opts c1 ?w1 = Inr (ok, c2, ?w1)"
      "recvPacketType c2 = m ! 1" "sendPacketType c2 = m ! 1" "ts_dev c2 = ts_dev c"
    using request_read [OF assms(1), of ?w "[]" c opts] by auto
  have "good_surroundings opts ?w1" "wf_dev (ts_dev c2)" "m ! 1 \<in> answerable" "willing (Suc n) ?w1"
    using assms r(5) by (simp_all add: able_def good_surroundings_def willing_def understood_def)
  from answer_sent [OF this] obtain p c3 w3 c4 w4 where s: "client_pack_message (m ! 1) opts c2 ?w1 = Inr (p, c3, w3)"
      "send_msg c3 w3 = Inr (True, c4, w4)" "w_recv w4 = []" "willing n w4" "good_surroundings opts w4" "ts_dev c4 = ts_dev c2"
    by auto
  show thesis
    using r s assms(2) by (intro that [of c1 ok c2 p c3 w3 c4 w4]) (simp_all add: turn_def able_def)
qed

text \<open>The end of \<^verbatim>\<open>client_communicate\<close>, after its loop.\<close>

definition farewell :: "Options \<Rightarrow> bool \<times> TsClient \<times> world \<Rightarrow> fault + int \<times> TsClient \<times> world" where
  "farewell opts = (\<lambda>(done, c3, w3).
     if \<not> done then Inr (1, c3, w3)
     else and_then (client_pack_message (sendPacketType c3) opts c3 w3) (\<lambda>(_, c4, w4).
       and_then (send_msg c4 w4) (\<lambda>(ok, c5, w5). Inr (if ok then 0 else 1, c5, w5))))"

lemma client_communicate_farewell:
  "client_communicate opts c w =
     and_then (recv_msg c (seed_by_time w)) (\<lambda>(_, c1, w1).
     and_then (client_unpack_message opts c1 w1) (\<lambda>(_, c2, w2).
     and_then (communicate_loop opts c2 w2) (farewell opts)))"
  unfolding client_communicate_def farewell_def ..

text \<open>
  The loop, from where a request of type \<open>t\<close> has been read to where the last of \<open>ms\<close> has been
  answered. The answer to the first is what the premises say; the others come turn by turn.
\<close>

lemma loop_turns:
  "\<lbrakk>recvPacketType c = t; sendPacketType c = t; t \<noteq> 0xFF; client_pack_message t opts c w = Inr (p, c1, w1);
     send_msg c1 w1 = Inr (True, c2, w2); able opts (length ms) c2 w2; w_recv w2 = []; \<forall>m \<in> set ms. understood m;
     \<forall>m \<in> set (butlast ms). m ! 1 \<noteq> 0xFF; client_turns opts ms c2 w2 = Inr (c', w')\<rbrakk> \<Longrightarrow>
   and_then (communicate_loop opts c (more (map Got (concat (map pieces ms))) w)) (farewell opts) =
     (if ms \<noteq> [] \<and> last ms ! 1 = 0xFF then Inr (0, c', w') else Inl Waiting)"
proof (induction ms arbitrary: c t w p c1 w1 c2 w2)
  case Nil
  then have "exchange opts c (more [] w) = Inl Waiting"
    by (simp add: exchange_def later2_def recv_msg_def call_recv_def)
  then show ?case
    using Nil.prems(1,3) by (simp add: communicate_loop.simps)
next
  case (Cons m ms)
  let ?rs = "map Got (concat (map pieces ms))"
  have m: "understood m" "able opts (Suc (length ms)) c2 w2"
    using Cons.prems(6,8) by simp_all
  obtain ok c3 c4 p' c5 w5 c6 w6 where h: "recv_msg c2 (w2\<lparr>w_recv := map Got (pieces m)\<rparr>) = Inr (True, c3, w2\<lparr>w_recv := []\<rparr>)"
    "client_unpack_message opts c3 (w2\<lparr>w_recv := []\<rparr>) = Inr (ok, c4, w2\<lparr>w_recv := []\<rparr>)"
    "recvPacketType c4 = m ! 1" "sendPacketType c4 = m ! 1"
    "client_pack_message (m ! 1) opts c4 (w2\<lparr>w_recv := []\<rparr>) = Inr (p', c5, w5)" "send_msg c5 w5 = Inr (True, c6, w6)"
    "turn opts c2 (w2\<lparr>w_recv := map Got (pieces m)\<rparr>) = Inr (ok \<and> p', c6, w6)" "able opts (length ms) c6 w6" "w_recv w6 = []"
    by (rule turn_halves [OF m]) (rule that)
  have "more (map Got (concat (map pieces (m # ms)))) w2 = more ?rs (w2\<lparr>w_recv := map Got (pieces m)\<rparr>)"
    using Cons.prems(7) by (simp add: more_def)
  then have "exchange opts c (more (map Got (concat (map pieces (m # ms)))) w) = Inr (True, c4, more ?rs (w2\<lparr>w_recv := []\<rparr>))"
    using Cons.prems(2,4,5) more_recv_msg [OF h(1), of ?rs] h(2) by (simp add: exchange_def later2_def del: map_map)
  then have loop: "communicate_loop opts c (more (map Got (concat (map pieces (m # ms)))) w) =
      communicate_loop opts c4 (more ?rs (w2\<lparr>w_recv := []\<rparr>))"
    using Cons.prems(1,3) by (simp add: communicate_loop.simps [of opts c])
  have rest: "client_turns opts ms c6 w6 = Inr (c', w')"
    using Cons.prems(10) h(7) by simp
  show ?case
  proof (cases "m ! 1 = 0xFF")
    case True
    then have ms: "ms = []"
      using Cons.prems(9) by (cases ms) auto
    have "communicate_loop opts c4 (w2\<lparr>w_recv := []\<rparr>) = Inr (True, c4, w2\<lparr>w_recv := []\<rparr>)"
      using h(3) True by (simp add: communicate_loop.simps)
    then show ?thesis
      unfolding loop using h(4,5,6) rest True by (simp add: ms more_def farewell_def)
  next
    case False
    have "\<forall>m \<in> set ms. understood m" "\<forall>m \<in> set (butlast ms). m ! 1 \<noteq> 0xFF"
      using Cons.prems(8,9) by (auto split: if_splits)
    from Cons.IH [OF h(3,4) False h(5,6,8,9) this rest] show ?thesis
      unfolding loop using False by simp
  qed
qed

text \<open>A client that has been told to stop returns 0; otherwise it waits for what comes next.\<close>

lemma turns_communicate:
  assumes "able opts (length ms) c (seed_by_time w)" "\<forall>m \<in> set ms. understood m" "ms \<noteq> []"
    and "\<forall>m \<in> set (butlast ms). m ! 1 \<noteq> 0xFF" "hd ms ! 1 \<noteq> 0xFF"
    and "client_turns opts ms c (seed_by_time w) = Inr (c', w')"
  shows "client_communicate opts c (w\<lparr>w_recv := map Got (concat (map pieces ms))\<rparr>) =
    (if 2 \<le> length ms \<and> last ms ! 1 = 0xFF then Inr (0, c', w') else Inl Waiting)"
proof -
  obtain m rest where ms: "ms = m # rest"
    using assms(3) by (cases ms) auto
  let ?w = "seed_by_time w" and ?rs = "map Got (concat (map pieces rest))"
  have m: "understood m" "able opts (Suc (length rest)) c ?w"
    using assms(1,2) by (simp_all add: ms)
  obtain ok c1 c2 p c3 w3 c4 w4 where h: "recv_msg c (?w\<lparr>w_recv := map Got (pieces m)\<rparr>) = Inr (True, c1, ?w\<lparr>w_recv := []\<rparr>)"
    "client_unpack_message opts c1 (?w\<lparr>w_recv := []\<rparr>) = Inr (ok, c2, ?w\<lparr>w_recv := []\<rparr>)"
    "recvPacketType c2 = m ! 1" "sendPacketType c2 = m ! 1"
    "client_pack_message (m ! 1) opts c2 (?w\<lparr>w_recv := []\<rparr>) = Inr (p, c3, w3)" "send_msg c3 w3 = Inr (True, c4, w4)"
    "turn opts c (?w\<lparr>w_recv := map Got (pieces m)\<rparr>) = Inr (ok \<and> p, c4, w4)" "able opts (length rest) c4 w4" "w_recv w4 = []"
    by (rule turn_halves [OF m]) (rule that)
  have "\<forall>m \<in> set rest. understood m" "\<forall>m \<in> set (butlast rest). m ! 1 \<noteq> 0xFF" "m ! 1 \<noteq> 0xFF"
      "client_turns opts rest c4 w4 = Inr (c', w')"
    using assms(2,4,5,6) h(7) by (auto simp: ms split: if_splits)
  from loop_turns [OF h(3,4) this(3) h(5,6,8,9) this(1,2,4)] have
    "and_then (communicate_loop opts c2 (more ?rs (?w\<lparr>w_recv := []\<rparr>))) (farewell opts) =
      (if rest \<noteq> [] \<and> last rest ! 1 = 0xFF then Inr (0, c', w') else Inl Waiting)" .
  moreover have "seed_by_time (w\<lparr>w_recv := map Got (concat (map pieces ms))\<rparr>) = more ?rs (?w\<lparr>w_recv := map Got (pieces m)\<rparr>)"
    by (simp add: ms more_def seed_by_time_def call_time_def call_srand_def)
  ultimately show ?thesis
    using more_recv_msg [OF h(1), of ?rs] h(2)
    by (simp add: client_communicate_farewell later2_def ms Suc_le_eq)
qed

end
