(* ===== verification/Transfer_Layer.thy ===== *)
theory Transfer_Layer
  imports Session_Progress "HOL-Library.Sublist"
begin

text \<open>
  \<^verbatim>\<open>TransferLayer\<close> of \<^verbatim>\<open>server/src/transfer.cpp\<close>: receiving into a session's queue, sending from
  its message queue, and one round of the loop around \<^verbatim>\<open>select\<close>. The state machine is an argument
  \<open>step\<close> of the round; the interface \<open>session_handler\<close> says what the transfer layer relies on, and
  \<open>fsm\<close> implements it.

  What the socket calls return is input: a list of results of \<^verbatim>\<open>recv\<close> (a call that finds the list
  empty gets the error of a non-blocking socket without data), the result of \<^verbatim>\<open>send\<close>, the
  descriptors \<^verbatim>\<open>select\<close> reports, the outcome of \<^verbatim>\<open>accept\<close>.
\<close>

section \<open>Receiving\<close>

datatype StatusCode = OK | RecvError | SendError

text \<open>
  The loop that waits for a header. Every turn writes the received bytes to the front of the
  temporary buffer, adds their number to \<^verbatim>\<open>received_bytes\<close>, and enqueues that many bytes from the
  front.
\<close>

fun recv_header :: "recv_result list \<Rightarrow> nat \<Rightarrow> bytes \<Rightarrow> Client \<Rightarrow> fault + StatusCode \<times> Client \<times> recv_result list" where
  "recv_header [] n tmp c = Inr (if queue_size (recv_buffer c) < kHeaderSize then RecvError else OK, c, [])"
| "recv_header (r # rs) n tmp c =
     (if \<not> queue_size (recv_buffer c) < kHeaderSize then Inr (OK, c, r # rs)
      else (case r of
        Failed \<Rightarrow> Inr (RecvError, c, rs)
      | Got bs \<Rightarrow>
          if bs = [] then Inr (RecvError, c, rs)
          else (let tmp' = write_front bs tmp; n' = n + length bs in
            if get_num_free_bytes (recv_buffer c) < n' then recv_header rs n' tmp' c
            else if length tmp' < n' then Inl Out_Of_Bounds
            else recv_header rs n' tmp'
              (c\<lparr>recv_buffer := snd (enqueue (take n' tmp') (recv_buffer c))\<rparr>))))"

definition recv_more :: "recv_result list \<Rightarrow> Client \<Rightarrow> StatusCode \<times> Client \<times> recv_result list" where
  "recv_more rs c =
     (case rs of
       [] \<Rightarrow> (RecvError, c, [])
     | Failed # rs' \<Rightarrow> (RecvError, c, rs')
     | Got bs # rs' \<Rightarrow> (OK, c\<lparr>recv_buffer := snd (enqueue bs (recv_buffer c))\<rparr>, rs'))"

definition try_recv :: "recv_result list \<Rightarrow> Client \<Rightarrow> fault + StatusCode \<times> Client \<times> recv_result list" where
  "try_recv rs c =
     (if queue_size (recv_buffer c) < kHeaderSize
      then recv_header rs 0 (replicate kMaxPacketLength 0) c
      else if is_scr c = False
      then Inr (if \<not> is_full_queue (recv_buffer c) \<and> current_packet_size (recv_buffer c) \<noteq> 0
                then recv_more rs c else (OK, c, rs))
      else Inr (if \<not> is_full_queue (recv_buffer c) \<and> scr_packet_size c \<noteq> 0
                then recv_more rs c else (OK, c, rs)))"

section \<open>Sending\<close>

text \<open>\<open>num\<close> is what \<^verbatim>\<open>send\<close> returns for the first message of the queue.\<close>

definition try_send :: "int \<Rightarrow> Client \<Rightarrow> StatusCode \<times> Client" where
  "try_send num c =
     (case send_buffer c of
       [] \<Rightarrow> (OK, c)
     | v # vs \<Rightarrow>
         if num \<le> 0 then (SendError, c)
         else if num < int (length v) then (OK, c\<lparr>send_buffer := drop (nat num) v # vs\<rparr>)
         else (OK, c\<lparr>send_buffer := vs\<rparr>))"

section \<open>The descriptor sets\<close>

text \<open>The sets of descriptors to watch and the largest of them.\<close>

definition reset_rw_fd_sets :: "Client list \<Rightarrow> int list \<times> int list \<times> int" where
  "reset_rw_fd_sets cs =
     (let rd = map socket_fd (filter (\<lambda>c. kHeaderSize < get_num_free_bytes (recv_buffer c)) cs);
          wr = map socket_fd cs
      in (rd, wr, foldl max 0 wr))"

section \<open>Sessions\<close>

definition remove_client :: "int \<Rightarrow> Client list \<Rightarrow> Client list" where
  "remove_client fd cs = filter (\<lambda>c. socket_fd c \<noteq> fd) cs"

text \<open>\<open>accept\<close> fails, or gives a descriptor and the text of the peer's address.\<close>

record accepted =
  ac_fd :: int
  ac_ip :: string
  ac_fresh :: "nat \<Rightarrow> u8"
  ac_uninit :: Client

definition accept_new_client :: "accepted option \<Rightarrow> Client list \<Rightarrow> Client list" where
  "accept_new_client a cs =
     (case a of None \<Rightarrow> cs
      | Some r \<Rightarrow> cs @ [(new_client (ac_uninit r) (ac_fresh r) (ac_fd r) kRecvBufferSize)\<lparr>ipaddr := ac_ip r\<rparr>])"

section \<open>A round of the loop\<close>

type_synonym 'd handler = "env \<Rightarrow> Client \<Rightarrow> 'd \<Rightarrow> fault + bool \<times> Client \<times> 'd"

text \<open>What one client's descriptor meets in a round; the surroundings of the calls it leads to.\<close>

record sock =
  sk_readable :: bool
  sk_recv :: "recv_result list"
  sk_writable :: bool
  sk_send :: int
  sk_env :: env

datatype served = Kept Client | Dropped

text \<open>
  The loop is a range-based \<^verbatim>\<open>for\<close> over a linked list and goes on with the reference \<^verbatim>\<open>el\<close> after calls
  of \<^verbatim>\<open>remove_client\<close>. \<open>element fd cs\<close> reads the element with the descriptor \<open>fd\<close>: when it is not in the
  list any more, its node has been freed.
\<close>

definition element :: "int \<Rightarrow> Client list \<Rightarrow> fault + Client" where
  "element fd cs = (case find (\<lambda>c. socket_fd c = fd) cs of None \<Rightarrow> Inl Use_After_Free | Some c \<Rightarrow> Inr c)"

text \<open>
  The body of the loop for the session \<open>c\<close>, which stands in the list between \<open>done\<close> and \<open>rest\<close>.
  \<open>finish_serve\<close> is its end: what is queued is sent; when that fails the client is removed, and the
  loop steps from its element to the next. \<open>serve\<close> is the whole: after a refusal by the state machine
  the client is removed and the descriptor of its element read. \<open>Dropped\<close> is the removal that is
  followed by \<^verbatim>\<open>break\<close>.
\<close>

definition finish_serve :: "sock \<Rightarrow> Client list \<Rightarrow> Client list \<Rightarrow> Client \<Rightarrow> 'd \<Rightarrow> fault + served \<times> 'd" where
  "finish_serve s done rest c db =
     (if sk_writable s
      then (case try_send (sk_send s) c of
             (OK, c') \<Rightarrow> Inr (Kept c', db)
           | (_, c') \<Rightarrow>
               and_then (element (socket_fd c') (remove_client (socket_fd c') (done @ c' # rest))) (\<lambda>el.
               Inr (Kept el, db)))
      else Inr (Kept c, db))"

definition serve :: "'d handler \<Rightarrow> sock \<Rightarrow> Client list \<Rightarrow> Client list \<Rightarrow> Client \<Rightarrow> 'd \<Rightarrow> fault + served \<times> 'd" where
  "serve step s done rest c db =
     (if sk_readable s
      then and_then (try_recv (sk_recv s) c) (\<lambda>(st, c1, _).
        let buffer_size = int (queue_size (recv_buffer c1));
            packet_size = uint (current_packet_size (recv_buffer c1))
        in if st = OK \<and> buffer_size \<ge> packet_size
           then and_then (step (sk_env s) c1 db) (\<lambda>(ok, c2, db').
             if ok then finish_serve s done rest c2 db'
             else and_then (element (socket_fd c2) (remove_client (socket_fd c2) (done @ c2 # rest))) (\<lambda>el.
               finish_serve s done rest el db'))
           else Inr (Dropped, db))
      else finish_serve s done rest c db)"

fun serve_all ::
  "'d handler \<Rightarrow> (int \<Rightarrow> sock) \<Rightarrow> Client list \<Rightarrow> Client list \<Rightarrow> 'd \<Rightarrow> fault + Client list \<times> 'd" where
  "serve_all step io done [] db = Inr (done, db)"
| "serve_all step io done (c # cs) db =
     and_then (serve step (io (socket_fd c)) done cs c db) (\<lambda>(r, db').
       case r of Kept c' \<Rightarrow> serve_all step io (done @ [c']) cs db'
       | Dropped \<Rightarrow> Inr (remove_client (socket_fd c) (done @ c # cs), db'))"

text \<open>\<^verbatim>\<open>remove_client\<close> leaves no element with the descriptor, so whoever reads on reads freed memory.\<close>

lemma element_removed [simp]: "element fd (remove_client fd cs) = Inl Use_After_Free"
  by (auto simp: element_def remove_client_def find_None_iff split: option.split)

lemma serve_anywhere: "serve step s done rest c db = serve step s [] [] c db"
  unfolding serve_def finish_serve_def element_removed by (rule refl)

text \<open>
  The second loop of a round: greet new sessions and read awaited screens. The value the state
  machine returns is not looked at.
\<close>

definition nudge :: "'d handler \<Rightarrow> (nat \<Rightarrow> env) \<Rightarrow> Client \<Rightarrow> 'd \<Rightarrow> fault + Client \<times> 'd" where
  "nudge step envs c db =
     and_then (if state c = Acceptance then and_then (step (envs 0) c db) (\<lambda>(_, c', db'). Inr (c', db'))
               else Inr (c, db)) (\<lambda>(c1, db1).
     if is_scr c1 then and_then (step (envs 1) c1 db1) (\<lambda>(_, c', db'). Inr (c', db')) else Inr (c1, db1))"

fun nudge_all :: "'d handler \<Rightarrow> (int \<Rightarrow> nat \<Rightarrow> env) \<Rightarrow> Client list \<Rightarrow> 'd \<Rightarrow> fault + Client list \<times> 'd" where
  "nudge_all step envs [] db = Inr ([], db)"
| "nudge_all step envs (c # cs) db =
     and_then (nudge step (envs (socket_fd c)) c db) (\<lambda>(c', db').
     and_then (nudge_all step envs cs db') (\<lambda>(cs', db''). Inr (c' # cs', db'')))"

text \<open>
  \<open>rd_rv\<close> is what \<^verbatim>\<open>select\<close> returns. The descriptors of \<open>rd_io\<close> can only be ready if they were
  in the sets handed to \<^verbatim>\<open>select\<close>.
\<close>

record round_input =
  rd_rv :: int
  rd_io :: "int \<Rightarrow> sock"
  rd_accept :: "accepted option option"
  rd_envs :: "int \<Rightarrow> nat \<Rightarrow> env"

definition watched :: "Client list \<Rightarrow> (int \<Rightarrow> sock) \<Rightarrow> int \<Rightarrow> sock" where
  "watched cs io fd =
     (let (rd, wr, _) = reset_rw_fd_sets cs; s = io fd
      in s\<lparr>sk_readable := sk_readable s \<and> fd \<in> set rd, sk_writable := sk_writable s \<and> fd \<in> set wr\<rparr>)"

definition select_round :: "'d handler \<Rightarrow> round_input \<Rightarrow> Client list \<Rightarrow> 'd \<Rightarrow> fault + Client list \<times> 'd" where
  "select_round step inp cs db =
     and_then (if rd_rv inp = -1 \<or> rd_rv inp = 0 then Inr (cs, db)
               else and_then (serve_all step (watched cs (rd_io inp)) [] cs db) (\<lambda>(cs', db').
                 Inr (case rd_accept inp of None \<Rightarrow> cs' | Some a \<Rightarrow> accept_new_client a cs', db')))
       (\<lambda>(cs1, db1). nudge_all step (rd_envs inp) cs1 db1)"

definition select_loop :: "round_input list \<Rightarrow> Client list \<Rightarrow> Database \<Rightarrow> fault + Client list \<times> Database" where
  "select_loop inps cs db = foldl (\<lambda>r inp. and_then r (\<lambda>(cs', db'). select_round fsm inp cs' db')) (Inr (cs, db)) inps"

section \<open>What the transfer layer relies on\<close>

lemma subseq_sub: "subseq xs ys \<Longrightarrow> set xs \<subseteq> set ys \<and> (distinct ys \<longrightarrow> distinct xs)"
  by (induction rule: list_emb.induct) auto

text \<open>
  \<open>good\<close> is the invariant of a session. The state machine keeps it, keeps the descriptor and only
  appends to the messages; arriving bytes, leaving bytes and a new session agree with it.
\<close>

locale session_handler =
  fixes step :: "'d handler"
    and good :: "Client \<Rightarrow> bool"
  assumes step_good: "step e c db = Inr (ok, c', db') \<Longrightarrow> good c \<Longrightarrow> good c'"
    and step_fd: "step e c db = Inr (ok, c', db') \<Longrightarrow> socket_fd c' = socket_fd c"
    and step_appends: "step e c db = Inr (ok, c', db') \<Longrightarrow> prefix (send_buffer c) (send_buffer c')"
    and good_arrive: "good c \<Longrightarrow> good (c\<lparr>recv_buffer := snd (enqueue bs (recv_buffer c))\<rparr>)"
    and good_sent: "good c \<Longrightarrow> good (sent_bytes n c)"
    and good_new: "good ((new_client u fresh fd kRecvBufferSize)\<lparr>ipaddr := ip\<rparr>)"
begin

lemma recv_header_good:
  "recv_header rs n tmp c = Inr (st, c', rs') \<Longrightarrow> good c \<Longrightarrow>
     good c' \<and> socket_fd c' = socket_fd c \<and> send_buffer c' = send_buffer c"
proof (induction rs arbitrary: n tmp c)
  case (Cons r rs)
  show ?case
  proof (cases "queue_size (recv_buffer c) < kHeaderSize \<and> r \<noteq> Failed \<and> r \<noteq> Got []")
    case False
    with Cons.prems show ?thesis by (cases r) (auto split: if_splits)
  next
    case True
    then obtain bs where r: "r = Got bs" "bs \<noteq> []" by (cases r) auto
    let ?n = "n + length bs" and ?tmp = "write_front bs tmp"
    let ?c = "c\<lparr>recv_buffer := snd (enqueue (take ?n ?tmp) (recv_buffer c))\<rparr>"
    have "recv_header rs ?n ?tmp c = Inr (st, c', rs') \<or> recv_header rs ?n ?tmp ?c = Inr (st, c', rs')"
      using Cons.prems(1) True r by (simp add: Let_def split: if_splits)
    then show ?thesis
      using Cons.IH [of ?n ?tmp c] Cons.IH [of ?n ?tmp ?c] Cons.prems(2) good_arrive [of c "take ?n ?tmp"]
      by auto
  qed
qed auto

lemma recv_more_good:
  "good c \<Longrightarrow> recv_more rs c = (st, c', rs') \<Longrightarrow>
     good c' \<and> socket_fd c' = socket_fd c \<and> send_buffer c' = send_buffer c"
  by (auto simp: recv_more_def good_arrive split: list.splits recv_result.splits)

lemma try_recv_good:
  "try_recv rs c = Inr (st, c', rs') \<Longrightarrow> good c \<Longrightarrow>
     good c' \<and> socket_fd c' = socket_fd c \<and> send_buffer c' = send_buffer c"
  by (auto simp: try_recv_def split: if_splits dest: recv_header_good recv_more_good)

lemma try_send_good:
  assumes "try_send n c = (OK, c')" "good c"
  shows "good c' \<and> socket_fd c' = socket_fd c"
proof -
  have "c' = c \<or> c' = sent_bytes (nat n) c"
    using assms(1) by (auto simp: try_send_def sent_bytes_def split: list.splits if_splits)
  then show ?thesis
    using assms(2) good_sent by (auto simp: sent_bytes_def)
qed

lemma finish_serve_good:
  "finish_serve s done rest c db = Inr (r, db') \<Longrightarrow> good c \<Longrightarrow>
     \<exists>c'. r = Kept c' \<and> good c' \<and> socket_fd c' = socket_fd c"
  by (auto simp: finish_serve_def try_send_good split: if_splits prod.splits StatusCode.splits)

lemma serve_good:
  assumes "serve step s done rest c db = Inr (r, db')" "good c"
  shows "r = Dropped \<or> (\<exists>c'. r = Kept c' \<and> good c' \<and> socket_fd c' = socket_fd c)"
proof (cases "sk_readable s")
  case False
  with assms show ?thesis
    using finish_serve_good [of s "done" rest c db r db'] by (simp add: serve_def)
next
  case True
  obtain st c1 rs where recv: "try_recv (sk_recv s) c = Inr (st, c1, rs)"
    using assms(1) True by (auto simp: serve_def and_then_eq_Inr_iff)
  have c1: "good c1" "socket_fd c1 = socket_fd c"
    using try_recv_good [OF recv assms(2)] by simp_all
  show ?thesis
  proof (cases "r = Dropped")
    case False
    then obtain c2 db2 where "step (sk_env s) c1 db = Inr (True, c2, db2)" "finish_serve s done rest c2 db2 = Inr (r, db')"
      using assms(1) True recv by (auto simp: serve_def and_then_eq_Inr_iff Let_def split: if_splits)
    then show ?thesis
      using c1 step_good step_fd finish_serve_good by metis
  qed simp
qed

text \<open>The sessions after the first loop are some of those before it, in order, all of them good.\<close>

lemma serve_all_good:
  "serve_all step io done cs db = Inr (cs', db') \<Longrightarrow> \<forall>c \<in> set (done @ cs). good c \<Longrightarrow>
     (\<forall>c \<in> set cs'. good c) \<and> subseq (map socket_fd cs') (map socket_fd (done @ cs))"
proof (induction cs arbitrary: "done" db)
  case (Cons c cs)
  obtain r db1 where s: "serve step (io (socket_fd c)) done cs c db = Inr (r, db1)"
    using Cons.prems(1) by (auto simp: and_then_eq_Inr_iff)
  have "r = Dropped \<or> (\<exists>c'. r = Kept c' \<and> good c' \<and> socket_fd c' = socket_fd c)"
    using serve_good [OF s] Cons.prems(2) by simp
  then show ?case
  proof (elim disjE exE conjE)
    assume "r = Dropped"
    then have "cs' = remove_client (socket_fd c) (done @ c # cs)"
      using Cons.prems(1) s by simp
    moreover have "subseq (map socket_fd (filter P ys)) (map socket_fd ys)" for P and ys :: "Client list"
      by (intro subseq_map subseq_filter_left)
    ultimately show ?thesis
      using Cons.prems(2) by (auto simp: remove_client_def simp del: filter_append map_append filter.simps)
  next
    fix c' assume "r = Kept c'" "good c'" "socket_fd c' = socket_fd c"
    then show ?thesis
      using Cons.IH [of "done @ [c']" db1] Cons.prems s by simp
  qed
qed auto

lemma nudge_good:
  assumes "nudge step envs c db = Inr (c', db')" "good c"
  shows "good c' \<and> socket_fd c' = socket_fd c"
proof -
  obtain c1 db1 where 1: "(if state c = Acceptance then and_then (step (envs 0) c db) (\<lambda>(_, c', db'). Inr (c', db'))
      else Inr (c, db)) = Inr (c1, db1)"
    and 2: "(if is_scr c1 then and_then (step (envs 1) c1 db1) (\<lambda>(_, c', db'). Inr (c', db')) else Inr (c1, db1)) =
      Inr (c', db')"
    using assms(1) by (auto simp: nudge_def and_then_eq_Inr_iff simp del: One_nat_def)
  have "good c1 \<and> socket_fd c1 = socket_fd c"
    using 1 assms(2) step_good step_fd by (auto simp: and_then_eq_Inr_iff split: if_splits)
  then show ?thesis
    using 2 step_good step_fd by (auto simp: and_then_eq_Inr_iff split: if_splits)
qed

lemma nudge_all_good:
  "nudge_all step envs cs db = Inr (cs', db') \<Longrightarrow> \<forall>c \<in> set cs. good c \<Longrightarrow>
     (\<forall>c \<in> set cs'. good c) \<and> map socket_fd cs' = map socket_fd cs"
proof (induction cs arbitrary: cs' db)
  case (Cons c cs)
  then obtain c1 db1 cs1 where "nudge step (envs (socket_fd c)) c db = Inr (c1, db1)"
      "nudge_all step envs cs db1 = Inr (cs1, db')" "cs' = c1 # cs1"
    by (auto simp: and_then_eq_Inr_iff)
  with Cons.IH [of db1 cs1] Cons.prems(2) nudge_good [of "envs (socket_fd c)" c db c1 db1] show ?case
    by simp
qed simp

text \<open>A round keeps every session good and the descriptors distinct, if the new one is new.\<close>

lemma select_round_good:
  assumes round: "select_round step inp cs db = Inr (cs', db')"
    and good: "\<forall>c \<in> set cs. good c" and dist: "distinct (map socket_fd cs)"
    and new: "\<And>r. rd_accept inp = Some (Some r) \<Longrightarrow> ac_fd r \<notin> socket_fd ` set cs"
  shows "(\<forall>c \<in> set cs'. good c) \<and> distinct (map socket_fd cs')"
proof -
  obtain cs1 db1 where nudge: "nudge_all step (rd_envs inp) cs1 db1 = Inr (cs', db')"
    and first: "(if rd_rv inp = -1 \<or> rd_rv inp = 0 then Inr (cs, db)
               else and_then (serve_all step (watched cs (rd_io inp)) [] cs db) (\<lambda>(cs', db').
                 Inr (case rd_accept inp of None \<Rightarrow> cs' | Some a \<Rightarrow> accept_new_client a cs', db'))) = Inr (cs1, db1)"
    using round by (auto simp: select_round_def and_then_eq_Inr_iff)
  have "(\<forall>c \<in> set cs1. good c) \<and> distinct (map socket_fd cs1)"
  proof (cases "rd_rv inp = -1 \<or> rd_rv inp = 0")
    case True
    then show ?thesis using first good dist by auto
  next
    case False
    then obtain cs2 where s: "serve_all step (watched cs (rd_io inp)) [] cs db = Inr (cs2, db1)"
      and cs1: "cs1 = (case rd_accept inp of None \<Rightarrow> cs2 | Some a \<Rightarrow> accept_new_client a cs2)"
      using first by (auto simp: and_then_eq_Inr_iff)
    have g: "\<forall>c \<in> set cs2. good c" and sub: "subseq (map socket_fd cs2) (map socket_fd cs)"
      using serve_all_good [OF s] good by simp_all
    have d: "distinct (map socket_fd cs2)" "socket_fd ` set cs2 \<subseteq> socket_fd ` set cs"
      using subseq_sub [OF sub] dist by auto
    show ?thesis
    proof (cases "\<exists>r. rd_accept inp = Some (Some r)")
      case True
      then obtain r where r: "rd_accept inp = Some (Some r)" by blast
      then show ?thesis
        using g d new [OF r] good_new by (auto simp: cs1 accept_new_client_def new_client_def)
    next
      case False
      then show ?thesis
        using g d by (auto simp: cs1 accept_new_client_def split: option.splits)
    qed
  qed
  then show ?thesis
    using nudge_all_good [OF nudge] by simp
qed

end

section \<open>The state machine is a session handler\<close>

lemma sent_bytes_inv: "session_inv c \<Longrightarrow> session_inv (sent_bytes n c)"
  by (cases "send_buffer c") (auto simp: session_inv_def sent_bytes_def)

lemma accepted_inv: "session_inv ((new_client u fresh fd kRecvBufferSize)\<lparr>ipaddr := ip\<rparr>)"
proof -
  have "session_inv (new_client u fresh fd kRecvBufferSize)"
    by (rule session_inv_new) (simp_all add: kRecvBufferSize_def kMaxPacketLength_def)
  then show ?thesis
    by (simp add: session_inv_def tally_def)
qed

lemma arrive_inv: "session_inv c \<Longrightarrow> session_inv (c\<lparr>recv_buffer := snd (enqueue bs (recv_buffer c))\<rparr>)"
  using cq.enq_keeps [of "recv_buffer c" bs] by (simp add: session_inv_def)

interpretation server: session_handler fsm session_inv
proof (unfold_locales, goal_cases)
  case (1 e c db ok c' db')
  then show ?case by (rule fsm_session_inv)
next
  case (2 e c db ok c' db')
  then show ?case using fsm_sound by (auto simp: sound_def frame_def)
next
  case (3 e c db ok c' db')
  then show ?case using fsm_sound by (force simp: sound_def frame_def)
next
  case (4 c bs)
  then show ?case by (rule arrive_inv)
next
  case (5 c n)
  then show ?case by (rule sent_bytes_inv)
next
  case 6
  show ?case by (rule accepted_inv)
qed

section \<open>Receiving, refined\<close>

lemma write_front_take: "length bs = n \<Longrightarrow> take n (write_front bs tmp) = bs"
  by (simp add: write_front_def)

lemma room: "cq_inv q \<Longrightarrow> n \<le> cq_free q \<Longrightarrow> queue_size q + n \<le> cq_size q"
  using free_plus_size [of q] by simp

lemma enqueue_room:
  assumes "cq_inv q" "length bs \<le> cq_free q"
  shows "cq_list (snd (enqueue bs q)) = cq_list q @ bs" "cq_inv (snd (enqueue bs q))"
    "queue_size (snd (enqueue bs q)) = queue_size q + length bs"
    "cq_free (snd (enqueue bs q)) = cq_free q - length bs"
    "cq_size (snd (enqueue bs q)) = cq_size q"
proof -
  note ok = enqueue_ok [OF assms(1) room [OF assms]]
  then show "cq_list (snd (enqueue bs q)) = cq_list q @ bs" "cq_inv (snd (enqueue bs q))"
    "cq_size (snd (enqueue bs q)) = cq_size q"
    by simp_all
  from arg_cong [OF ok(2), of length] show n: "queue_size (snd (enqueue bs q)) = queue_size q + length bs"
    by simp
  show "cq_free (snd (enqueue bs q)) = cq_free q - length bs"
    using free_plus_size [OF ok(3)] free_plus_size [OF assms(1)] ok(4) n by simp
qed

lemma recv_header_done: "\<not> queue_size (recv_buffer c) < kHeaderSize \<Longrightarrow> recv_header rs n tmp c = Inr (OK, c, rs)"
  by (cases rs) simp_all

lemma recv_first:
  assumes "cq_inv (recv_buffer c)" "queue_size (recv_buffer c) < 4" "bs \<noteq> []"
    and "length bs \<le> get_num_free_bytes (recv_buffer c)"
  shows "recv_header (Got bs # rs) 0 (replicate kMaxPacketLength 0) c =
    recv_header rs (length bs) (write_front bs (replicate kMaxPacketLength 0))
      (c\<lparr>recv_buffer := snd (enqueue bs (recv_buffer c))\<rparr>)"
  using assms by (simp add: kHeaderSize_def Let_def write_front_take)

lemma recv_one_piece:
  assumes "session_inv c" "bs \<noteq> []" "length bs \<le> get_num_free_bytes (recv_buffer c)"
    and "4 \<le> queue_size (recv_buffer c) + length bs"
    and "4 \<le> queue_size (recv_buffer c) \<Longrightarrow> if is_scr c then scr_packet_size c \<noteq> 0 else current_packet_size (recv_buffer c) \<noteq> 0"
  shows "\<exists>q. try_recv (Got bs # rs) c = Inr (OK, c\<lparr>recv_buffer := q\<rparr>, rs) \<and> cq_inv q \<and>
    cq_list q = cq_list (recv_buffer c) @ bs \<and> cq_size q = cq_size (recv_buffer c)"
proof -
  let ?q = "snd (enqueue bs (recv_buffer c))"
  have inv: "cq_inv (recv_buffer c)" and free: "length bs \<le> cq_free (recv_buffer c)"
    using assms(1,3) by (simp_all add: session_inv_def get_num_free_bytes_def)
  note q = enqueue_room [OF inv free]
  have "try_recv (Got bs # rs) c = Inr (OK, c\<lparr>recv_buffer := ?q\<rparr>, rs)"
  proof (cases "queue_size (recv_buffer c) < 4")
    case True
    then have "recv_header (Got bs # rs) 0 (replicate kMaxPacketLength 0) c = Inr (OK, c\<lparr>recv_buffer := ?q\<rparr>, rs)"
      using recv_first [OF inv True assms(2,3)] assms(4) q by (simp add: recv_header_done kHeaderSize_def)
    with True show ?thesis
      by (simp add: try_recv_def kHeaderSize_def del: recv_header.simps)
  next
    case False
    then have "\<not> is_full_queue (recv_buffer c)"
      using assms(2) free by (cases bs) (auto simp: is_full_queue_def)
    with False assms(5) show ?thesis
      by (auto simp: try_recv_def recv_more_def kHeaderSize_def)
  qed
  with q show ?thesis by blast
qed

text \<open>
  C28: bytes that arrive in one piece are appended to the session's queue, unchanged and
  in order, whether a header was already there or comes with them.
\<close>

theorem recv_appends:
  assumes "session_inv c" "bs \<noteq> []" "length bs \<le> get_num_free_bytes (recv_buffer c)"
    and "4 \<le> queue_size (recv_buffer c) + length bs"
    and "4 \<le> queue_size (recv_buffer c) \<Longrightarrow> if is_scr c then scr_packet_size c \<noteq> 0 else current_packet_size (recv_buffer c) \<noteq> 0"
  shows "\<exists>q. try_recv (Got bs # rs) c = Inr (OK, c\<lparr>recv_buffer := q\<rparr>, rs) \<and> cq_inv q \<and>
    cq_list q = cq_list (recv_buffer c) @ bs"
  using recv_one_piece [OF assms] by blast

lemma sample_inv:
  assumes "length bs \<le> kRecvBufferSize" "st < WaitIPTermInfo"
  shows "session_inv (sample_client st bs)" "queue_size (recv_buffer (sample_client st bs)) = length bs"
    "get_num_free_bytes (recv_buffer (sample_client st bs)) = kRecvBufferSize - length bs"
proof -
  note b = sample_client_buffer [OF assms(1), of st]
  show n: "queue_size (recv_buffer (sample_client st bs)) = length bs"
    using arg_cong [OF b(2), of length] by simp
  show "session_inv (sample_client st bs)"
    using assms(2) b(1) unfolding session_inv_def tally_def
    by (auto simp: sample_client_def state_order)
  show "get_num_free_bytes (recv_buffer (sample_client st bs)) = kRecvBufferSize - length bs"
    using free_plus_size [OF b(1)] b(3) n by (simp add: get_num_free_bytes_def)
qed

theorem recv_appends_witness:
  "\<exists>q. try_recv [Got [0x91, 0x02, 0, 28, 7]] (sample_client WaitSysInfo []) =
     Inr (OK, (sample_client WaitSysInfo [])\<lparr>recv_buffer := q\<rparr>, []) \<and> cq_list q = [0x91, 0x02, 0, 28, 7]"
proof -
  have s: "session_inv (sample_client WaitSysInfo [])" "queue_size (recv_buffer (sample_client WaitSysInfo [])) = 0"
      "get_num_free_bytes (recv_buffer (sample_client WaitSysInfo [])) = kRecvBufferSize"
      "cq_list (recv_buffer (sample_client WaitSysInfo [])) = []"
    using sample_inv [of "[]" WaitSysInfo] sample_client_buffer [of "[]" WaitSysInfo]
    by (simp_all add: state_order)
  show ?thesis
    using recv_appends [OF s(1), of "[0x91, 0x02, 0, 28, 7]" "[]"] s
    by (auto simp: kRecvBufferSize_def kMaxPacketLength_def)
qed

text \<open>
  When a header arrives in two pieces, the second piece is enqueued
  with the length of both from a buffer that only holds the second at its front: behind the bytes
  that were sent, as many zero bytes are put as the first piece had.
\<close>

theorem fragmented_header_corrupts:
  assumes "session_inv c" "a \<noteq> []" "length a \<le> length b" "queue_size (recv_buffer c) + length a < 4"
    and "4 \<le> length a + length b" "2 * length a + length b \<le> get_num_free_bytes (recv_buffer c)"
    and "length a + length b \<le> kMaxPacketLength"
  shows "\<exists>q. try_recv [Got a, Got b] c = Inr (OK, c\<lparr>recv_buffer := q\<rparr>, []) \<and>
    cq_list q = cq_list (recv_buffer c) @ a @ b @ replicate (length a) 0"
proof -
  let ?z = "replicate kMaxPacketLength 0"
  let ?q1 = "snd (enqueue a (recv_buffer c))" and ?bs = "b @ replicate (length a) 0"
  have inv: "cq_inv (recv_buffer c)" and free: "2 * length a + length b \<le> cq_free (recv_buffer c)"
    using assms(1,6) by (simp_all add: session_inv_def get_num_free_bytes_def)
  have "length a \<le> cq_free (recv_buffer c)"
    using free by simp
  note q1 = enqueue_room [OF inv this]
  have "length ?bs \<le> cq_free ?q1"
    using free q1(4) by simp
  note q2 = enqueue_room [OF q1(2) this]
  have tmp: "write_front b (write_front a ?z) = b @ replicate (kMaxPacketLength - length b) 0"
    using assms(3) by (simp add: write_front_def)
  have "take (length a + length b) (write_front b (write_front a ?z)) = ?bs"
    using assms(7) by (simp add: tmp min_def)
  moreover have "length (write_front b (write_front a ?z)) = kMaxPacketLength"
    using assms(7) by (simp add: tmp)
  moreover have "b \<noteq> []"
    using assms(2,3) by auto
  ultimately have "recv_header [Got b] (length a) (write_front a ?z) (c\<lparr>recv_buffer := ?q1\<rparr>) =
      Inr (OK, c\<lparr>recv_buffer := snd (enqueue ?bs ?q1)\<rparr>, [])"
    using assms(4,5,7) q1 q2 free
    by (simp add: kHeaderSize_def get_num_free_bytes_def Let_def)
  moreover have "recv_header [Got a, Got b] 0 ?z c = recv_header [Got b] (length a) (write_front a ?z) (c\<lparr>recv_buffer := ?q1\<rparr>)"
    using assms(2,4,6) by (intro recv_first inv) (simp_all add: get_num_free_bytes_def)
  ultimately have "try_recv [Got a, Got b] c = Inr (OK, c\<lparr>recv_buffer := snd (enqueue ?bs ?q1)\<rparr>, [])"
    using assms(4) by (simp add: try_recv_def kHeaderSize_def del: recv_header.simps)
  with q1 q2 show ?thesis
    by auto
qed

lemma sample_empty:
  "session_inv (sample_client WaitSysInfo [])" "queue_size (recv_buffer (sample_client WaitSysInfo [])) = 0"
  "get_num_free_bytes (recv_buffer (sample_client WaitSysInfo [])) = 102400"
  "cq_list (recv_buffer (sample_client WaitSysInfo [])) = []"
  using sample_inv [of "[]" WaitSysInfo] sample_client_buffer [of "[]" WaitSysInfo]
  by (simp_all add: state_order kRecvBufferSize_def kMaxPacketLength_def)

theorem fragmented_header_corrupts_witness:
  "\<exists>q. try_recv [Got [0x91, 0x02], Got [0, 28, 5]] (sample_client WaitSysInfo []) =
     Inr (OK, (sample_client WaitSysInfo [])\<lparr>recv_buffer := q\<rparr>, []) \<and>
     cq_list q = [0x91, 0x02, 0, 28, 5, 0, 0]"
  using fragmented_header_corrupts [OF sample_empty(1), of "[0x91, 0x02]" "[0, 28, 5]"] sample_empty(2-4)
  by (simp add: kMaxPacketLength_def numeral_2_eq_2)

section \<open>Sending, refined\<close>

text \<open>A series of rounds in which \<^verbatim>\<open>send\<close> returns \<open>ns\<close>: the bytes handed to the socket.\<close>

fun send_run :: "int list \<Rightarrow> Client \<Rightarrow> bytes \<times> Client" where
  "send_run [] c = ([], c)"
| "send_run (n # ns) c =
     (let (out, c'') = send_run ns (snd (try_send n c))
      in ((case send_buffer c of [] \<Rightarrow> [] | v # _ \<Rightarrow> take (nat n) v) @ out, c''))"

lemma try_send_bytes:
  "concat (send_buffer c) =
     (case send_buffer c of [] \<Rightarrow> [] | v # _ \<Rightarrow> take (nat n) v) @ concat (send_buffer (snd (try_send n c)))"
  by (auto simp: try_send_def split: list.splits)

text \<open>
  C26: whatever \<^verbatim>\<open>send\<close> returns in a series of rounds, partial sends and errors included,
  what has gone out followed by what is still queued is what was queued: no byte is lost, repeated
  or reordered.
\<close>

theorem send_stream:
  "fst (send_run ns c) @ concat (send_buffer (snd (send_run ns c))) = concat (send_buffer c)"
proof (induction ns arbitrary: c)
  case (Cons n ns)
  then show ?case
    using try_send_bytes [of c n] by (simp add: case_prod_beta Let_def)
qed simp

section \<open>Rounds\<close>

text \<open>
  C25: a round of the loop that returns leaves every session with its invariant and no
  two sessions with the same descriptor, provided \<^verbatim>\<open>accept\<close> gives a descriptor that is not in use.
\<close>

theorem round_invariant:
  assumes "select_round fsm inp cs db = Inr (cs', db')" "\<forall>c \<in> set cs. session_inv c"
    and "distinct (map socket_fd cs)" "\<And>r. rd_accept inp = Some (Some r) \<Longrightarrow> ac_fd r \<notin> socket_fd ` set cs"
  shows "(\<forall>c \<in> set cs'. session_inv c) \<and> distinct (map socket_fd cs')"
  by (rule server.select_round_good [OF assms])

definition sample_idle :: round_input where
  "sample_idle = \<lparr>rd_rv = 0, rd_io = (\<lambda>_. \<lparr>sk_readable = False, sk_recv = [], sk_writable = False,
     sk_send = 0, sk_env = sample_env\<rparr>), rd_accept = None, rd_envs = (\<lambda>_ _. sample_env)\<rparr>"

theorem round_invariant_witness:
  "select_round fsm sample_idle [sample_fresh] (sample_db 0) = Inr ([sample_asked], sample_db 0) \<and>
     session_inv sample_asked"
proof -
  have a: "state sample_fresh = Acceptance" "\<not> is_scr sample_asked"
    by (simp_all add: sample_asked_def sample_fresh_def push_message_def new_client_def)
  have r: "select_round fsm sample_idle [sample_fresh] (sample_db 0) = Inr ([sample_asked], sample_db 0)"
    by (simp add: select_round_def sample_idle_def nudge_def a sample_greets)
  have "session_inv sample_fresh"
    unfolding sample_fresh_def by (rule session_inv_new) (simp_all add: kRecvBufferSize_def kMaxPacketLength_def)
  then have "(\<forall>c \<in> set [sample_asked]. session_inv c) \<and> distinct (map socket_fd [sample_asked])"
    by (intro round_invariant [OF r]) (simp_all add: sample_idle_def)
  with r show ?thesis by simp
qed

text \<open>
  A client whose packet arrives in more than one piece is dropped: after a
  successful \<^verbatim>\<open>recv\<close> that leaves fewer bytes in the queue than the packet's length field says, the
  loop removes the session.
\<close>

theorem partial_packet_drops:
  assumes "sk_readable s" "try_recv (sk_recv s) c = Inr (OK, c1, rest)"
    and "queue_size (recv_buffer c1) < unat (current_packet_size (recv_buffer c1))"
  shows "serve fsm s done others c db = Inr (Dropped, db)"
proof -
  have "int (queue_size (recv_buffer c1)) < uint (current_packet_size (recv_buffer c1))"
    using assms(3) by (metis of_nat_less_iff uint_nat)
  with assms(1,2) show ?thesis
    by (simp add: serve_def)
qed

definition sample_sock :: "recv_result list \<Rightarrow> sock" where
  "sample_sock rs = \<lparr>sk_readable = True, sk_recv = rs, sk_writable = True, sk_send = 8, sk_env = sample_env\<rparr>"

lemma sample_recv:
  "\<exists>q. try_recv [Got [0x91, 0x02, 0, 28, 5]] (sample_client WaitSysInfo []) =
     Inr (OK, (sample_client WaitSysInfo [])\<lparr>recv_buffer := q\<rparr>, []) \<and> cq_list q = [0x91, 0x02, 0, 28, 5]"
  using recv_one_piece [OF sample_empty(1), of "[0x91, 0x02, 0, 28, 5]" "[]"] sample_empty(2-4) by auto

theorem partial_packet_drops_witness:
  "serve fsm (sample_sock [Got [0x91, 0x02, 0, 28, 5]]) [] [] (sample_client WaitSysInfo []) (sample_db 0) =
     Inr (Dropped, sample_db 0)"
proof -
  obtain q where q: "try_recv [Got [0x91, 0x02, 0, 28, 5]] (sample_client WaitSysInfo []) =
     Inr (OK, (sample_client WaitSysInfo [])\<lparr>recv_buffer := q\<rparr>, [])" "cq_list q = [0x91, 0x02, 0, 28, 5]"
    using sample_recv by blast
  from arg_cong [OF q(2), of length] have n: "queue_size q = 5" by simp
  then have "current_packet_size q = mk16 0 28"
    using current_packet_size_list [of q] q(2) by simp
  moreover have "unat (mk16 0 28) = 28"
    by code_simp
  ultimately show ?thesis
    using partial_packet_drops [of "sample_sock [Got [0x91, 0x02, 0, 28, 5]]"] q(1) n
    by (simp add: sample_sock_def)
qed

text \<open>The first sessions of the list, as long as none of them is dropped.\<close>

lemma serve_all_append:
  "serve_all step io done xs db = Inr (ys', db1) \<Longrightarrow> length ys' = length done + length xs \<Longrightarrow>
   serve_all step io done (xs @ ys) db = serve_all step io ys' ys db1"
proof (induction xs arbitrary: "done" db)
  case (Cons c xs)
  obtain r db2 where s: "serve step (io (socket_fd c)) [] [] c db = Inr (r, db2)"
    using Cons.prems(1) by (auto simp: and_then_eq_Inr_iff serve_anywhere [of _ _ "done"])
  show ?case
  proof (cases r)
    case (Kept c')
    then show ?thesis
      using Cons.IH [of "done @ [c']" db2] Cons.prems s by (simp add: serve_anywhere [of _ _ "done"])
  next
    case Dropped
    then have "ys' = remove_client (socket_fd c) (done @ c # xs)"
      using Cons.prems(1) s by (simp add: serve_anywhere [of _ _ "done"])
    then have "length ys' < length (done @ c # xs)"
      using length_filter_less [of c "done @ c # xs" "\<lambda>x. socket_fd x \<noteq> socket_fd c"]
      by (simp only: remove_client_def) simp
    then show ?thesis
      using Cons.prems(2) by simp
  qed
qed simp

lemma broken_session:
  assumes "rd_rv inp \<notin> {-1, 0}"
    and "serve_all step (watched (before @ c # after) (rd_io inp)) [] before db = Inr (before', db1)"
    and "length before' = length before"
    and "serve step (watched (before @ c # after) (rd_io inp) (socket_fd c)) [] [] c db1 = Inl f"
  shows "select_round step inp (before @ c # after) db = Inl f"
  using serve_all_append [OF assms(2), of "c # after"] assms(1,3,4)
  by (simp add: select_round_def serve_anywhere [of _ _ before'])

text \<open>Which types a state takes, and which packets it refuses.\<close>

definition awaited :: "SessionState \<Rightarrow> u8 set" where
  "awaited s = (case s of WaitAuth \<Rightarrow> {0x00, 0x01} | WaitSysInfo \<Rightarrow> {0x02} | WaitConfigInfo \<Rightarrow> {0x03}
     | WaitProcInfo \<Rightarrow> {0x04} | WaitEtheInfo \<Rightarrow> {0x05} | WaitTermInfo \<Rightarrow> {0x09} | WaitIPTermInfo \<Rightarrow> {0x0a, 0x0b}
     | Ended \<Rightarrow> {0xff} | _ \<Rightarrow> {})"

definition refused :: "SessionState \<Rightarrow> u8 \<Rightarrow> u8 \<Rightarrow> bytes \<Rightarrow> bool" where
  "refused s d t bs \<longleftrightarrow> d \<noteq> 0x91 \<or> t \<notin> awaited s \<or>
     s = WaitAuth \<and> t = 0x01 \<and> \<not> auth_tail (server_crypt (htonl (get32 108 bs)) (get_bytes 4 104 bs))"

lemma fsm_refuses:
  assumes "receiving (state c)" "holds_packet c d t first second rest" "refused (state c) d t first"
  shows "\<exists>c1. consumed c rest c1 \<and> fsm e c db = Inr (False, c1, db)"
proof -
  let ?p = "\<lparr>pk_header = packet_header d t (length first + length second), pk_first = Some first, pk_second = second\<rparr>"
  obtain c1 where c1: "consumed c rest c1" and r: "receive e ts c db k =
      (if d = 0x91 \<and> t \<in> set ts then k ?p c1 else Inr (False, c1, db))" for e ts db k
    using receive_holds [OF assms(2)] by fast
  have "fsm e c db = Inr (False, c1, db)"
  proof (cases "d = 0x91 \<and> t \<in> awaited (state c)")
    case True
    then have w: "state c = WaitAuth" "t = 0x01"
      and a: "\<not> auth_tail (server_crypt (htonl (get32 108 first)) (get_bytes 4 104 first))"
      using assms(3) by (auto simp: refused_def)
    have "length first = sizeof_AuthResponsePacket"
      using assms(2) w(2) by (simp add: holds_packet_def struct_size_def)
    then have "snd (open_auth first) = False"
      using a by (simp add: open_auth_verdict)
    with w True show ?thesis
      by (auto simp: fsm_def on_wait_auth_def got_auth_def check_auth_def packet_header_def r case_prod_beta)
  next
    case False
    with assms(1) show ?thesis
      by (auto simp: receiving_def fsm_def on_wait_auth_def on_wait_sysinfo_def on_wait_config_def
          on_wait_proc_def on_wait_ether_def on_wait_term_def on_wait_ipterm_def on_end_def awaited_def r)
  qed
  with c1 show ?thesis by blast
qed

lemma serve_refused:
  assumes "session_inv c" "receiving (state c)" "queue_size (recv_buffer c) = 0" "sk_readable s"
    and "sk_recv s = Got (PacketHeader_mem (packet_header d t (length first + length second)) @ first @ second @ rest) # rs"
    and "4 + length first + length second + length rest \<le> get_num_free_bytes (recv_buffer c)"
    and "struct_size t = Some (length first)" "t \<noteq> code_of_type IPTerm" "4 + length first + length second < 2 ^ 16"
    and "refused (state c) d t first"
  shows "serve fsm s [] [] c db = Inl Use_After_Free"
proof -
  let ?h = "packet_header d t (length first + length second)" and ?n = "4 + length first + length second"
  let ?bs = "PacketHeader_mem ?h @ first @ second @ rest"
  have len: "length ?bs = ?n + length rest"
    by (simp add: sizeof_PacketHeader_def)
  have empty: "cq_list (recv_buffer c) = []"
    using assms(3) by (simp flip: length_cq_list)
  have "?bs \<noteq> []"
    using len by (metis add_eq_0_iff_both_eq_0 list.size(3) zero_neq_numeral)
  then obtain q where q: "try_recv (sk_recv s) c = Inr (OK, c\<lparr>recv_buffer := q\<rparr>, rs)" "cq_inv q" "cq_list q = ?bs"
    using recv_one_piece [OF assms(1), of ?bs rs] assms(3,5,6) len empty by auto
  have size: "queue_size q = ?n + length rest"
    using len q(3) by (metis length_cq_list)
  let ?c = "c\<lparr>recv_buffer := q\<rparr>"
  have holds: "holds_packet ?c d t first second rest"
    using q(2,3) assms(7-9) by (simp add: holds_packet_def framed_def)
  then have "framed q ?h (first @ second) rest"
    by (simp add: holds_packet_def)
  from framed_packet_size [OF this] have "uint (current_packet_size q) = int ?n"
    using assms(9) by (simp add: packet_header_def uint_nat unat_of_nat16 add.assoc del: of_nat_add)
  then have complete: "uint (current_packet_size q) \<le> int (queue_size q)"
    using size by simp
  obtain c1 where "fsm (sk_env s) ?c db = Inr (False, c1, db)"
    using fsm_refuses [OF _ holds, of "sk_env s" db] assms(2,10) by auto
  with q(1) complete assms(4) show ?thesis
    by (simp add: serve_def)
qed

text \<open>
  C37: one refused packet ends the server process. When the sessions before it in the list
  have been served and kept, and a session with an empty queue receives a packet that goes the wrong way, is of
  a type its state does not take, or is an AuthResponse that does not decrypt to the secret, the
  session is removed from the list (\<^verbatim>\<open>remove_client\<close> leaves no element with its descriptor) while the loop
  still stands on its element, and the round ends with a read of freed memory, for whatever other
  sessions there are.
\<close>

theorem refusal_breaks_round:
  assumes "rd_rv inp \<notin> {-1, 0}"
    and "serve_all fsm (watched (before @ c # after) (rd_io inp)) [] before db = Inr (before', db1)"
    and "length before' = length before"
    and "session_inv c" "receiving (state c)" "queue_size (recv_buffer c) = 0" "sk_readable (rd_io inp (socket_fd c))"
    and "sk_recv (rd_io inp (socket_fd c)) =
      Got (PacketHeader_mem (packet_header d t (length first + length second)) @ first @ second @ rest) # rs"
    and "4 + length first + length second + length rest \<le> get_num_free_bytes (recv_buffer c)"
    and "struct_size t = Some (length first)" "t \<noteq> code_of_type IPTerm" "4 + length first + length second < 2 ^ 16"
    and "refused (state c) d t first"
  shows "select_round fsm inp (before @ c # after) db = Inl Use_After_Free"
proof (rule broken_session [OF assms(1-3)])
  let ?s = "watched (before @ c # after) (rd_io inp) (socket_fd c)"
  have "0 < length first"
    using assms(10) by (auto simp: struct_size_def sizeof_defs split: if_splits)
  then have "kHeaderSize < get_num_free_bytes (recv_buffer c)"
    using assms(9) unfolding kHeaderSize_def by linarith
  then have "sk_readable ?s" "sk_recv ?s = sk_recv (rd_io inp (socket_fd c))"
    using assms(7) by (auto simp: watched_def reset_rw_fd_sets_def Let_def)
  then show "serve fsm ?s [] [] c db1 = Inl Use_After_Free"
    by (intro serve_refused [OF assms(4-6) _ _ assms(9-13)]) (simp_all add: assms(8))
qed

definition sample_refused :: round_input where
  "sample_refused = \<lparr>rd_rv = 1,
     rd_io = (\<lambda>fd. sample_sock [Got (PacketHeader_mem (packet_header 0x11 0x02 24) @ replicate 24 0)]),
     rd_accept = None, rd_envs = (\<lambda>_ _. sample_env)\<rparr>"

theorem refusal_breaks_round_witness:
  "select_round fsm sample_refused [sample_client WaitSysInfo []] (sample_db 0) = Inl Use_After_Free"
  using refusal_breaks_round [of sample_refused "[]" "sample_client WaitSysInfo []" "[]" "sample_db 0" "[]",
      where d = "0x11" and t = "0x02" and first = "replicate 24 0" and second = "[]" and rest = "[]" and rs = "[]"]
    sample_empty
  by (simp add: sample_refused_def sample_sock_def refused_def receiving_def struct_size_def sizeof_defs)

text \<open>A client whose connection does not take a byte at the moment has the same effect.\<close>

lemma failed_send_breaks_round:
  assumes "rd_rv inp \<notin> {-1, 0}"
    and "serve_all step (watched (before @ c # after) (rd_io inp)) [] before db = Inr (before', db1)"
    and "length before' = length before" "\<not> sk_readable (rd_io inp (socket_fd c))"
    and "sk_writable (rd_io inp (socket_fd c))" "sk_send (rd_io inp (socket_fd c)) \<le> 0" "send_buffer c \<noteq> []"
  shows "select_round step inp (before @ c # after) db = Inl Use_After_Free"
proof (rule broken_session [OF assms(1-3)])
  let ?s = "watched (before @ c # after) (rd_io inp) (socket_fd c)"
  have "\<not> sk_readable ?s" "sk_writable ?s" "sk_send ?s \<le> 0"
    using assms(4-6) by (auto simp: watched_def reset_rw_fd_sets_def Let_def)
  then show "serve step ?s [] [] c db1 = Inl Use_After_Free"
    using assms(7) by (auto simp: serve_def finish_serve_def try_send_def split: list.split)
qed

end
