(* ===== verification/Conversation.thy ===== *)
theory Conversation
  imports Client_Screens Client_Turns Transfer_Layer
begin

text \<open>
  The two programs talk to each other: the client takes a request and answers it, a round of the
  server's loop reads the answer, another sends what has been queued, and so on. The rounds are
  those of \<open>Transfer_Layer\<close>, the turns of the client those of \<open>Handshake\<close>.
\<close>

section \<open>One exchange after the other\<close>

text \<open>
  The server has one session. In a round it hears what the client has said, in one piece, while the
  socket cannot be written; in the next it sends the first message of its queue.
\<close>

definition hearing :: "env \<Rightarrow> bytes \<Rightarrow> round_input" where
  "hearing e bs = \<lparr>rd_rv = 1, rd_io = (\<lambda>_. \<lparr>sk_readable = True, sk_recv = [Got bs], sk_writable = False,
     sk_send = 0, sk_env = e\<rparr>), rd_accept = None, rd_envs = (\<lambda>_ _. e)\<rparr>"

definition speaking :: "env \<Rightarrow> bytes \<Rightarrow> round_input" where
  "speaking e m = \<lparr>rd_rv = 1, rd_io = (\<lambda>_. \<lparr>sk_readable = False, sk_recv = [], sk_writable = True,
     sk_send = int (length m), sk_env = e\<rparr>), rd_accept = None, rd_envs = (\<lambda>_ _. e)\<rparr>"

type_synonym talk = "TsClient \<times> world \<times> Client list \<times> Database"

fun next_message :: "Client list \<Rightarrow> bytes option" where
  "next_message [s] = (case send_buffer s of [] \<Rightarrow> None | m # _ \<Rightarrow> Some m)"
| "next_message _ = None"

text \<open>
  \<open>conversation e opts n l m t\<close>: the requests \<open>l\<close> have been answered, \<open>m\<close> is on its way to the client,
  \<open>n\<close> exchanges may follow. The result is the message on its way at the end, \<open>None\<close> when the server had
  nothing to send, and all that has been answered. A session that is not settled would be called
  again by the second loop of any round, whoever speaks in it; there the run is given up.
\<close>

definition settled :: "Client \<Rightarrow> bool" where
  "settled s \<longleftrightarrow> state s \<noteq> Acceptance \<and> \<not> is_scr s"

fun conversation :: "env \<Rightarrow> Options \<Rightarrow> nat \<Rightarrow> bytes list \<Rightarrow> bytes \<Rightarrow> talk \<Rightarrow>
    fault + bytes option \<times> bytes list \<times> talk" where
  "conversation e opts 0 l m t = Inr (Some m, l, t)"
| "conversation e opts (Suc n) l m (c, w, ss, db) =
     and_then (turn opts c (w\<lparr>w_recv := map Got (pieces m)\<rparr>)) (\<lambda>(_, c1, w1).
     and_then (select_round fsm (hearing e (concat (drop (length (w_sent w)) (w_sent w1)))) ss db) (\<lambda>(ss1, db1).
     if \<not> list_all settled ss1 then Inr (Some m, l, c1, w1, ss1, db1)
     else (case next_message ss1 of
       None \<Rightarrow> Inr (None, l @ [m], c1, w1, ss1, db1)
     | Some m1 \<Rightarrow> and_then (select_round fsm (speaking e m1) ss1 db1) (\<lambda>(ss2, db2).
         conversation e opts n (l @ [m]) m1 (c1, w1, ss2, db2)))))"

declare conversation.simps(2) [simp del]

text \<open>What the client has done in a conversation it does turn by turn.\<close>

lemma conversation_turns:
  "conversation e opts n l m (c, w, ss, db) = Inr (None, l', c', w', t) \<Longrightarrow>
   \<exists>ms. l' = l @ m # ms \<and> client_turns opts (m # ms) c w = Inr (c', w')"
proof (induction n arbitrary: l m c w ss db)
  case (Suc n)
  obtain ok c1 w1 ss1 db1 where t: "turn opts c (w\<lparr>w_recv := map Got (pieces m)\<rparr>) = Inr (ok, c1, w1)"
    and rest: "(case next_message ss1 of None \<Rightarrow> Inr (None, l @ [m], c1, w1, ss1, db1)
      | Some m1 \<Rightarrow> and_then (select_round fsm (speaking e m1) ss1 db1) (\<lambda>(ss2, db2).
         conversation e opts n (l @ [m]) m1 (c1, w1, ss2, db2))) = Inr (None, l', c', w', t)"
    using Suc.prems by (auto simp: conversation.simps(2) and_then_eq_Inr_iff split: if_splits)
  show ?case
  proof (cases "next_message ss1")
    case None
    then show ?thesis
      using rest t by (intro exI [of _ "[]"]) simp
  next
    case (Some m1)
    then obtain ss2 db2 where "conversation e opts n (l @ [m]) m1 (c1, w1, ss2, db2) = Inr (None, l', c', w', t)"
      using rest by (auto simp: and_then_eq_Inr_iff)
    from Suc.IH [OF this] show ?thesis
      using t by auto
  qed
qed simp

section \<open>The client's part\<close>

lemma turn_answers:
  assumes "understood m" "good_surroundings opts w" "wf_dev (ts_dev c)" "willing (Suc n) w"
  obtains ok c' w' c2 w2 c3 w3 where "turn opts c (w\<lparr>w_recv := map Got (pieces m)\<rparr>) = Inr (ok, c', w')"
    "client_pack_message (m ! 1) opts c2 w2 = Inr (True, c3, w3)" "answers_to (m ! 1) (send_message c3)"
    "concat (drop (length (w_sent w)) (w_sent w')) = send_message c3" "ts_dev c2 = ts_dev c"
    "good_surroundings opts w2" "good_surroundings opts w'" "wf_dev (ts_dev c')" "willing n w'"
proof -
  let ?w = "w\<lparr>w_recv := map Got (pieces m)\<rparr>" and ?w1 = "w\<lparr>w_recv := []\<rparr>"
  have "w_recv ?w = map Got (pieces m) @ []" "?w\<lparr>w_recv := []\<rparr> = ?w1"
    by simp_all
  then obtain ok c1 c2 where r: "recv_msg c ?w = Inr (True, c1, ?w1)"
      "client_unpack_message opts c1 ?w1 = Inr (ok, c2, ?w1)"
    and c2: "sendPacketType c2 = m ! 1" "ts_dev c2 = ts_dev c"
    using request_read [OF assms(1), of ?w "[]" c opts] by auto
  have good: "good_surroundings opts ?w1" "willing (Suc n) ?w1" "wf_dev (ts_dev c2)" "m ! 1 \<in> answerable"
    using assms c2(2) by (simp_all add: good_surroundings_def willing_def understood_def)
  obtain c3 w3 where p: "client_pack_message (m ! 1) opts c2 ?w1 = Inr (True, c3, w3)"
      "answers_to (m ! 1) (send_message c3)"
    using packs [OF good(1,3,4)] by blast
  have io: "io w3 = io ?w1"
    by (rule io_pack [OF p(1)])
  then have "willing (Suc n) w3"
    using good(2) by (simp add: willing_def io_def)
  then obtain c4 ns where s: "send_msg c3 w3 = Inr (True, c4,
      w3\<lparr>w_send := ns, w_sent := w_sent w3 @ pieces (send_message c3)\<rparr>)"
      "set ns \<subseteq> {int}" "2 * n \<le> length ns" "ts_dev c4 = ts_dev c3"
    using send_willing [of c3 n w3] p(2) unfolding answers_to_def by blast
  let ?w4 = "w3\<lparr>w_send := ns, w_sent := w_sent w3 @ pieces (send_message c3)\<rparr>"
  have "turn opts c ?w = Inr (ok, c4, ?w4)"
    using r p(1) s(1) c2(1) by (simp add: turn_def)
  moreover have "concat (drop (length (w_sent w)) (w_sent ?w4)) = send_message c3"
    using io by (simp add: io_def)
  moreover have "good_surroundings opts ?w4"
    using good(1) io by (simp add: good_surroundings_def io_def)
  moreover have "wf_dev (ts_dev c4)" "willing n ?w4"
    using pack_keeps [OF p(1)] s(2,3,4) good(3) by (simp_all add: willing_def)
  ultimately show thesis
    using that p good(1) c2(2) by blast
qed

section \<open>The server's part\<close>

text \<open>A session between two packets: nothing is left in its buffer, which has its usual size.\<close>

definition listening :: "Client \<Rightarrow> bool" where
  "listening s \<longleftrightarrow> session_inv s \<and> cq_list (recv_buffer s) = [] \<and> cq_size (recv_buffer s) = kRecvBufferSize \<and>
     state s \<noteq> Acceptance \<and> state s \<noteq> WaitScrInfo"

lemma listening_is_scr: "listening s \<Longrightarrow> \<not> is_scr s"
  by (auto simp: listening_def session_inv_def tally_def)

text \<open>\<open>holding s bs s'\<close>: the session \<open>s'\<close> is \<open>s\<close> with what the client has said in its buffer.\<close>

definition holding :: "Client \<Rightarrow> bytes \<Rightarrow> Client \<Rightarrow> bool" where
  "holding s bs s' \<longleftrightarrow> session_inv s' \<and>
     (\<exists>q. s' = s\<lparr>recv_buffer := q\<rparr> \<and> cq_inv q \<and> cq_list q = bs \<and> cq_size q = kRecvBufferSize)"

lemma listening_settled: "listening s \<Longrightarrow> settled s"
  using listening_is_scr by (simp add: settled_def listening_def)

lemma nudge_quiet:
  "\<not> is_scr s \<Longrightarrow> state s \<noteq> Acceptance \<Longrightarrow> nudge_all fsm envs [s] db = Inr ([s], db)"
  by (simp add: nudge_def)

lemma nudge_screens:
  assumes "is_scr s" "state s = WaitScrInfo" "fsm (envs (socket_fd s) 1) s db = Inr (ok, s', db')"
  shows "nudge_all fsm envs [s] db = Inr ([s'], db')"
  using assms by (simp add: nudge_def)

lemma server_hears:
  assumes "listening s" "length body < 5000" "bs = frame_of t body"
  obtains s' where "holding s bs s'"
    "\<And>db. select_round fsm (hearing e bs) [s] db = and_then (fsm e s' db) (\<lambda>(ok, s1, db1).
       if ok then nudge_all fsm (\<lambda>_ _. e) [s1] db1 else Inl Use_After_Free)"
proof -
  have inv: "session_inv s" "cq_inv (recv_buffer s)" "cq_list (recv_buffer s) = []"
    using assms(1) by (simp_all add: listening_def session_inv_def)
  have "queue_size (recv_buffer s) = 0"
    using length_cq_list [of "recv_buffer s"] inv(3) by simp
  then have free: "get_num_free_bytes (recv_buffer s) = kRecvBufferSize" "queue_size (recv_buffer s) = 0"
    using free_plus_size [OF inv(2)] assms(1) by (simp_all add: get_num_free_bytes_def listening_def)
  have len: "length bs = 4 + length body"
    using assms(3) by (simp add: frame_of_def sizeof_defs)
  then have "bs \<noteq> []"
    by auto
  then obtain q where q: "try_recv [Got bs] s = Inr (OK, s\<lparr>recv_buffer := q\<rparr>, [])" "cq_inv q" "cq_list q = bs"
      "cq_size q = kRecvBufferSize"
    using recv_one_piece [OF inv(1), of bs "[]"] free inv(3) len assms(1,2)
    by (auto simp: kRecvBufferSize_def kMaxPacketLength_def listening_def)
  have "framed q (packet_header 0x91 t (length body)) body []"
    using q(2,3) assms(3) by (simp add: framed_def frame_of_def)
  from framed_packet_size [OF this] framed_size [OF this]
  have "unat (current_packet_size q) = 4 + length body" "queue_size q = 4 + length body"
    using assms(2) unat_of_nat16 [of "4 + length body"] by (simp_all add: packet_header_def del: of_nat_add)
  then have size: "uint (current_packet_size q) \<le> int (queue_size q)"
    by (simp flip: int_unat)
  have "select_round fsm (hearing e bs) [s] db = and_then (fsm e (s\<lparr>recv_buffer := q\<rparr>) db) (\<lambda>(ok, s1, db1).
      if ok then nudge_all fsm (\<lambda>_ _. e) [s1] db1 else Inl Use_After_Free)" for db
    using q(1) size free(1)
    by (cases "fsm e (s\<lparr>recv_buffer := q\<rparr>) db")
      (auto simp: select_round_def hearing_def watched_def reset_rw_fd_sets_def Let_def serve_def finish_serve_def
        kHeaderSize_def kRecvBufferSize_def kMaxPacketLength_def)
  moreover have "session_inv (s\<lparr>recv_buffer := q\<rparr>)"
    using inv(1) q(2) by (simp add: session_inv_def)
  ultimately show thesis
    using that [of "s\<lparr>recv_buffer := q\<rparr>"] q(2,3,4) unfolding holding_def by blast
qed

lemma settled_speaks:
  assumes "settled s" "send_buffer s = m # ms" "m \<noteq> []"
  shows "select_round fsm (speaking e m) [s] db = Inr ([s\<lparr>send_buffer := ms\<rparr>], db)"
proof -
  have "try_send (int (length m)) s = (OK, s\<lparr>send_buffer := ms\<rparr>)"
    using assms(2,3) by (simp add: try_send_def)
  then show ?thesis
    using assms(1)
    by (simp add: select_round_def speaking_def watched_def reset_rw_fd_sets_def Let_def serve_def finish_serve_def
        nudge_def settled_def)
qed

lemma server_speaks:
  assumes "listening s" "send_buffer s = m # ms"
  shows "select_round fsm (speaking e m) [s] db = Inr ([s\<lparr>send_buffer := ms\<rparr>], db)" "listening (s\<lparr>send_buffer := ms\<rparr>)"
proof -
  have "m \<noteq> []"
    using assms by (auto simp: listening_def session_inv_def)
  then show "select_round fsm (speaking e m) [s] db = Inr ([s\<lparr>send_buffer := ms\<rparr>], db)"
    by (rule settled_speaks [OF listening_settled [OF assms(1)] assms(2)])
  show "listening (s\<lparr>send_buffer := ms\<rparr>)"
    using assms by (simp add: listening_def session_inv_def)
qed

text \<open>What is known of a session after calls that have emptied the buffer.\<close>

lemma listening_after:
  assumes "fsm e s db = Inr (ok, s', db')" "session_inv s" "cq_size (recv_buffer s) = kRecvBufferSize"
  shows "session_inv s'" "cq_size (recv_buffer s') = kRecvBufferSize"
    "cq_list (recv_buffer s') = [] \<Longrightarrow> state s' \<noteq> Acceptance \<Longrightarrow> state s' \<noteq> WaitScrInfo \<Longrightarrow> listening s'"
proof -
  have "frame s s'"
    using fsm_sound [OF assms(1)] by (simp add: sound_def)
  then show "cq_size (recv_buffer s') = kRecvBufferSize"
    using assms(2,3) by (simp add: frame_def session_inv_def)
  then show "session_inv s'"
    "cq_list (recv_buffer s') = [] \<Longrightarrow> state s' \<noteq> Acceptance \<Longrightarrow> state s' \<noteq> WaitScrInfo \<Longrightarrow> listening s'"
    using fsm_session_inv [OF assms(1,2)] by (simp_all add: listening_def)
qed

section \<open>An exchange\<close>

text \<open>What the client makes of a request, and the round of the server that hears its answer.\<close>

lemma answer_heard:
  assumes "understood m" "able opts (Suc n) c w" "listening s"
  obtains c' w' c2 w2 c3 w3 s' where "able opts n c' w'" "client_pack_message (m ! 1) opts c2 w2 = Inr (True, c3, w3)"
    "good_surroundings opts w2" "wf_dev (ts_dev c2)" "holding s (send_message c3) s'" "answers_to (m ! 1) (send_message c3)"
    "\<And>db j l. conversation e opts (Suc j) l m (c, w, [s], db) =
       and_then (and_then (fsm e s' db) (\<lambda>(ok, s1, db1).
         if ok then nudge_all fsm (\<lambda>_ _. e) [s1] db1 else Inl Use_After_Free)) (\<lambda>(ss1, db1).
       if \<not> list_all settled ss1 then Inr (Some m, l, c', w', ss1, db1)
       else (case next_message ss1 of
         None \<Rightarrow> Inr (None, l @ [m], c', w', ss1, db1)
       | Some m1 \<Rightarrow> and_then (select_round fsm (speaking e m1) ss1 db1) (\<lambda>(ss2, db2).
           conversation e opts j (l @ [m]) m1 (c', w', ss2, db2))))"
proof -
  have "good_surroundings opts w" "wf_dev (ts_dev c)" "willing (Suc n) w"
    using assms(2) by (simp_all add: able_def)
  then obtain ok c' w' c2 w2 c3 w3 where t: "turn opts c (w\<lparr>w_recv := map Got (pieces m)\<rparr>) = Inr (ok, c', w')"
      "client_pack_message (m ! 1) opts c2 w2 = Inr (True, c3, w3)" "answers_to (m ! 1) (send_message c3)"
      "concat (drop (length (w_sent w)) (w_sent w')) = send_message c3" "ts_dev c2 = ts_dev c"
      "good_surroundings opts w2" "good_surroundings opts w'" "wf_dev (ts_dev c')" "willing n w'"
    by (rule turn_answers [OF assms(1)])
  obtain body where body: "send_message c3 = frame_of (m ! 1) body"
    using t(3) by (auto simp: answers_to_def)
  have "length (send_message c3) = 4 + length body"
    by (simp add: body frame_of_def sizeof_defs)
  then have "length body < 5000"
    using t(3) by (simp add: answers_to_def sound_message_def buffer_size_def)
  then obtain s' where s': "holding s (send_message c3) s'"
      "\<And>db. select_round fsm (hearing e (send_message c3)) [s] db = and_then (fsm e s' db) (\<lambda>(ok, s1, db1).
         if ok then nudge_all fsm (\<lambda>_ _. e) [s1] db1 else Inl Use_After_Free)"
    using server_hears [OF assms(3) _ body] by blast
  have "able opts n c' w'" "wf_dev (ts_dev c2)"
    using assms(2) t(5,7-9) by (simp_all add: able_def)
  then show thesis
    using t s' by (intro that [of c' w' c2 w2 c3 w3 s']) (simp_all add: conversation.simps(2))
qed

lemma exchanged:
  assumes "understood m" "able opts (Suc n) c w" "listening s"
    and "\<And>c2 w2 c3 w3 s'. \<lbrakk>client_pack_message (m ! 1) opts c2 w2 = Inr (True, c3, w3); good_surroundings opts w2;
      wf_dev (ts_dev c2); holding s (send_message c3) s'\<rbrakk> \<Longrightarrow>
      \<exists>s1 db1 s2 db2. fsm e s' db = Inr (True, s1, db1) \<and> nudge_all fsm (\<lambda>_ _. e) [s1] db1 = Inr ([s2], db2) \<and>
        listening s2 \<and> P s2 db2"
  obtains c' w' s' db' where "able opts n c' w'" "listening s'" "P s' db'"
    "\<And>j l. conversation e opts (Suc j) l m (c, w, [s], db) =
       (case send_buffer s' of [] \<Rightarrow> Inr (None, l @ [m], c', w', [s'], db')
        | m1 # ms \<Rightarrow> conversation e opts j (l @ [m]) m1 (c', w', [s'\<lparr>send_buffer := ms\<rparr>], db'))"
proof (rule answer_heard [OF assms(1-3), of e])
  fix c' w' c2 w2 c3 w3 s'
  assume able: "able opts n c' w'" and pack: "client_pack_message (m ! 1) opts c2 w2 = Inr (True, c3, w3)"
      "good_surroundings opts w2" "wf_dev (ts_dev c2)" "holding s (send_message c3) s'"
    and conv: "\<And>db j l. conversation e opts (Suc j) l m (c, w, [s], db) =
       and_then (and_then (fsm e s' db) (\<lambda>(ok, s1, db1).
         if ok then nudge_all fsm (\<lambda>_ _. e) [s1] db1 else Inl Use_After_Free)) (\<lambda>(ss1, db1).
       if \<not> list_all settled ss1 then Inr (Some m, l, c', w', ss1, db1)
       else (case next_message ss1 of
         None \<Rightarrow> Inr (None, l @ [m], c', w', ss1, db1)
       | Some m1 \<Rightarrow> and_then (select_round fsm (speaking e m1) ss1 db1) (\<lambda>(ss2, db2).
           conversation e opts j (l @ [m]) m1 (c', w', ss2, db2))))"
  obtain s1 db1 s2 db2 where f: "fsm e s' db = Inr (True, s1, db1)"
      "nudge_all fsm (\<lambda>_ _. e) [s1] db1 = Inr ([s2], db2)" and s2: "listening s2" "P s2 db2"
    using assms(4) [OF pack] by blast
  have "conversation e opts (Suc j) l m (c, w, [s], db) =
      (case send_buffer s2 of [] \<Rightarrow> Inr (None, l @ [m], c', w', [s2], db2)
       | m1 # ms \<Rightarrow> conversation e opts j (l @ [m]) m1 (c', w', [s2\<lparr>send_buffer := ms\<rparr>], db2))" for j l
    unfolding conv f(1) using f(2) server_speaks(1) [OF s2(1)] listening_settled [OF s2(1)]
    by (auto simp del: nudge_all.simps split: list.splits)
  then show thesis
    using that [of c' w' s2 db2] s2 able by simp
qed

text \<open>An exchange that the server does not survive.\<close>

lemma exchange_faults:
  assumes "understood m" "able opts (Suc n) c w" "listening s"
    and "\<And>c2 w2 c3 w3 s'. \<lbrakk>client_pack_message (m ! 1) opts c2 w2 = Inr (True, c3, w3); holding s (send_message c3) s';
      answers_to (m ! 1) (send_message c3)\<rbrakk> \<Longrightarrow> fsm e s' db = Inl f \<or>
      (\<exists>s1 db1. fsm e s' db = Inr (True, s1, db1) \<and> nudge_all fsm (\<lambda>_ _. e) [s1] db1 = Inl f)"
  shows "conversation e opts (Suc j) l m (c, w, [s], db) = Inl f"
proof (rule answer_heard [OF assms(1-3), of e])
  fix c' w' c2 w2 c3 w3 s'
  assume pack: "client_pack_message (m ! 1) opts c2 w2 = Inr (True, c3, w3)" "holding s (send_message c3) s'"
      "answers_to (m ! 1) (send_message c3)"
    and conv: "\<And>db j l. conversation e opts (Suc j) l m (c, w, [s], db) =
       and_then (and_then (fsm e s' db) (\<lambda>(ok, s1, db1).
         if ok then nudge_all fsm (\<lambda>_ _. e) [s1] db1 else Inl Use_After_Free)) (\<lambda>(ss1, db1).
       if \<not> list_all settled ss1 then Inr (Some m, l, c', w', ss1, db1)
       else (case next_message ss1 of
         None \<Rightarrow> Inr (None, l @ [m], c', w', ss1, db1)
       | Some m1 \<Rightarrow> and_then (select_round fsm (speaking e m1) ss1 db1) (\<lambda>(ss2, db2).
           conversation e opts j (l @ [m]) m1 (c', w', ss2, db2))))"
  show ?thesis
    using assms(4) [OF pack] unfolding conv by (auto simp del: nudge_all.simps)
qed

text \<open>The usual exchange: one call, after which there are no screens to read.\<close>

lemma exchanged_plainly:
  assumes "understood m" "able opts (Suc n) c w" "listening s"
    and "\<And>c2 w2 c3 w3 s'. \<lbrakk>client_pack_message (m ! 1) opts c2 w2 = Inr (True, c3, w3); good_surroundings opts w2;
      wf_dev (ts_dev c2); holding s (send_message c3) s'\<rbrakk> \<Longrightarrow>
      \<exists>s1 db1. fsm e s' db = Inr (True, s1, db1) \<and> listening s1 \<and> P s1 db1"
  obtains c' w' s' db' where "able opts n c' w'" "listening s'" "P s' db'"
    "\<And>j l. conversation e opts (Suc j) l m (c, w, [s], db) =
       (case send_buffer s' of [] \<Rightarrow> Inr (None, l @ [m], c', w', [s'], db')
        | m1 # ms \<Rightarrow> conversation e opts j (l @ [m]) m1 (c', w', [s'\<lparr>send_buffer := ms\<rparr>], db'))"
proof (rule exchanged [OF assms(1-3), where P = P])
  fix c2 w2 c3 w3 s'
  assume "client_pack_message (m ! 1) opts c2 w2 = Inr (True, c3, w3)" "good_surroundings opts w2"
    "wf_dev (ts_dev c2)" "holding s (send_message c3) s'"
  from assms(4) [OF this] obtain s1 db1 where "fsm e s' db = Inr (True, s1, db1)" "listening s1" "P s1 db1"
    by blast
  then show "\<exists>s1 db1 s2 db2. fsm e s' db = Inr (True, s1, db1) \<and> nudge_all fsm (\<lambda>_ _. e) [s1] db1 = Inr ([s2], db2) \<and>
      listening s2 \<and> P s2 db2"
    using nudge_quiet listening_is_scr by (meson listening_def)
qed (rule that)

end
