(* ===== verification/Whole_Conversation.thy ===== *)
theory Whole_Conversation
  imports Conversation
begin

text \<open>
  The conversation from the greeting to its end, exchange by exchange: the opening, the table of
  terminals, each terminal with its screens, and the farewell or the silence that follows, when the two
  reads of undefined memory go well; and what happens when they do not.
\<close>

section \<open>The requests of the server\<close>

lemma term_loop_requests: "set (term_loop t i bs) \<subseteq> range (term_request t)"
  by (induction t i bs rule: term_loop.induct) auto

section \<open>The opening\<close>

text \<open>
  \<open>stage st ms k g s db\<close>: between two exchanges the session is in state \<open>st\<close>, has \<open>ms\<close> to send and a
  device without Ethernet ports; the database will answer \<open>k\<close> commands.
\<close>

definition stage :: "SessionState \<Rightarrow> bytes list \<Rightarrow> nat \<Rightarrow> int \<Rightarrow> Client \<Rightarrow> Database \<Rightarrow> bool" where
  "stage st ms k g s db \<longleftrightarrow> listening s \<and> state s = st \<and> send_buffer s = ms \<and> ethnum s = 0 \<and>
     ready k db \<and> global_number db = g"

lemma stage_spoken: "stage st (m # ms) k g s db \<Longrightarrow> stage st ms k g (s\<lparr>send_buffer := ms\<rparr>) db"
  using server_speaks(2) [of s m ms] by (simp add: stage_def)

lemma staged:
  assumes "understood m" "able opts (Suc n) c w" "stage st [] k g s db"
    and "\<And>c2 w2 c3 w3 s'. \<lbrakk>client_pack_message (m ! 1) opts c2 w2 = Inr (True, c3, w3); good_surroundings opts w2;
      wf_dev (ts_dev c2); holding s (send_message c3) s'\<rbrakk> \<Longrightarrow>
      \<exists>s1 db1. fsm e s' db = Inr (True, s1, db1) \<and> stage st1 [m1] k1 g s1 db1"
  obtains c' w' s' db' where "able opts n c' w'" "stage st1 [] k1 g s' db'"
    "\<And>j l. conversation e opts (Suc j) l m (c, w, [s], db) = conversation e opts j (l @ [m]) m1 (c', w', [s'], db')"
proof -
  have s: "listening s"
    using assms(3) by (simp add: stage_def)
  have step: "\<exists>s1 db1. fsm e s' db = Inr (True, s1, db1) \<and> listening s1 \<and> stage st1 [m1] k1 g s1 db1"
    if "client_pack_message (m ! 1) opts c2 w2 = Inr (True, c3, w3)" "good_surroundings opts w2"
      "wf_dev (ts_dev c2)" "holding s (send_message c3) s'" for c2 w2 c3 w3 s'
    using assms(4) [OF that] by (auto simp: stage_def)
  obtain c' w' s1 db1 where x: "able opts n c' w'" "stage st1 [m1] k1 g s1 db1"
      "\<And>j l. conversation e opts (Suc j) l m (c, w, [s], db) =
         (case send_buffer s1 of [] \<Rightarrow> Inr (None, l @ [m], c', w', [s1], db1)
          | m1 # ms \<Rightarrow> conversation e opts j (l @ [m]) m1 (c', w', [s1\<lparr>send_buffer := ms\<rparr>], db1))"
    by (rule exchanged_plainly [OF assms(1,2) s step]) (assumption | rule that)+
  have "send_buffer s1 = [m1]"
    using x(2) by (simp add: stage_def)
  with x show thesis
    using that [OF x(1) stage_spoken [OF x(2)]] by simp
qed

lemma holdingD:
  assumes "holding s bs s'"
  shows "session_inv s'" "cq_inv (recv_buffer s')" "cq_list (recv_buffer s') = bs"
    "cq_size (recv_buffer s') = kRecvBufferSize" "state s' = state s" "send_buffer s' = send_buffer s"
    "ethnum s' = ethnum s" "tty_cnt s' = tty_cnt s" "tty_connected s' = tty_connected s"
  using assms by (auto simp: holding_def)

lemma client_answer:
  "client_message t f (b1 @ b2) =
     answer t (mem16 (htons f) @ mem16 (htons (of_nat (length (b1 @ b2)))) @ b1) b2"
  by (simp add: client_message_def answer_def header_mem add.assoc)

lemma ready_answered: "ready (length cmds + n) db \<Longrightarrow> ready n (answered cmds db)"
  by (auto simp: ready_def answered_def take_drop add.commute dest: in_set_dropD)

lemma stage_after:
  assumes "fsm e s' db = Inr (True, s1, db1)" "holding s bs s'" "cq_list (recv_buffer s1) = []"
    and "state s1 = st" "st \<noteq> Acceptance" "st \<noteq> WaitScrInfo" "send_buffer s1 = ms" "ethnum s1 = 0" "ready k db1"
    and "global_number db1 = g"
  shows "stage st ms k g s1 db1"
  using listening_after(3) [OF assms(1)] holdingD [OF assms(2)] assms by (simp add: stage_def)

lemma auth_stage:
  assumes "listening s" "state s = WaitAuth" "send_buffer s = []" "ready (4 + k) db" "global_number db = g"
    and "wf_dev d" "holding s (PacketHeader_mem (packet_header 0x91 0x01 112) @ sealed (reported d) (htons 108) r) s'"
  shows "\<exists>s1 db1. fsm e s' db = Inr (True, s1, db1) \<and> stage WaitSysInfo [plain_request 0x02] k g s1 db1"
proof -
  note h = holdingD [OF assms(7)]
  have "ready 4 db"
    using assms(4) by (rule ready_more) simp
  then obtain s1 cmds where f: "fsm e s' db = Inr (True, s1, answered cmds db)" "state s1 = WaitSysInfo"
      "send_buffer s1 = [plain_request 0x02]" "cq_list (recv_buffer s1) = []" "ethnum s1 = 0" "length cmds = 4"
    using response_admitted [OF assms(6), of s' db r "[]" e] h assms(2,3) by auto
  have "ready k (answered cmds db)"
    using ready_answered [of cmds k db] assms(4) f(6) by simp
  then show ?thesis
    using stage_after [OF f(1) assms(7) f(4,2) _ _ f(3,5)] f(1) assms(5) by (auto simp: answered_def)
qed

lemma sysinfo_stage:
  assumes "stage WaitSysInfo [] (Suc k) g s db" "holding s (client_message 0x02 0 body) s'" "length body = 20"
  shows "\<exists>s1 db1. fsm e s' db = Inr (True, s1, db1) \<and> stage WaitConfigInfo [plain_request 0x03] k g s1 db1"
proof -
  note h = holdingD [OF assms(2)]
  have "holds_packet s' 0x91 0x02 (mem16 (htons 0) @ mem16 (htons (of_nat (length body))) @ body) [] []"
    using h(2,3) client_answer [of "0x02" 0 body "[]"] assms(3)
    by (intro holds_answer) (simp_all add: fits_def struct_size_def sizeof_defs)
  moreover have "state s' = WaitSysInfo" "ready (Suc k) db"
    using assms(1) h(5) by (simp_all add: stage_def)
  ultimately obtain q cmd where "cq_list q = []"
    and f: "fsm e s' db = Inr (True, (push_message (plain_request 0x03) (s'\<lparr>recv_buffer := q\<rparr>))\<lparr>state := WaitConfigInfo\<rparr>,
       answered [cmd] db)" "ready k (answered [cmd] db)"
    using sysinfo_proceeds by metis
  then show ?thesis
    using stage_after [OF f(1) assms(2)] f assms(1) h(6,7) by (simp add: stage_def push_message_def answered_def)
qed

lemma text_holds:
  assumes "holding s (client_message t 0 body) s'" "t \<in> {0x03, 0x04}" "length body \<le> buffer_size"
  shows "holds_packet s' 0x91 t (mem16 (htons 0) @ mem16 (htons (of_nat (length body)))) body []"
  using holdingD [OF assms(1)] client_answer [of t 0 "[]" body] assms(2,3)
  by (intro holds_answer) (auto simp: fits_def struct_size_def sizeof_defs buffer_size_def)

lemma config_stage:
  assumes "stage WaitConfigInfo [] (Suc k) g s db" "holding s (client_message 0x03 0 body) s'"
    and "length body \<le> buffer_size" "texty body"
  shows "\<exists>s1 db1. fsm e s' db = Inr (True, s1, db1) \<and> stage WaitProcInfo [plain_request 0x04] k g s1 db1"
proof -
  note h = holdingD [OF assms(2)]
  have "state s' = WaitConfigInfo" "ready (Suc k) db"
    using assms(1) h(5) by (simp_all add: stage_def)
  then obtain q cmd where "cq_list q = []"
    and f: "fsm e s' db = Inr (True, (push_message (plain_request 0x04) (s'\<lparr>recv_buffer := q\<rparr>))\<lparr>state := WaitProcInfo\<rparr>,
       answered [cmd] db)" "ready k (answered [cmd] db)"
    using config_proceeds [OF _ text_holds [OF assms(2) _ assms(3)] _ assms(4)] by (metis insertCI)
  then show ?thesis
    using stage_after [OF f(1) assms(2)] f assms(1) h(6,7) by (simp add: stage_def push_message_def answered_def)
qed

lemma proc_stage:
  assumes "stage WaitProcInfo [] (Suc k) g s db" "holding s (client_message 0x04 0 body) s'"
    and "length body \<le> buffer_size" "texty body"
  shows "\<exists>s1 db1. fsm e s' db = Inr (True, s1, db1) \<and> stage WaitTermInfo [plain_request 0x09] k g s1 db1"
proof -
  note h = holdingD [OF assms(2)]
  have "state s' = WaitProcInfo" "ready (Suc k) db" "ethnum s' = 0"
    using assms(1) h(5,7) by (simp_all add: stage_def)
  moreover from this obtain q cmd where "cq_list q = []"
    and f: "fsm e s' db = Inr (True, ask_ethers (s'\<lparr>recv_buffer := q\<rparr>), answered [cmd] db)" "ready k (answered [cmd] db)"
    using proc_proceeds [OF _ text_holds [OF assms(2) _ assms(3)] _ assms(4)] by (metis insertCI)
  ultimately show ?thesis
    using stage_after [OF f(1) assms(2)] assms(1) h(6)
    by (simp add: stage_def push_message_def answered_def ask_ethers_def)
qed

text \<open>
  After the table: \<open>m\<close> with \<open>n\<close> terminals, of which \<open>n + r\<close> were announced; what is asked for is the table
  as it is read from the freed memory.
\<close>

definition tabled :: "env \<Rightarrow> Client \<Rightarrow> bytes \<Rightarrow> nat \<Rightarrow> nat \<Rightarrow> bool" where
  "tabled e s m n r \<longleftrightarrow> terms_map m n \<and> r < 270 - n \<and> tty_cnt s = 0 \<and> tty_connected s = int (n + r) \<and>
     (let t = asked_table e (table_bytes m (of_nat (n + r)))
      in send_buffer s = term_loop 0x0a 0 (tr_dumb_term t) @ term_loop 0x0b 0 (tr_ip_term t))"

lemma length_table_bytes: "terms_map m n \<Longrightarrow> length (table_bytes m k) = sizeof_TerInfoResponsePacket"
  by (simp add: table_bytes_def terms_map_def sizeof_defs)

lemma terms_stage:
  assumes "stage WaitTermInfo [] (Suc k) g s db" "holding s (send_message c3) s'"
    and "client_pack_message 0x09 opts c2 w2 = Inr (True, c3, w3)"
  shows "\<exists>s1 db1 m n r. fsm e s' db = Inr (True, s1, db1) \<and> stage WaitIPTermInfo (send_buffer s1) k g s1 db1 \<and>
    tabled e s1 m n r"
proof -
  note h = holdingD [OF assms(2)]
  obtain m n r where m: "send_message c3 = answer 0x09 (table_bytes m (of_nat (n + r))) []" "terms_map m n" "r < 270 - n"
    by (rule terminals_packed [OF assms(3)])
  let ?bs = "table_bytes m (of_nat (n + r))"
  have "fits 0x09 ?bs []"
    using length_table_bytes [OF m(2)] by (simp add: fits_def struct_size_def) (simp add: sizeof_defs)
  then have "holds_packet s' 0x91 0x09 ?bs [] []"
    using h(2,3) m(1) by (intro holds_answer) simp_all
  moreover have s: "state s' = WaitTermInfo" "ready (Suc k) db" "send_buffer s' = []"
    using assms(1) h(5,6) by (simp_all add: stage_def)
  ultimately obtain q cmd where "cq_list q = []"
    and f: "fsm e s' db = Inr (True, ask_terms (asked_table e ?bs) (s'\<lparr>recv_buffer := q\<rparr>), answered [cmd] db)"
      "ready k (answered [cmd] db)"
    using term_proceeds by metis
  let ?s1 = "ask_terms (asked_table e ?bs) (s'\<lparr>recv_buffer := q\<rparr>)"
  have "uint (of_nat (n + r) :: u16) = int (n + r)"
    unfolding int_unat [symmetric] by (subst unat_of_nat16) (use m(3) in simp_all)
  then have "tty_connected ?s1 = int (n + r)"
    by (simp add: ask_terms_def asked_table_def Let_def table_read [OF m(2)])
  moreover have "tty_cnt ?s1 = 0"
    using h(1,5) assms(1) s(1) by (auto simp: ask_terms_def session_inv_def tally_def state_order)
  moreover have "stage WaitIPTermInfo (send_buffer ?s1) k g ?s1 (answered [cmd] db)"
    using \<open>cq_list q = []\<close> h(7) assms(1) f
    by (intro stage_after [OF f(1) assms(2)]) (simp_all add: ask_terms_def stage_def answered_def)
  ultimately have "tabled e ?s1 m n r"
    using m(2,3) s(3) by (simp add: tabled_def Let_def) (simp add: ask_terms_def)
  with f(1) \<open>stage WaitIPTermInfo (send_buffer ?s1) k g ?s1 (answered [cmd] db)\<close> show ?thesis
    by blast
qed

lemma tabled_lazy:
  assumes "tabled e s m n r" "frees_lazily e"
  shows "set (send_buffer s) \<subseteq> range (term_request 0x0b)" "length (send_buffer s) = n" "n \<le> 254" "n + r < 270"
    "tty_connected s = int (n + r)" "tty_cnt s = 0"
proof -
  have m: "terms_map m n" "r < 270 - n" "tty_connected s = int (n + r)" "tty_cnt s = 0"
    using assms(1) by (simp_all add: tabled_def)
  have buffer: "send_buffer s = term_loop 0x0b 0 (drop 16 m)"
    using assms unfolding tabled_def asked_table_lazy [OF assms(2) length_table_bytes [OF m(1)]]
    by (simp add: table_read [OF m(1)] term_loop_zeros)
  then show "set (send_buffer s) \<subseteq> range (term_request 0x0b)"
    using term_loop_requests by simp
  show "length (send_buffer s) = n"
    using m(1) set_drop_subset [of 16 m] unfolding buffer by (subst length_term_loop) (auto simp: terms_map_def)
  show "n \<le> 254" "n + r < 270" "tty_connected s = int (n + r)" "tty_cnt s = 0"
    using terms_map_count(1) [OF m(1)] m by simp_all
qed

text \<open>The other thing an allocator may do: it writes something into the first bytes of the freed block.\<close>

definition overwrites :: "env \<Rightarrow> bool" where
  "overwrites e \<longleftrightarrow> (\<forall>bs. \<exists>x \<in> set (tr_dumb_term (TerInfoResponsePacket_of (env_freed e bs))). x \<noteq> 0)"

lemma tabled_overwritten:
  assumes "tabled e s m n r" "overwrites e"
  obtains i ms where "send_buffer s = term_request 0x0a i # ms"
proof -
  let ?d = "tr_dumb_term (asked_table e (table_bytes m (of_nat (n + r))))"
  have "\<exists>x \<in> set ?d. x \<noteq> 0"
    using assms(2) by (auto simp: overwrites_def asked_table_def Let_def)
  then have "filter (\<lambda>j. ?d ! j \<noteq> 0) [0..<length ?d] \<noteq> []"
    by (fastforce simp: filter_empty_conv in_set_conv_nth)
  then obtain i js where "filter (\<lambda>j. ?d ! j \<noteq> 0) [0..<length ?d] = i # js"
    by (cases "filter (\<lambda>j. ?d ! j \<noteq> 0) [0..<length ?d]") auto
  then have "term_loop 0x0a 0 ?d = term_request 0x0a i # map (term_request 0x0a) js"
    by (simp add: term_loop_set)
  then show thesis
    using that assms(1) by (simp add: tabled_def Let_def)
qed

section \<open>The terminals\<close>

text \<open>One terminal: the exchange that takes it and its screens.\<close>

lemma terminal_exchanged:
  assumes "m \<in> range (term_request 0x0b)" "able opts (Suc n) c w" "listening s" "state s = WaitIPTermInfo"
    and "ready (255 + k) db" "tty_cnt s < 2 ^ 31 - 1" "global_number db + 254 < 2 ^ 31" "lucky e"
  obtains c' w' s' db' where "able opts n c' w'" "listening s'" "tty_cnt s' = tty_cnt s + 1"
    "tty_connected s' = tty_connected s" "state s' = (if tty_cnt s' = tty_connected s then Ended else WaitIPTermInfo)"
    "send_buffer s' = send_buffer s @ (if tty_cnt s' = tty_connected s then [plain_request 0xff] else [])"
    "ready k db'" "global_number db' \<le> global_number db + 254"
    "\<And>j l. conversation e opts (Suc j) l m (c, w, [s], db) =
       (case send_buffer s' of [] \<Rightarrow> Inr (None, l @ [m], c', w', [s'], db')
        | m1 # ms \<Rightarrow> conversation e opts j (l @ [m]) m1 (c', w', [s'\<lparr>send_buffer := ms\<rparr>], db'))"
proof -
  have m: "understood m" "m ! 1 = 0x0b"
    using assms(1) by (auto simp: understood_term answerable_def)
  define P where "P s2 db2 \<longleftrightarrow> tty_cnt s2 = tty_cnt s + 1 \<and> tty_connected s2 = tty_connected s \<and>
      state s2 = (if tty_cnt s2 = tty_connected s then Ended else WaitIPTermInfo) \<and>
      send_buffer s2 = send_buffer s @ (if tty_cnt s2 = tty_connected s then [plain_request 0xff] else []) \<and>
      ready k db2 \<and> global_number db2 \<le> global_number db + 254" for s2 :: Client and db2 :: Database
  have step: "\<exists>s1 db1 s2 db2. fsm e s' db = Inr (True, s1, db1) \<and>
      nudge_all fsm (\<lambda>_ _. e) [s1] db1 = Inr ([s2], db2) \<and> listening s2 \<and> P s2 db2"
    if "client_pack_message (m ! 1) opts c2 w2 = Inr (True, c3, w3)" "holding s (send_message c3) s'" for c2 w2 c3 w3 s'
  proof -
    note h = holdingD [OF that(2)]
    have "state s' = WaitIPTermInfo" "cq_list (recv_buffer s') = send_message c3 @ []" "tty_cnt s' < 2 ^ 31 - 1"
      using h assms(4,6) by simp_all
    note both = terminal_with_screens [OF that(1) [unfolded m(2)] this(1) h(2) this(2) assms(5) this(3) assms(7,8)]
    obtain s1 db1 s2 db2 where 1: "fsm e s' db = Inr (True, s1, db1)" "state s1 = WaitScrInfo" "is_scr s1"
      "fsm e s1 db1 = Inr (True, s2, db2)" "tty_cnt s2 = tty_cnt s' + 1"
      "state s2 = (if tty_cnt s2 = tty_connected s' then Ended else WaitIPTermInfo)"
      "cq_list (recv_buffer s2) = []" "tty_connected s2 = tty_connected s'" "ready k db2"
      "send_buffer s2 = send_buffer s' @ (if tty_cnt s2 = tty_connected s' then [plain_request 0xff] else [])"
      "global_number db2 \<le> global_number db + 254"
      by (rule both) (rule that)
    have "listening s2"
      using listening_after(3) [OF 1(4) listening_after(1,2) [OF 1(1) h(1,4)] 1(7)] 1(6) by simp
    moreover have "P s2 db2"
      using 1(5-11) h(6,8,9) by (simp add: P_def)
    ultimately show ?thesis
      using 1(1) nudge_screens [OF 1(3,2,4)] by blast
  qed
  obtain c' w' s' db' where x: "able opts n c' w'" "listening s'" "P s' db'"
    "\<And>j l. conversation e opts (Suc j) l m (c, w, [s], db) =
       (case send_buffer s' of [] \<Rightarrow> Inr (None, l @ [m], c', w', [s'], db')
        | m1 # ms \<Rightarrow> conversation e opts j (l @ [m]) m1 (c', w', [s'\<lparr>send_buffer := ms\<rparr>], db'))"
    by (rule exchanged [OF m(1) assms(2,3) step]) (assumption | rule that)+
  show thesis
    by (rule that [OF x(1,2) _ _ _ _ _ _ x(4)]) (use x(3) in \<open>simp_all add: P_def\<close>)
qed

text \<open>With a header that holds less than the size of a screen, the first terminal ends the process.\<close>

lemma terminal_crashes:
  assumes "m \<in> range (term_request 0x0b)" "able opts (Suc n) c w" "listening s" "state s = WaitIPTermInfo"
    and "ready 255 db" "tty_cnt s < 2 ^ 31 - 1" "unat (hd_packet_size (env_junk e 0)) < sizeof_ScreenInfoPacket"
  shows "conversation e opts (Suc j) l m (c, w, [s], db) = Inl Length_Error"
proof -
  have m: "understood m" "m ! 1 = 0x0b"
    using assms(1) by (auto simp: understood_term answerable_def)
  show ?thesis
  proof (rule exchange_faults [OF m(1) assms(2,3)])
    fix c2 w2 c3 w3 s'
    assume p: "client_pack_message (m ! 1) opts c2 w2 = Inr (True, c3, w3)" "holding s (send_message c3) s'"
    note h = holdingD [OF p(2)]
    have s: "state s' = WaitIPTermInfo" "cq_list (recv_buffer s') = send_message c3 @ []" "tty_cnt s' < 2 ^ 31 - 1"
      using h assms(4,6) by simp_all
    obtain s1 db1 where 1: "fsm e s' db = Inr (True, s1, db1)" "state s1 = WaitScrInfo" "is_scr s1"
        "fsm e s1 db1 = Inl Length_Error"
      by (rule entered_then_thrown [OF p(1) [unfolded m(2)] s(1) h(2) s(2) assms(5) s(3) assms(7)])
    then have "nudge_all fsm (\<lambda>_ _. e) [s1] db1 = Inl Length_Error"
      by (simp add: nudge_def)
    with 1(1) show "fsm e s' db = Inl Length_Error \<or>
        (\<exists>s1 db1. fsm e s' db = Inr (True, s1, db1) \<and> nudge_all fsm (\<lambda>_ _. e) [s1] db1 = Inl Length_Error)"
      by blast
  qed
qed

text \<open>A request for a serial terminal is answered, but the server has no case for the answer.\<close>

lemma serial_crashes:
  assumes "m \<in> range (term_request 0x0a)" "able opts (Suc n) c w" "listening s" "state s = WaitIPTermInfo"
  shows "conversation e opts (Suc j) l m (c, w, [s], db) = Inl Uninitialised_Read"
proof -
  have m: "understood m" "m ! 1 = 0x0a"
    using assms(1) by (auto simp: understood_term answerable_def)
  show ?thesis
  proof (rule exchange_faults [OF m(1) assms(2,3)])
    fix c3 s'
    assume p: "holding s (send_message c3) s'" "answers_to (m ! 1) (send_message c3)"
    note h = holdingD [OF p(1)]
    obtain body where "send_message c3 = frame_of 0x0a body"
      using p(2) m(2) by (auto simp: answers_to_def)
    then have "framed (recv_buffer s') (packet_header 0x91 0x0a (length body)) body []"
      using h(2,3) by (simp add: framed_def frame_of_def)
    from unknown_type_faults [OF _ this] have "fsm e s' db = Inl Uninitialised_Read"
      using h(5) assms(4) by (simp add: receiving_def packet_header_def)
    then show "fsm e s' db = Inl Uninitialised_Read \<or>
        (\<exists>s1 db1. fsm e s' db = Inr (True, s1, db1) \<and> nudge_all fsm (\<lambda>_ _. e) [s1] db1 = Inl Uninitialised_Read)" ..
  qed
qed

lemma terminals_exchanged:
  assumes "lucky e"
  shows "\<lbrakk>insert m (set ms) \<subseteq> range (term_request 0x0b); able opts (Suc (length ms) + x) c w; listening s;
      state s = WaitIPTermInfo; send_buffer s = ms; tty_connected s = tty_cnt s + int (Suc (length ms) + r);
      tty_connected s < 2 ^ 16; ready (255 * Suc (length ms) + k) db;
      global_number db + 254 * int (Suc (length ms)) < 2 ^ 31\<rbrakk> \<Longrightarrow>
    \<exists>c' w' s' db'. able opts x c' w' \<and> listening s' \<and> send_buffer s' = [] \<and> ready k db' \<and>
      tty_cnt s' = tty_cnt s + int (Suc (length ms)) \<and> tty_connected s' = tty_connected s \<and>
      state s' = (if r = 0 then Ended else WaitIPTermInfo) \<and>
      (\<forall>j l. conversation e opts (Suc (length ms) + j) l m (c, w, [s], db) =
        (if r = 0 then conversation e opts j (l @ m # ms) (plain_request 0xff) (c', w', [s'], db')
         else Inr (None, l @ m # ms, c', w', [s'], db')))"
proof (induction ms arbitrary: m c w s db)
  case Nil
  have "ready (255 + k) db" "tty_cnt s < 2 ^ 31 - 1" "global_number db + 254 < 2 ^ 31" "able opts (Suc x) c w"
      "m \<in> range (term_request 0x0b)"
    using Nil.prems by simp_all
  note x = this
  obtain c' w' s' db' where 1: "able opts x c' w'" "listening s'" "tty_cnt s' = tty_cnt s + 1"
    "tty_connected s' = tty_connected s" "state s' = (if tty_cnt s' = tty_connected s then Ended else WaitIPTermInfo)"
    "send_buffer s' = send_buffer s @ (if tty_cnt s' = tty_connected s then [plain_request 0xff] else [])"
    "ready k db'"
    "\<And>j l. conversation e opts (Suc j) l m (c, w, [s], db) =
       (case send_buffer s' of [] \<Rightarrow> Inr (None, l @ [m], c', w', [s'], db')
        | m1 # ms \<Rightarrow> conversation e opts j (l @ [m]) m1 (c', w', [s'\<lparr>send_buffer := ms\<rparr>], db'))"
    by (rule terminal_exchanged [OF x(5,4) Nil.prems(3,4) x(1,2,3) assms]) (rule that)
  have "tty_cnt s' = tty_connected s \<longleftrightarrow> r = 0"
    using 1(3) Nil.prems(6) by simp
  moreover have "listening (s'\<lparr>send_buffer := []\<rparr>)"
    using 1(2) by (simp add: listening_def session_inv_def)
  ultimately show ?case
    using 1 Nil.prems(5)
    by (intro exI [of _ c'] exI [of _ w'] exI [of _ "s'\<lparr>send_buffer := []\<rparr>"] exI [of _ db']) auto
next
  case (Cons m1 ms)
  have "ready (255 + (255 * Suc (length ms) + k)) db" "tty_cnt s < 2 ^ 31 - 1" "global_number db + 254 < 2 ^ 31"
      "able opts (Suc (Suc (length ms) + x)) c w" "m \<in> range (term_request 0x0b)"
    using Cons.prems by (simp_all add: algebra_simps)
  note x = this
  obtain c1 w1 s1 db1 where 1: "able opts (Suc (length ms) + x) c1 w1" "listening s1" "tty_cnt s1 = tty_cnt s + 1"
    "tty_connected s1 = tty_connected s" "state s1 = (if tty_cnt s1 = tty_connected s then Ended else WaitIPTermInfo)"
    "send_buffer s1 = send_buffer s @ (if tty_cnt s1 = tty_connected s then [plain_request 0xff] else [])"
    "ready (255 * Suc (length ms) + k) db1" "global_number db1 \<le> global_number db + 254"
    "\<And>j l. conversation e opts (Suc j) l m (c, w, [s], db) =
       (case send_buffer s1 of [] \<Rightarrow> Inr (None, l @ [m], c1, w1, [s1], db1)
        | m1 # ms \<Rightarrow> conversation e opts j (l @ [m]) m1 (c1, w1, [s1\<lparr>send_buffer := ms\<rparr>], db1))"
    by (rule terminal_exchanged [OF x(5,4) Cons.prems(3,4) x(1,2,3) assms]) (rule that)
  have more: "tty_cnt s1 \<noteq> tty_connected s"
    using 1(3) Cons.prems(6) by simp
  then have buffer: "send_buffer s1 = m1 # ms"
    using 1(6) Cons.prems(5) by simp
  let ?s = "s1\<lparr>send_buffer := ms\<rparr>"
  have "insert m1 (set ms) \<subseteq> range (term_request 0x0b)" "listening ?s" "state ?s = WaitIPTermInfo" "send_buffer ?s = ms"
    "tty_connected ?s = tty_cnt ?s + int (Suc (length ms) + r)" "tty_connected ?s < 2 ^ 16"
    "global_number db1 + 254 * int (Suc (length ms)) < 2 ^ 31"
    using Cons.prems(1,6,7,9) 1(3,4,5,8) more server_speaks(2) [OF 1(2) buffer] by simp_all
  from Cons.IH [OF this(1) 1(1) this(2-6) 1(7) this(7)] obtain c' w' s' db' where
    "able opts x c' w'" "listening s'" "send_buffer s' = []" "ready k db'"
    "tty_cnt s' = tty_cnt ?s + int (Suc (length ms))" "tty_connected s' = tty_connected ?s"
    "state s' = (if r = 0 then Ended else WaitIPTermInfo)"
    "\<forall>j l. conversation e opts (Suc (length ms) + j) l m1 (c1, w1, [?s], db1) =
        (if r = 0 then conversation e opts j (l @ m1 # ms) (plain_request 0xff) (c', w', [s'], db')
         else Inr (None, l @ m1 # ms, c', w', [s'], db'))"
    by blast
  moreover have "conversation e opts (Suc (length (m1 # ms)) + j) l m (c, w, [s], db) =
      conversation e opts (Suc (length ms) + j) (l @ [m]) m1 (c1, w1, [?s], db1)" for j l
    using 1(9) [of "Suc (length ms) + j" l] buffer by simp
  ultimately show ?case
    using 1(3,4) by (intro exI [of _ c'] exI [of _ w'] exI [of _ s'] exI [of _ db']) simp
qed

section \<open>From the greeting to silence\<close>

lemma file_packed:
  assumes "client_pack_message t opts c w = Inr (True, c', w')" "good_surroundings opts w" "t \<in> {0x03, 0x04}"
  obtains bs where "send_message c' = client_message t 0 (bs @ [0])" "length (bs @ [0]) \<le> buffer_size" "texty (bs @ [0])"
proof -
  define f where "f = (if t = 0x03 then ''config.dat'' else ''process.dat'')"
  have f: "client_pack_message t opts c w = stored (pack_file f 8191 (begin_message t) w) True c w"
    using assms(3) by (elim insertE emptyE) (simp_all add: client_pack_message_def f_def)
  have "f \<in> {''config.dat'', ''process.dat'', ''usbfile.dat''}"
    by (simp add: f_def)
  moreover have "\<forall>name \<in> {''config.dat'', ''process.dat'', ''usbfile.dat''}. \<exists>bs. w_files w name = Some bs \<and> length bs < buffer_size"
    using assms(2) unfolding good_surroundings_def by (elim conjE)
  ultimately have "\<exists>bs. w_files w f = Some bs \<and> length bs < buffer_size"
    by (rule bspec [rotated])
  then obtain bs where bs: "w_files w f = Some bs" "length bs < buffer_size"
    by (elim exE conjE)
  then have "pack_file f 8191 (begin_message t) w = Some (client_message t 0 (bs @ [0]))"
    by (intro pack_file_message) (simp_all add: buffer_size_def)
  then have "send_message c' = client_message t 0 (bs @ [0])"
    using f assms(1) by (auto simp: stored_def)
  then show thesis
    using that bs(2) by (simp add: texty_def)
qed

lemma conversation_opens:
  assumes "listening s" "state s = WaitAuth" "send_buffer s = []" "ready (7 + k) db" "global_number db = g"
    and "able opts (4 + n) c w"
  obtains c' w' s' db' where "able opts n c' w'" "stage WaitTermInfo [] k g s' db'"
    "\<And>j l. conversation e opts (4 + j) l (auth_request e' a b) (c, w, [s], db) =
      conversation e opts j (l @ auth_request e' a b # map plain_request [0x02, 0x03, 0x04]) (plain_request 0x09) (c', w', [s'], db')"
proof -
  have plain: "understood (plain_request t)" if "t \<in> {0x02, 0x03, 0x04}" for t
    using that by (intro understood_plain) (auto simp: answerable_def)
  have ready: "ready (4 + Suc (Suc (Suc k))) db"
    using assms(4) by simp
  have able: "able opts (Suc (Suc (Suc (Suc n)))) c w"
    using assms(6) by (simp add: eval_nat_numeral)
  have first: "\<exists>s1 db1. fsm e s' db = Inr (True, s1, db1) \<and> listening s1 \<and>
      stage WaitSysInfo [plain_request 0x02] (Suc (Suc (Suc k))) g s1 db1"
    if "client_pack_message (auth_request e' a b ! 1) opts c2 w2 = Inr (True, c3, w3)" "wf_dev (ts_dev c2)"
      "holding s (send_message c3) s'" for c2 w2 c3 w3 s'
  proof -
    have "send_message c3 =
        PacketHeader_mem (packet_header 0x91 0x01 112) @ sealed (reported (ts_dev c2)) (htons 108) (next_random w2)"
      using that(1) pack_response [OF that(2), of opts w2] by auto
    then show ?thesis
      using auth_stage [OF assms(1-3) ready assms(5) that(2)] that(3) by (fastforce simp: stage_def)
  qed
  obtain c1 w1 s1 db1 where 1: "able opts (Suc (Suc (Suc n))) c1 w1"
      "stage WaitSysInfo [plain_request 0x02] (Suc (Suc (Suc k))) g s1 db1"
      "\<And>j l. conversation e opts (Suc j) l (auth_request e' a b) (c, w, [s], db) =
         (case send_buffer s1 of [] \<Rightarrow> Inr (None, l @ [auth_request e' a b], c1, w1, [s1], db1)
          | m1 # ms \<Rightarrow> conversation e opts j (l @ [auth_request e' a b]) m1 (c1, w1, [s1\<lparr>send_buffer := ms\<rparr>], db1))"
    by (rule exchanged_plainly [OF understood_auth able assms(1) first]) (assumption | rule that)+
  obtain c2 w2 s2 db2 where 2: "able opts (Suc (Suc n)) c2 w2" "stage WaitConfigInfo [] (Suc (Suc k)) g s2 db2"
      "\<And>j l. conversation e opts (Suc j) l (plain_request 0x02) (c1, w1, [s1\<lparr>send_buffer := []\<rparr>], db1) =
        conversation e opts j (l @ [plain_request 0x02]) (plain_request 0x03) (c2, w2, [s2], db2)"
  proof (rule staged [OF plain 1(1) stage_spoken [OF 1(2)]])
    fix c2 w2 c3 w3 s'
    assume p: "client_pack_message (plain_request 0x02 ! 1) opts c2 w2 = Inr (True, c3, w3)"
      "holding (s1\<lparr>send_buffer := []\<rparr>) (send_message c3) s'"
    have "send_message c3 = pack_sysinfo (begin_message 0x02)"
      using p(1) by (auto simp: client_pack_message_def stored_def)
    then have "holding (s1\<lparr>send_buffer := []\<rparr>) (client_message 0x02 0 (drop 8 (pack_sysinfo (begin_message 0x02)))) s'"
      using p(2) by (simp flip: push_simple(1))
    moreover have "length (drop 8 (pack_sysinfo (begin_message 0x02))) = 20"
      by (simp add: pack_sysinfo_def Let_def begin_message_eq push_simps)
    ultimately show "\<exists>s2 db2. fsm e s' db1 = Inr (True, s2, db2) \<and> stage WaitConfigInfo [plain_request 0x03] (Suc (Suc k)) g s2 db2"
      by (rule sysinfo_stage [OF stage_spoken [OF 1(2)]])
  qed (auto intro: that)
  obtain c3 w3 s3 db3 where 3: "able opts (Suc n) c3 w3" "stage WaitProcInfo [] (Suc k) g s3 db3"
      "\<And>j l. conversation e opts (Suc j) l (plain_request 0x03) (c2, w2, [s2], db2) =
        conversation e opts j (l @ [plain_request 0x03]) (plain_request 0x04) (c3, w3, [s3], db3)"
  proof (rule staged [OF plain 2(1,2)])
    fix ca wa cb wb s'
    assume "client_pack_message (plain_request 0x03 ! 1) opts ca wa = Inr (True, cb, wb)" "good_surroundings opts wa"
      "holding s2 (send_message cb) s'"
    then show "\<exists>s3 db3. fsm e s' db2 = Inr (True, s3, db3) \<and> stage WaitProcInfo [plain_request 0x04] (Suc k) g s3 db3"
      using file_packed [of "0x03" opts ca wa cb wb] config_stage [OF 2(2)] by (metis One_nat_def insertCI request_types(1))
  qed (auto intro: that)
  obtain c4 w4 s4 db4 where 4: "able opts n c4 w4" "stage WaitTermInfo [] k g s4 db4"
      "\<And>j l. conversation e opts (Suc j) l (plain_request 0x04) (c3, w3, [s3], db3) =
        conversation e opts j (l @ [plain_request 0x04]) (plain_request 0x09) (c4, w4, [s4], db4)"
  proof (rule staged [OF plain 3(1,2)])
    fix ca wa cb wb s'
    assume "client_pack_message (plain_request 0x04 ! 1) opts ca wa = Inr (True, cb, wb)" "good_surroundings opts wa"
      "holding s3 (send_message cb) s'"
    then show "\<exists>s4 db4. fsm e s' db3 = Inr (True, s4, db4) \<and> stage WaitTermInfo [plain_request 0x09] k g s4 db4"
      using file_packed [of "0x04" opts ca wa cb wb] proc_stage [OF 3(2)] by (metis One_nat_def insertCI request_types(1))
  qed (auto intro: that)
  have "send_buffer s1 = [plain_request 0x02]"
    using 1(2) by (simp add: stage_def)
  then have "conversation e opts (4 + j) l (auth_request e' a b) (c, w, [s], db) =
      conversation e opts j (l @ auth_request e' a b # map plain_request [0x02, 0x03, 0x04]) (plain_request 0x09) (c4, w4, [s4], db4)" for j l
    using 1(3) [of "Suc (Suc (Suc j))" l] 2(3) 3(3) 4(3) by (simp add: eval_nat_numeral)
  with 4(1,2) show thesis
    by (rule that)
qed

lemma table_exchanged:
  assumes "able opts (Suc n) c w" "stage WaitTermInfo [] (Suc k) g s db"
  obtains x y r c' w' s' db' where "able opts n c' w'" "stage WaitIPTermInfo (send_buffer s') k g s' db'" "tabled e s' x y r"
    "\<And>j l. conversation e opts (Suc j) l (plain_request 0x09) (c, w, [s], db) =
       (case send_buffer s' of [] \<Rightarrow> Inr (None, l @ [plain_request 0x09], c', w', [s'], db')
        | m1 # ms \<Rightarrow> conversation e opts j (l @ [plain_request 0x09]) m1 (c', w', [s'\<lparr>send_buffer := ms\<rparr>], db'))"
proof -
  define P where "P s2 db2 \<longleftrightarrow> stage WaitIPTermInfo (send_buffer s2) k g s2 db2 \<and> (\<exists>x y r. tabled e s2 x y r)"
    for s2 :: Client and db2 :: Database
  have step: "\<exists>s1 db1. fsm e s' db = Inr (True, s1, db1) \<and> listening s1 \<and> P s1 db1"
    if "client_pack_message (plain_request 0x09 ! 1) opts c2 w2 = Inr (True, c3, w3)" "holding s (send_message c3) s'"
    for c2 w2 c3 w3 s'
    using terms_stage [OF assms(2) that(2)] that(1) by (fastforce simp: P_def stage_def)
  have "understood (plain_request 0x09)" "listening s"
    using assms(2) by (auto simp: stage_def answerable_def intro!: understood_plain)
  then obtain c' w' s' db' where x: "able opts n c' w'" "P s' db'"
    "\<And>j l. conversation e opts (Suc j) l (plain_request 0x09) (c, w, [s], db) =
       (case send_buffer s' of [] \<Rightarrow> Inr (None, l @ [plain_request 0x09], c', w', [s'], db')
        | m1 # ms \<Rightarrow> conversation e opts j (l @ [plain_request 0x09]) m1 (c', w', [s'\<lparr>send_buffer := ms\<rparr>], db'))"
    by (rule exchanged_plainly [OF _ assms(1) _ step]) (assumption | rule that)+
  then show thesis
    using that [OF x(1) _ _ x(3)] by (auto simp: P_def)
qed

lemma end_exchanged:
  assumes "able opts (Suc n) c w" "listening s" "state s = Ended" "send_buffer s = []" "ready (Suc k) db"
  obtains c' w' s' db' where "listening s'" "state s' = Ended" "send_buffer s' = []" "tty_cnt s' = tty_cnt s"
    "tty_connected s' = tty_connected s"
    "\<And>j l. conversation e opts (Suc j) l (plain_request 0xff) (c, w, [s], db) = Inr (None, l @ [plain_request 0xff], c', w', [s'], db')"
proof -
  define P where "P s2 db2 \<longleftrightarrow> state s2 = Ended \<and> send_buffer s2 = [] \<and> tty_cnt s2 = tty_cnt s \<and>
      tty_connected s2 = tty_connected s" for s2 :: Client and db2 :: Database
  have step: "\<exists>s1 db1. fsm e s' db = Inr (True, s1, db1) \<and> listening s1 \<and> P s1 db1"
    if "client_pack_message (plain_request 0xff ! 1) opts c2 w2 = Inr (True, c3, w3)" "holding s (send_message c3) s'"
    for c2 w2 c3 w3 s'
  proof -
    note h = holdingD [OF that(2)]
    have "send_message c3 = client_message 0xff 0 []"
      using that(1) push_simple(3) by (auto simp: client_pack_message_def stored_def)
    then have "holds_packet s' 0x91 0xff (mem16 (htons 0) @ mem16 (htons 0)) [] []"
      using h(2,3) client_answer [of "0xff" 0 "[]" "[]"]
      by (intro holds_answer) (simp_all add: fits_def struct_size_def sizeof_defs)
    then obtain q cmd where f: "cq_list q = []" "fsm e s' db = Inr (True, s'\<lparr>recv_buffer := q\<rparr>, answered [cmd] db)"
      using end_proceeds [of s' _ "[]" "[]" k db e] h(5) assms(3,5) by metis
    then show ?thesis
      using listening_after(3) [OF f(2) h(1,4)] h(5,6,8,9) assms(3,4) by (simp add: P_def)
  qed
  have "understood (plain_request 0xff)"
    by (rule understood_plain) (simp add: answerable_def)
  then obtain c' w' s' db' where "listening s'" "P s' db'"
    "\<And>j l. conversation e opts (Suc j) l (plain_request 0xff) (c, w, [s], db) =
       (case send_buffer s' of [] \<Rightarrow> Inr (None, l @ [plain_request 0xff], c', w', [s'], db')
        | m1 # ms \<Rightarrow> conversation e opts j (l @ [plain_request 0xff]) m1 (c', w', [s'\<lparr>send_buffer := ms\<rparr>], db'))"
    by (rule exchanged_plainly [OF _ assms(1,2) step]) (assumption | rule that)+
  then show thesis
    using that by (simp add: P_def)
qed

text \<open>The terminals that were asked for, and the farewell if the server has counted them all.\<close>

lemma terminals_end:
  assumes "lucky e" "insert m (set ms) \<subseteq> range (term_request 0x0b)" "able opts 255 c w" "length ms < 254" "listening s"
    and "state s = WaitIPTermInfo" "send_buffer s = ms" "tty_connected s = tty_cnt s + int (Suc (length ms) + r)"
    and "tty_connected s < 2 ^ 16" "ready (255 * Suc (length ms) + 1) db" "global_number db + 254 * int (Suc (length ms)) < 2 ^ 31"
  obtains c' w' s' db' where "listening s'" "send_buffer s' = []" "tty_cnt s' = tty_cnt s + int (Suc (length ms))"
    "tty_connected s' = tty_connected s" "state s' = (if r = 0 then Ended else WaitIPTermInfo)"
    "\<And>j l. conversation e opts (Suc (length ms) + Suc j) l m (c, w, [s], db) =
      Inr (None, l @ m # ms @ (if r = 0 then [plain_request 0xff] else []), c', w', [s'], db')"
proof -
  have "able opts (Suc (length ms) + Suc (253 - length ms)) c w"
    using assms(3,4) by simp
  from terminals_exchanged [OF assms(1,2) this assms(5-11)] obtain c3 w3 s3 db3 where
    3: "able opts (Suc (253 - length ms)) c3 w3" "listening s3" "send_buffer s3 = []" "ready (Suc 0) db3"
    "tty_cnt s3 = tty_cnt s + int (Suc (length ms))" "tty_connected s3 = tty_connected s"
    "state s3 = (if r = 0 then Ended else WaitIPTermInfo)"
    "\<forall>j l. conversation e opts (Suc (length ms) + j) l m (c, w, [s], db) =
      (if r = 0 then conversation e opts j (l @ m # ms) (plain_request 0xff) (c3, w3, [s3], db3)
       else Inr (None, l @ m # ms, c3, w3, [s3], db3))"
    unfolding One_nat_def by blast
  show thesis
  proof (cases "r = 0")
    case True
    obtain c4 w4 s4 db4 where 4: "listening s4" "state s4 = Ended" "send_buffer s4 = []" "tty_cnt s4 = tty_cnt s3"
      "tty_connected s4 = tty_connected s3" "\<And>j l. conversation e opts (Suc j) l (plain_request 0xff) (c3, w3, [s3], db3) =
        Inr (None, l @ [plain_request 0xff], c4, w4, [s4], db4)"
      by (rule end_exchanged [OF 3(1,2) _ 3(3,4)]) (use 3(7) True in simp, rule that)
    have "conversation e opts (Suc (length ms) + Suc j) l m (c, w, [s], db) =
        Inr (None, l @ m # ms @ [plain_request 0xff], c4, w4, [s4], db4)" for j l
      using spec [OF spec [OF 3(8)], of "Suc j" l] 4(6) True by simp
    then show thesis
      by (intro that [of s4 c4 w4 db4]) (use 3(5,6) 4(1-5) True in simp_all)
  next
    case False
    then have "conversation e opts (Suc (length ms) + Suc j) l m (c, w, [s], db) = Inr (None, l @ m # ms, c3, w3, [s3], db3)"
      for j l
      using spec [OF spec [OF 3(8)], of "Suc j" l] by simp
    then show thesis
      by (intro that [of s3 c3 w3 db3]) (use 3(2,3,5-7) False in simp_all)
  qed
qed

text \<open>The requests of a conversation about the terminals \<open>ts\<close>, with a surplus of \<open>r\<close>.\<close>

abbreviation first_requests :: "bytes \<Rightarrow> bytes list" where
  "first_requests m \<equiv> m # map plain_request [0x02, 0x03, 0x04, 0x09]"

definition requests_upto :: "nat \<Rightarrow> bytes list \<Rightarrow> bytes \<Rightarrow> bytes list" where
  "requests_upto r ts m = first_requests m @ ts @ (if r = 0 \<and> ts \<noteq> [] then [plain_request 0xff] else [])"

text \<open>Up to the table of terminals nothing depends on undefined memory.\<close>

lemma conversation_starts:
  assumes "able opts 260 c w" "listening s" "state s = WaitAuth" "send_buffer s = []"
    and "ready 65000 db" "global_number db + 65000 < 2 ^ 31"
  obtains x y r c2 w2 s2 db2 where "able opts 255 c2 w2" "tabled e s2 x y r" "listening s2" "state s2 = WaitIPTermInfo"
    "ready (254 * 255 + 1) db2" "global_number db2 = global_number db"
    "\<And>j. conversation e opts (5 + j) [] (auth_request e' a b) (c, w, [s], db) =
      (case send_buffer s2 of [] \<Rightarrow> Inr (None, first_requests (auth_request e' a b), c2, w2, [s2], db2)
       | m1 # ms \<Rightarrow> conversation e opts j (first_requests (auth_request e' a b)) m1 (c2, w2, [s2\<lparr>send_buffer := ms\<rparr>], db2))"
proof -
  let ?m = "auth_request e' a b"
  have "ready (7 + Suc (254 * 255 + 1)) db" "able opts (4 + Suc 255) c w"
    using assms(1,5) ready_more [of 65000 db] by simp_all
  note start = conversation_opens [OF assms(2-4) this(1) refl this(2)]
  obtain c1 w1 s1 db1 where 1: "able opts (Suc 255) c1 w1"
      "stage WaitTermInfo [] (Suc (254 * 255 + 1)) (global_number db) s1 db1"
      "\<And>j l. conversation e opts (4 + j) l ?m (c, w, [s], db) =
        conversation e opts j (l @ ?m # map plain_request [0x02, 0x03, 0x04]) (plain_request 0x09) (c1, w1, [s1], db1)"
    by (rule start) (rule that)
  obtain x y r c2 w2 s2 db2 where 2: "able opts 255 c2 w2"
      "stage WaitIPTermInfo (send_buffer s2) (254 * 255 + 1) (global_number db) s2 db2" "tabled e s2 x y r"
      "\<And>j l. conversation e opts (Suc j) l (plain_request 0x09) (c1, w1, [s1], db1) =
         (case send_buffer s2 of [] \<Rightarrow> Inr (None, l @ [plain_request 0x09], c2, w2, [s2], db2)
          | m1 # ms \<Rightarrow> conversation e opts j (l @ [plain_request 0x09]) m1 (c2, w2, [s2\<lparr>send_buffer := ms\<rparr>], db2))"
    by (rule table_exchanged [OF 1(1,2)]) (rule that)
  have s2: "listening s2" "state s2 = WaitIPTermInfo" "ready (254 * 255 + 1) db2" "global_number db2 = global_number db"
    using 2(2) by (simp_all add: stage_def)
  have "conversation e opts (5 + j) [] ?m (c, w, [s], db) =
      (case send_buffer s2 of [] \<Rightarrow> Inr (None, first_requests ?m, c2, w2, [s2], db2)
       | m1 # ms \<Rightarrow> conversation e opts j (first_requests ?m) m1 (c2, w2, [s2\<lparr>send_buffer := ms\<rparr>], db2))" for j
    using 1(3) [of "Suc j" "[]"] 2(4) [of j] by (cases "send_buffer s2") simp_all
  with 2(1,3) s2 show thesis
    by (rule that)
qed

lemma conversation_ends:
  assumes "able opts 260 c w" "listening s" "state s = WaitAuth" "send_buffer s = []"
    and "ready 65000 db" "global_number db + 65000 < 2 ^ 31" "frees_lazily e" "lucky e"
  shows "\<exists>ts r c' w' s' db'. length ts + r < 270 \<and> length ts \<le> 254 \<and> set ts \<subseteq> range (term_request 0x0b) \<and>
    (\<forall>j \<ge> 260. conversation e opts j [] (auth_request e' a b) (c, w, [s], db) =
      Inr (None, requests_upto r ts (auth_request e' a b), c', w', [s'], db')) \<and>
    tty_cnt s' = int (length ts) \<and> tty_connected s' = int (length ts + r) \<and> cq_list (recv_buffer s') = [] \<and>
    send_buffer s' = [] \<and> state s' = (if r = 0 \<and> ts \<noteq> [] then Ended else WaitIPTermInfo)"
proof -
  let ?m = "auth_request e' a b"
  obtain x y r c2 w2 s2 db2 where 1: "able opts 255 c2 w2" "tabled e s2 x y r"
    and s2: "listening s2" "state s2 = WaitIPTermInfo" "ready (254 * 255 + 1) db2" "global_number db2 = global_number db"
    and total: "\<And>j. conversation e opts (5 + j) [] ?m (c, w, [s], db) =
      (case send_buffer s2 of [] \<Rightarrow> Inr (None, first_requests ?m, c2, w2, [s2], db2)
       | m1 # ms \<Rightarrow> conversation e opts j (first_requests ?m) m1 (c2, w2, [s2\<lparr>send_buffer := ms\<rparr>], db2))"
    by (rule conversation_starts [OF assms(1-6)]) (rule that)
  note t = tabled_lazy [OF 1(2) assms(7)]
  have 2: "set (send_buffer s2) \<subseteq> range (term_request 0x0b)" "length (send_buffer s2) \<le> 254"
      "length (send_buffer s2) + r < 270" "tty_cnt s2 = 0" "tty_connected s2 = int (length (send_buffer s2) + r)"
    using t by simp_all
  show ?thesis
  proof (cases "send_buffer s2")
    case Nil
    have "conversation e opts j [] ?m (c, w, [s], db) = Inr (None, requests_upto r [] ?m, c2, w2, [s2], db2)"
      if "j \<ge> 260" for j
      using total [of "j - 5"] that Nil by (simp add: requests_upto_def)
    then show ?thesis
      using Nil 2(3-5) s2(1,2) unfolding listening_def
      by (intro exI [of _ "[]"] exI [of _ r] exI [of _ c2] exI [of _ w2] exI [of _ s2] exI [of _ db2]) simp
  next
    case (Cons m ms)
    let ?n = "Suc (length ms)" and ?s = "s2\<lparr>send_buffer := ms\<rparr>"
    have n: "length (send_buffer s2) = ?n" "?n \<le> 254"
      using Cons 2(2) by simp_all
    have "255 * ?n + 1 \<le> 254 * 255 + 1"
      using mult_le_mono2 [OF n(2), of 255] by simp
    then have "insert m (set ms) \<subseteq> range (term_request 0x0b)" "length ms < 254" "listening ?s"
      "state ?s = WaitIPTermInfo" "send_buffer ?s = ms" "tty_connected ?s = tty_cnt ?s + int (?n + r)"
      "tty_connected ?s < 2 ^ 16" "ready (255 * ?n + 1) db2" "global_number db2 + 254 * int ?n < 2 ^ 31"
      using 2(1,3-5) n s2 Cons assms(6) server_speaks(2) [OF s2(1) Cons] ready_more [OF s2(3)] by simp_all
    note last = terminals_end [OF assms(8) this(1) 1(1) this(2-9)]
    obtain c4 w4 s4 db4 where 4: "listening s4" "send_buffer s4 = []" "tty_cnt s4 = tty_cnt ?s + int ?n"
      "tty_connected s4 = tty_connected ?s" "state s4 = (if r = 0 then Ended else WaitIPTermInfo)"
      "\<And>j l. conversation e opts (?n + Suc j) l m (c2, w2, [?s], db2) =
        Inr (None, l @ m # ms @ (if r = 0 then [plain_request 0xff] else []), c4, w4, [s4], db4)"
      by (rule last) (rule that)
    have "conversation e opts j [] ?m (c, w, [s], db) = Inr (None, requests_upto r (m # ms) ?m, c4, w4, [s4], db4)"
      if "j \<ge> 260" for j
    proof -
      have j: "5 + (?n + Suc (j - 6 - ?n)) = j"
        using that n(2) by linarith
      show ?thesis
        using total [of "?n + Suc (j - 6 - ?n)"] 4(6) Cons unfolding j by (simp add: requests_upto_def)
    qed
    then show ?thesis
      using 4(1-5) 2(1,3-5) n Cons unfolding listening_def
      by (intro exI [of _ "m # ms"] exI [of _ r] exI [of _ c4] exI [of _ w4] exI [of _ s4] exI [of _ db4]) simp
  qed
qed

text \<open>What undefined memory can do instead.\<close>

lemma conversation_crashes:
  assumes "able opts 260 c w" "listening s" "state s = WaitAuth" "send_buffer s = []"
    and "ready 65000 db" "global_number db + 65000 < 2 ^ 31"
  shows "overwrites e \<Longrightarrow> \<forall>j \<ge> 260. conversation e opts j [] (auth_request e' a b) (c, w, [s], db) = Inl Uninitialised_Read"
    "frees_lazily e \<Longrightarrow> unat (hd_packet_size (env_junk e 0)) < sizeof_ScreenInfoPacket \<Longrightarrow>
     (\<forall>j \<ge> 260. conversation e opts j [] (auth_request e' a b) (c, w, [s], db) = Inl Length_Error) \<or>
     (\<exists>c' w' s' db'. tty_cnt s' = 0 \<and> (\<forall>j \<ge> 260. conversation e opts j [] (auth_request e' a b) (c, w, [s], db) =
        Inr (None, first_requests (auth_request e' a b), c', w', [s'], db')))"
proof -
  let ?m = "auth_request e' a b"
  obtain x y r c2 w2 s2 db2 where 1: "able opts 255 c2 w2" "tabled e s2 x y r"
    and s2: "listening s2" "state s2 = WaitIPTermInfo" "ready (254 * 255 + 1) db2" "global_number db2 = global_number db"
    and total: "\<And>j. conversation e opts (5 + j) [] ?m (c, w, [s], db) =
      (case send_buffer s2 of [] \<Rightarrow> Inr (None, first_requests ?m, c2, w2, [s2], db2)
       | m1 # ms \<Rightarrow> conversation e opts j (first_requests ?m) m1 (c2, w2, [s2\<lparr>send_buffer := ms\<rparr>], db2))"
    by (rule conversation_starts [OF assms]) (rule that)
  have able: "able opts (Suc 254) c2 w2"
    using 1(1) by simp
  have late: "conversation e opts j [] ?m (c, w, [s], db) = z"
    if "\<And>k. conversation e opts (5 + Suc k) [] ?m (c, w, [s], db) = z" "j \<ge> 260" for j z
    using that(1) [of "j - 6"] that(2) by simp
  have more: "listening (s2\<lparr>send_buffer := ms\<rparr>)" if "send_buffer s2 = m # ms" for m ms
    using server_speaks(2) [OF s2(1) that] .
  show "\<forall>j \<ge> 260. conversation e opts j [] ?m (c, w, [s], db) = Inl Uninitialised_Read" if o: "overwrites e"
  proof -
    obtain i ms where b: "send_buffer s2 = term_request 0x0a i # ms"
      by (rule tabled_overwritten [OF 1(2) o])
    have "conversation e opts (5 + Suc k) [] ?m (c, w, [s], db) = Inl Uninitialised_Read" for k
      unfolding total b by (simp add: serial_crashes [OF _ able more [OF b]] s2(2))
    then show ?thesis
      using late by blast
  qed
  show "(\<forall>j \<ge> 260. conversation e opts j [] ?m (c, w, [s], db) = Inl Length_Error) \<or>
     (\<exists>c' w' s' db'. tty_cnt s' = 0 \<and> (\<forall>j \<ge> 260. conversation e opts j [] ?m (c, w, [s], db) =
        Inr (None, first_requests ?m, c', w', [s'], db')))"
    if h: "frees_lazily e" "unat (hd_packet_size (env_junk e 0)) < sizeof_ScreenInfoPacket"
  proof (cases "send_buffer s2")
    case Nil
    then have "conversation e opts (5 + Suc k) [] ?m (c, w, [s], db) = Inr (None, first_requests ?m, c2, w2, [s2], db2)" for k
      unfolding total by simp
    then have "\<forall>j \<ge> 260. conversation e opts j [] ?m (c, w, [s], db) = Inr (None, first_requests ?m, c2, w2, [s2], db2)"
      using late by blast
    then show ?thesis
      using tabled_lazy(6) [OF 1(2) h(1)] by blast
  next
    case (Cons m ms)
    then have "m \<in> range (term_request 0x0b)" "ready 255 db2"
      using tabled_lazy(1) [OF 1(2) h(1)] ready_more [OF s2(3), of 255] by auto
    then have "conversation e opts (5 + Suc k) [] ?m (c, w, [s], db) = Inl Length_Error" for k
      unfolding total Cons
      by (simp add: terminal_crashes [OF _ able more [OF Cons] _ _ _ h(2)] s2(2) tabled_lazy(6) [OF 1(2) h(1)])
    then show ?thesis
      using late by blast
  qed
qed

text \<open>The requests are ones the client understands, and no End comes before the last of them.\<close>

lemma requests_understood:
  assumes "set ts \<subseteq> range (term_request 0x0b)"
  shows "\<forall>m \<in> set (requests_upto r ts (auth_request e' a b)). understood m"
    "\<forall>m \<in> set (butlast (requests_upto r ts (auth_request e' a b))). m ! 1 \<noteq> 0xFF"
    "last (requests_upto r ts (auth_request e' a b)) ! 1 = 0xFF \<longleftrightarrow> r = 0 \<and> ts \<noteq> []"
proof -
  have plain: "understood (plain_request t)" if "t \<in> {0x02, 0x03, 0x04, 0x09, 0xff}" for t
    using that by (intro understood_plain) (auto simp: answerable_def)
  have ts: "understood m" "m ! 1 = 0x0b" if "m \<in> set ts" for m
    using that assms by (auto simp: understood_term answerable_def)
  show "\<forall>m \<in> set (requests_upto r ts (auth_request e' a b)). understood m"
    using plain ts(1) understood_auth by (auto simp: requests_upto_def)
  have "\<forall>m \<in> set (first_requests (auth_request e' a b) @ ts). m ! 1 \<noteq> 0xFF"
    using ts(2) by auto
  note no_end = this
  show "\<forall>m \<in> set (butlast (requests_upto r ts (auth_request e' a b))). m ! 1 \<noteq> 0xFF"
    using no_end unfolding requests_upto_def
    by (cases "r = 0 \<and> ts \<noteq> []") (auto simp: butlast_append dest: in_set_butlastD)
  show "last (requests_upto r ts (auth_request e' a b)) ! 1 = 0xFF \<longleftrightarrow> r = 0 \<and> ts \<noteq> []"
    using no_end last_in_set [of "first_requests (auth_request e' a b) @ ts"] unfolding requests_upto_def
    by (cases "r = 0 \<and> ts \<noteq> []") auto
qed

text \<open>
  How a conversation with a client ends: the requests it has answered, what has become of it, its
  surroundings and its session. \<open>ts\<close> are the requests for terminals, \<open>r\<close> the surplus of the table.
\<close>

definition comes_to :: "Options \<Rightarrow> bytes \<Rightarrow> TsClient \<Rightarrow> world \<Rightarrow> bytes list \<Rightarrow> TsClient \<Rightarrow> world \<Rightarrow> Client \<Rightarrow> bool" where
  "comes_to opts m c w reqs c' w' s' \<longleftrightarrow> (\<exists>ts r. length ts + r < 270 \<and> length ts \<le> 254 \<and>
     reqs = m # map plain_request [0x02, 0x03, 0x04, 0x09] @ ts @ (if r = 0 \<and> ts \<noteq> [] then [plain_request 0xff] else []) \<and>
     set ts \<subseteq> range (term_request 0x0b) \<and>
     client_communicate opts c (w\<lparr>w_recv := map Got (concat (map pieces reqs))\<rparr>) =
       (if r = 0 \<and> ts \<noteq> [] then Inr (0, c', w') else Inl Waiting) \<and>
     tty_cnt s' = int (length ts) \<and> tty_connected s' = int (length ts + r) \<and> cq_list (recv_buffer s') = [] \<and>
     send_buffer s' = [] \<and> state s' = (if r = 0 \<and> ts \<noteq> [] then Ended else WaitIPTermInfo))"

lemma conversation_comes_out:
  assumes "able opts 260 c (seed_by_time w)" "listening s" "state s = WaitAuth" "send_buffer s = []"
    and "ready 65000 db" "global_number db + 65000 < 2 ^ 31" "frees_lazily e" "lucky e"
  shows "\<exists>reqs c' w' s' db'. comes_to opts (auth_request e' a b) c w reqs c' w' s' \<and>
    (\<forall>j \<ge> 260. conversation e opts j [] (auth_request e' a b) (c, seed_by_time w, [s], db) =
      Inr (None, reqs, c', w', [s'], db'))"
proof -
  obtain ts r c' w' s' db' where x: "length ts + r < 270" "length ts \<le> 254" "set ts \<subseteq> range (term_request 0x0b)"
    "\<forall>j \<ge> 260. conversation e opts j [] (auth_request e' a b) (c, seed_by_time w, [s], db) =
      Inr (None, requests_upto r ts (auth_request e' a b), c', w', [s'], db')"
    "tty_cnt s' = int (length ts)" "tty_connected s' = int (length ts + r)" "cq_list (recv_buffer s') = []"
    "send_buffer s' = []" "state s' = (if r = 0 \<and> ts \<noteq> [] then Ended else WaitIPTermInfo)"
    using conversation_ends [OF assms] by blast
  let ?l = "requests_upto r ts (auth_request e' a b)"
  have l: "?l \<noteq> []" "hd ?l ! 1 \<noteq> 0xFF" "2 \<le> length ?l" "length ?l \<le> 260"
    using x(2) by (simp_all add: requests_upto_def)
  have "client_turns opts ?l c (seed_by_time w) = Inr (c', w')"
    using x(4) conversation_turns [of e opts 260 "[]" "auth_request e' a b" c "seed_by_time w" "[s]" db] by fastforce
  note turns_communicate [OF able_fewer [OF assms(1) l(4)] requests_understood(1) [OF x(3)] l(1)
      requests_understood(2) [OF x(3)] l(2) this]
  then have "client_communicate opts c (w\<lparr>w_recv := map Got (concat (map pieces ?l))\<rparr>) =
      (if r = 0 \<and> ts \<noteq> [] then Inr (0, c', w') else Inl Waiting)"
    using l(3) requests_understood(3) [OF x(3)] by simp
  then show ?thesis
    using x unfolding comes_to_def
    by (intro exI [of _ ?l] exI [of _ c'] exI [of _ w'] exI [of _ s'] exI [of _ db'] conjI exI [of _ ts] exI [of _ r])
      (simp_all add: requests_upto_def)
qed

lemma furnished_able: "able one_of_each 260 sample_ts (seed_by_time (furnished_world\<lparr>w_send := replicate 520 int\<rparr>))"
proof -
  let ?w = "furnished_world\<lparr>w_send := replicate 520 int\<rparr>"
  have "good_surroundings one_of_each ?w" "willing 260 ?w"
    by (simp_all add: good_surroundings_def one_of_each_range furnished_world_def counting_world_def plenty_count
        buffer_size_def willing_def)
  moreover have "io (seed_by_time ?w) = io ?w"
    by simp
  ultimately show ?thesis
    using wf_sample_ts good_surroundings_io [of "seed_by_time ?w" ?w] by (simp add: able_def willing_def io_def)
qed

lemma sample_listening:
  "listening (sample_client WaitAuth [])" "state (sample_client WaitAuth []) = WaitAuth"
  "send_buffer (sample_client WaitAuth []) = []"
  using sample_inv(1) [of "[]" WaitAuth] sample_client_buffer [of "[]" WaitAuth]
  by (simp_all add: state_order listening_def) (simp add: sample_client_def)

lemma env_holding_lucky: "frees_lazily (env_holding 96)" "lucky (env_holding 96)"
  by (simp_all add: frees_lazily_def lucky_def env_holding_def sample_env_def sizeof_ScreenInfoPacket_def)


definition env_overwriting :: env where
  "env_overwriting = sample_env\<lparr>env_freed := (\<lambda>bs. replicate 276 1)\<rparr>"

lemma env_overwriting_overwrites: "overwrites env_overwriting"
  by (auto simp: overwrites_def env_overwriting_def TerInfoResponsePacket_of_def get_bytes_def)


end
