(* ===== verification/Isolation.thy ===== *)
theory Isolation
  imports Transfer_Layer
begin

text \<open>
  Sessions do not disturb each other. They share the database connection, the counter of screens and
  the loop that serves them. As long as the database accepts commands, what a call of the state
  machine returns and what becomes of the session does not depend on the state the database is in;
  so in every round sessions that are served together do what each would do alone, with the exception
  of those behind one that leaves: they are not served before the next round.
\<close>

section \<open>Calls that do not look at the database\<close>

text \<open>
  \<open>blind n h\<close>: the result of \<open>h\<close> is the same for every database with room for \<open>n\<close> commands, and \<open>h\<close>
  uses no more than these.
\<close>

definition blind :: "nat \<Rightarrow> (Database \<Rightarrow> fault + 'a \<times> Database) \<Rightarrow> bool" where
  "blind n h \<longleftrightarrow> (\<exists>r. \<forall>k db. room_for (n + k) db \<longrightarrow>
     (case r of Inl f \<Rightarrow> h db = Inl f | Inr x \<Rightarrow> \<exists>db'. h db = Inr (x, db') \<and> room_for k db'))"

text \<open>The same for calls whose result has two parts.\<close>

definition paired :: "fault + 'a \<times> 'b \<times> Database \<Rightarrow> fault + ('a \<times> 'b) \<times> Database" where
  "paired = map_sum id (\<lambda>(a, b, db). ((a, b), db))"

definition blind2 :: "nat \<Rightarrow> (Database \<Rightarrow> fault + 'a \<times> 'b \<times> Database) \<Rightarrow> bool" where
  "blind2 n h \<longleftrightarrow> blind n (\<lambda>db. paired (h db))"

named_theorems blind_intros \<open>rules for programs that do not look at the database\<close>

lemma blindI:
  assumes "\<And>k db. room_for (n + k) db \<Longrightarrow> \<exists>db'. h db = Inr (x, db') \<and> room_for k db'"
  shows "blind n h"
  unfolding blind_def using assms by (intro exI [of _ "Inr x"]) simp

lemma blind_fault [blind_intros]: "blind n (\<lambda>db. Inl f)"
  unfolding blind_def by (rule exI [of _ "Inl f"]) simp

lemma blind_return [blind_intros]: "blind n (\<lambda>db. Inr (x, db))"
  by (rule blindI) (auto intro: room_fewer)

lemma blind_more:
  assumes "blind m h" "m \<le> n"
  shows "blind n h"
proof -
  obtain r where r: "\<And>k db. room_for (m + k) db \<Longrightarrow>
      case r of Inl f \<Rightarrow> h db = Inl f | Inr x \<Rightarrow> \<exists>db'. h db = Inr (x, db') \<and> room_for k db'"
    using assms(1) unfolding blind_def by blast
  have "case r of Inl f \<Rightarrow> h db = Inl f | Inr x \<Rightarrow> \<exists>db'. h db = Inr (x, db') \<and> room_for k db'"
    if "room_for (n + k) db" for k db
  proof -
    have "m + (n - m + k) = n + k"
      using assms(2) by simp
    then have *: "case r of Inl f \<Rightarrow> h db = Inl f | Inr x \<Rightarrow> \<exists>db'. h db = Inr (x, db') \<and> room_for (n - m + k) db'"
      using r [of "n - m + k" db] that by (simp only:)
    have "room_for (n - m + k) d \<Longrightarrow> room_for k d" for d
      by (erule room_fewer) simp
    with * show ?thesis
      by (cases r) (simp, auto)
  qed
  then show ?thesis
    unfolding blind_def by blast
qed

text \<open>One call after the other. What follows only has to be blind for results that occur.\<close>

lemma blind_bind:
  assumes "blind n h" "\<And>x db db'. room_for n db \<Longrightarrow> h db = Inr (x, db') \<Longrightarrow> blind m (g x)" "n + m \<le> N"
  shows "blind N (\<lambda>db. and_then (h db) (\<lambda>(x, db'). g x db'))"
proof -
  obtain r where r: "\<And>k db. room_for (n + k) db \<Longrightarrow>
      case r of Inl f \<Rightarrow> h db = Inl f | Inr x \<Rightarrow> \<exists>db'. h db = Inr (x, db') \<and> room_for k db'"
    using assms(1) unfolding blind_def by blast
  have "blind (n + m) (\<lambda>db. and_then (h db) (\<lambda>(x, db'). g x db'))"
  proof (cases r)
    case (Inl f)
    then show ?thesis
      using r unfolding blind_def by (intro exI [of _ "Inl f"]) (auto simp: add.assoc)
  next
    case (Inr x)
    show ?thesis
    proof (cases "\<exists>db. room_for n db")
      case True
      then have "blind m (g x)"
        using r [of 0] Inr assms(2) by fastforce
      then obtain q where q: "\<And>k db. room_for (m + k) db \<Longrightarrow>
          case q of Inl f \<Rightarrow> g x db = Inl f | Inr y \<Rightarrow> \<exists>db'. g x db = Inr (y, db') \<and> room_for k db'"
        unfolding blind_def by blast
      have "case q of Inl f \<Rightarrow> and_then (h db) (\<lambda>(x, db'). g x db') = Inl f
          | Inr y \<Rightarrow> \<exists>db'. and_then (h db) (\<lambda>(x, db'). g x db') = Inr (y, db') \<and> room_for k db'"
        if "room_for (n + m + k) db" for k db
        using r [of "m + k" db] q that Inr by (fastforce simp: add.assoc split: sum.splits)
      then show ?thesis
        unfolding blind_def by blast
    next
      case False
      then show ?thesis
        unfolding blind_def using room_fewer [of "n + _"] by (metis add.assoc le_add1)
    qed
  qed
  then show ?thesis
    using assms(3) blind_more by blast
qed

lemma blind_const [blind_intros]:
  assumes "\<And>x. r = Inr x \<Longrightarrow> blind n (H x)"
  shows "blind n (\<lambda>db. and_then r (\<lambda>x. H x db))"
  using assms blind_fault by (cases r) simp_all

lemma blind_if [blind_intros]:
  "(p \<Longrightarrow> blind n a) \<Longrightarrow> (\<not> p \<Longrightarrow> blind n b) \<Longrightarrow> blind n (\<lambda>db. if p then a db else b db)"
  by (cases p) simp_all

lemma blind_execute [blind_intros]: "blind (Suc 0) (execute cmd)"
proof (rule blindI)
  fix k db assume "room_for (Suc 0 + k) db"
  then show "\<exists>db'. execute cmd db = Inr (True, db') \<and> room_for k db'"
    using ready_execute [of k db cmd] room_answered by (auto simp: room_for_def)
qed

lemma blind_exec:
  assumes "blind m g" "Suc m \<le> N"
  shows "blind N (\<lambda>db. and_then (MysqlExecCommand cmd db) g)"
proof -
  have "blind (Suc 0) (\<lambda>db. and_then (MysqlExecCommand cmd db) (\<lambda>db'. Inr ((), db')))"
  proof (rule blindI)
    fix k db assume "room_for (Suc 0 + k) db"
    then show "\<exists>db'. and_then (MysqlExecCommand cmd db) (\<lambda>db'. Inr ((), db')) = Inr ((), db') \<and> room_for k db'"
      using ready_exec(1) [of k db cmd] room_answered by (auto simp: room_for_def)
  qed
  from blind_bind [OF this, of m "\<lambda>_. g" N] assms show ?thesis
    by (simp add: and_then_assoc)
qed

lemma paired_simps:
  "paired (Inl f) = Inl f" "paired (Inr (x, y, db)) = Inr ((x, y), db)"
  "paired (and_then r H) = and_then r (\<lambda>x. paired (H x))"
  "paired (if p then s else t) = (if p then paired s else paired t)"
  by (simp_all add: paired_def and_then_def split: sum.split)

lemma blind2_fault [blind_intros]: "blind2 n (\<lambda>db. Inl f)"
  by (simp add: blind2_def paired_simps blind_fault)

lemma blind2_return [blind_intros]: "blind2 n (\<lambda>db. Inr (x, y, db))"
  by (simp add: blind2_def paired_simps blind_return)

lemma blind2_const [blind_intros]:
  "(\<And>x. r = Inr x \<Longrightarrow> blind2 n (H x)) \<Longrightarrow> blind2 n (\<lambda>db. and_then r (\<lambda>x. H x db))"
  by (simp add: blind2_def paired_simps blind_const)

lemma blind2_if [blind_intros]:
  "(p \<Longrightarrow> blind2 n a) \<Longrightarrow> (\<not> p \<Longrightarrow> blind2 n b) \<Longrightarrow> blind2 n (\<lambda>db. if p then a db else b db)"
  by (cases p) simp_all

lemma blind2_more: "blind2 m h \<Longrightarrow> m \<le> n \<Longrightarrow> blind2 n h"
  unfolding blind2_def by (rule blind_more)

lemma blind2_bind:
  assumes "blind n h" "\<And>x db db'. room_for n db \<Longrightarrow> h db = Inr (x, db') \<Longrightarrow> blind2 m (g x)" "n + m \<le> N"
  shows "blind2 N (\<lambda>db. and_then (h db) (\<lambda>(x, db'). g x db'))"
proof -
  have "blind N (\<lambda>db. and_then (h db) (\<lambda>(x, db'). paired (g x db')))"
    using assms by (intro blind_bind) (auto simp: blind2_def)
  moreover have "paired (and_then r (\<lambda>(x, db'). g x db')) = and_then r (\<lambda>(x, db'). paired (g x db'))" for r
    by (simp add: and_then_def paired_simps split: sum.split)
  ultimately show ?thesis
    by (simp add: blind2_def)
qed

lemma paired_Inr: "paired r = Inr (xy, db) \<longleftrightarrow> r = Inr (fst xy, snd xy, db)"
  by (auto simp: paired_def map_sum_def split: sum.splits)

lemma and_then_paired: "and_then (paired r) (\<lambda>(xy, db). H (fst xy) (snd xy) db) = and_then r (\<lambda>(x, y, db). H x y db)"
  by (auto simp: paired_def and_then_def split: sum.split)

lemma blind_bind2:
  assumes "blind2 n h" "\<And>x y db db'. room_for n db \<Longrightarrow> h db = Inr (x, y, db') \<Longrightarrow> blind m (g x y)" "n + m \<le> N"
  shows "blind N (\<lambda>db. and_then (h db) (\<lambda>(x, y, db'). g x y db'))"
proof -
  have "blind N (\<lambda>db. and_then (paired (h db)) (\<lambda>(xy, db'). g (fst xy) (snd xy) db'))"
    using assms unfolding blind2_def by (intro blind_bind) (auto simp: paired_Inr)
  then show ?thesis
    by (simp add: and_then_paired)
qed

lemma blind2_bind2:
  assumes "blind2 n h" "\<And>x y db db'. room_for n db \<Longrightarrow> h db = Inr (x, y, db') \<Longrightarrow> blind2 m (g x y)" "n + m \<le> N"
  shows "blind2 N (\<lambda>db. and_then (h db) (\<lambda>(x, y, db'). g x y db'))"
proof -
  have "blind N (\<lambda>db. and_then (h db) (\<lambda>(x, y, db'). paired (g x y db')))"
    using assms by (intro blind_bind2) (auto simp: blind2_def)
  moreover have "paired (and_then r (\<lambda>(x, y, db'). g x y db')) = and_then r (\<lambda>(x, y, db'). paired (g x y db'))" for r
    by (simp add: and_then_def paired_simps split: sum.split)
  ultimately show ?thesis
    by (simp add: blind2_def)
qed

text \<open>The same rules, the number of commands running down.\<close>

lemmas blind_step = blind_bind [where N = N and m = "N - n" and n = n for N n]
lemmas blind2_step = blind2_bind [where N = N and m = "N - n" and n = n for N n]
lemmas blind2_step2 = blind2_bind2 [where N = N and m = "N - n" and n = n for N n]

section \<open>The handlers\<close>

lemma blind_OnRecv [blind_intros]:
  "blind (Suc 0) (OnRecvSysInfoResponse packet c)" "blind (Suc 0) (OnRecvConfInfoResponse packet c)"
  "blind (Suc 0) (OnRecvProcInfoResponse packet c)" "blind (Suc 0) (OnRecvEtherInfoResponse packet c)"
  "blind (Suc 0) (UpdateTTYConnected c)"
  unfolding OnRecvSysInfoResponse_def OnRecvConfInfoResponse_def OnRecvProcInfoResponse_def
    OnRecvEtherInfoResponse_def UpdateTTYConnected_def
  by (intro blind_intros)+

lemma blind_OnRecvScreenInfoPacket [blind_intros]: "blind (Suc 0) (OnRecvScreenInfoPacket packet c)"
  unfolding OnRecvScreenInfoPacket_def
proof (rule blind_const)
  fix bs
  let ?h = "\<lambda>db. let gn = global_number db in
      and_then (int_inc gn) (\<lambda>gn1.
      and_then (screen_insert gn (ScreenInfoPacket_of bs) c) (\<lambda>command.
      execute command (db\<lparr>global_number := gn1\<rparr>)))"
  have same: "screen_insert gn p c = Inl f \<longleftrightarrow> screen_insert 0 p c = Inl f" for gn p f
    by (auto simp: screen_insert_def and_then_def Let_def split: sum.splits)
  show "blind (Suc 0) ?h"
  proof (cases "screen_insert 0 (ScreenInfoPacket_of bs) c")
    case (Inl f)
    then have "screen_insert gn (ScreenInfoPacket_of bs) c = Inl f" for gn
      using same by blast
    then have "?h db = Inl f" if "room_for (Suc 0 + k) db" for k db
      using that by (simp add: room_for_def int_inc_def Let_def)
    then show ?thesis
      unfolding blind_def by (intro exI [of _ "Inl f"]) simp
  next
    case (Inr a)
    show ?thesis
    proof (rule blindI)
      fix k db assume room: "room_for (Suc 0 + k) db"
      obtain cmd where cmd: "screen_insert (global_number db) (ScreenInfoPacket_of bs) c = Inr cmd"
        using same Inr by (metis sum.exhaust sum.distinct(1))
      have "ready (Suc k) (db\<lparr>global_number := global_number db + 1\<rparr>)"
        using room by (simp add: room_for_def ready_def)
      from ready_execute [OF this] show "\<exists>db'. ?h db = Inr (True, db') \<and> room_for k db'"
        using room cmd by (auto simp: room_for_def int_inc_def Let_def) (auto simp: answered_def)
    qed
  qed
qed

lemma blind2_OnRecvTermResponse [blind_intros]: "blind2 (Suc 0) (OnRecvTermResponse packet c)"
  unfolding OnRecvTermResponse_def Let_def
  by (rule blind_intros blind2_step | simp)+

lemma blind2_OnRecvIPTermResponse [blind_intros]: "blind2 (Suc 0) (OnRecvIPTermResponse packet c)"
  unfolding OnRecvIPTermResponse_def Let_def
  by (rule blind_intros blind2_step | simp)+

lemma blind2_exec:
  assumes "blind2 (N - 1) g" "0 < N"
  shows "blind2 N (\<lambda>db. and_then (MysqlExecCommand cmd db) g)"
  using blind_exec [of "N - 1" "\<lambda>db. paired (g db)" N cmd] assms by (simp add: blind2_def paired_simps)

lemma blind2_OnRecvAuthResponse [blind_intros]: "blind2 4 (OnRecvAuthResponse packet c)"
  unfolding OnRecvAuthResponse_def Let_def
  by (rule blind2_exec blind_intros blind2_step | simp)+

section \<open>The state machine\<close>

lemma blind2_receive:
  "(\<And>packet c'. blind2 n (\<lambda>db. k db packet c')) \<Longrightarrow> blind2 n (\<lambda>db. receive e types c db (k db))"
  unfolding receive_def by (rule blind2_const) (simp add: case_prod_beta blind_intros)

lemma blind2_got:
  "blind2 (Suc 0) (\<lambda>db. got_sysinfo db packet c)" "blind2 (Suc 0) (\<lambda>db. got_config db packet c)"
  "blind2 (Suc 0) (\<lambda>db. got_proc db packet c)" "blind2 (Suc 0) (\<lambda>db. got_ether db packet c)"
  "blind2 (Suc 0) (\<lambda>db. got_end db packet c)"
  unfolding got_sysinfo_def got_config_def got_proc_def got_ether_def got_end_def Let_def
  by (rule blind_intros blind2_step | simp)+

lemma blind2_got_auth: "blind2 4 (\<lambda>db. got_auth db packet c)"
  unfolding got_auth_def check_auth_def admit_def Let_def case_prod_beta
  by (rule blind_intros blind2_step2 [unfolded case_prod_beta] | simp)+

lemma blind2_got_term: "blind2 (Suc 0) (\<lambda>db. got_term e db packet c)"
  unfolding got_term_def Let_def
  by (rule blind_intros blind2_step2 | simp)+

lemma blind2_got_ipterm: "blind2 (Suc 0) (\<lambda>db. got_ipterm db packet c)"
  unfolding got_ipterm_def Let_def
  by (rule blind_intros blind2_step2 | simp)+

lemma blind2_screen_loop: "blind2 n (screen_loop e i n c)"
proof (induction n arbitrary: i c)
  case (Suc n)
  have "blind2 (Suc n) (\<lambda>db. and_then (OnRecvScreenInfoPacket packet c1 db)
      (\<lambda>(ok, db'). if \<not> ok then Inr (False, c1, db') else screen_loop e (i + 1) n c1 db'))" for packet c1
    by (rule blind2_bind [where m = n]) (rule blind_intros Suc.IH | simp)+
  then show ?case
    by (simp add: blind_intros case_prod_beta)
next
  case 0
  have "screen_loop e i 0 c = (\<lambda>db. Inr (True, c, db))" for i c
    by (simp add: fun_eq_iff)
  then show ?case
    by (simp add: blind2_return)
qed

lemma blind2_on_wait_screens: "blind2 (nat (scr_num c)) (on_wait_screens e c)"
  unfolding on_wait_screens_def Let_def
  by (rule blind2_screen_loop blind_intros blind2_step2 | simp)+

lemma blind2_on_acceptance: "blind2 n (on_acceptance e c)"
  unfolding on_acceptance_def by (intro blind_intros)

lemma blind2_on:
  "blind2 255 (on_acceptance e c)" "blind2 255 (on_wait_auth e c)" "blind2 255 (on_wait_sysinfo e c)"
  "blind2 255 (on_wait_config e c)" "blind2 255 (on_wait_proc e c)" "blind2 255 (on_wait_ether e c)"
  "blind2 255 (on_wait_term e c)" "blind2 255 (on_wait_ipterm e c)" "blind2 255 (on_end e c)"
  unfolding on_wait_auth_def on_wait_sysinfo_def on_wait_config_def on_wait_proc_def on_wait_ether_def
    on_wait_term_def on_wait_ipterm_def on_end_def
  by (rule blind2_on_acceptance blind2_receive blind2_more [OF blind2_got_auth] blind2_more [OF blind2_got(1)]
      blind2_more [OF blind2_got(2)] blind2_more [OF blind2_got(3)] blind2_more [OF blind2_got(4)]
      blind2_more [OF blind2_got(5)] blind2_more [OF blind2_got_term] blind2_more [OF blind2_got_ipterm] | simp)+

text \<open>A call of the state machine does not look at the database; it uses 255 commands at most.\<close>

lemma blind2_fsm:
  assumes "session_inv c"
  shows "blind2 255 (fsm e c)"
proof (cases "state c")
  case WaitScrInfo
  then have "nat (scr_num c) \<le> 255"
    using assms by (simp add: session_inv_def tally_def nat_le_iff)
  moreover have "fsm e c = on_wait_screens e c"
    using WaitScrInfo by (simp add: fsm_def fun_eq_iff)
  ultimately show ?thesis
    using blind2_more [OF blind2_on_wait_screens] by simp
qed (auto simp: fsm_def [abs_def] blind2_on intro!: blind2_return)

section \<open>A round of one session\<close>

lemma blind_finish_serve: "blind n (finish_serve s done rest c)"
proof -
  have eq: "finish_serve s done rest c = (\<lambda>db. if sk_writable s
      then (if fst (try_send (sk_send s) c) = OK then Inr (Kept (snd (try_send (sk_send s) c)), db) else Inl Use_After_Free)
      else Inr (Kept c, db))"
    by (auto simp: finish_serve_def fun_eq_iff split: prod.splits StatusCode.splits)
  show ?thesis
    unfolding eq by (intro blind_intros)
qed

lemma blind_serve:
  assumes "session_inv c"
  shows "blind 255 (serve fsm s done rest c)"
proof (cases "sk_readable s")
  case True
  have "blind 255 (\<lambda>db. and_then (fsm (sk_env s) c1 db) (\<lambda>(ok, c2, db').
      if ok then finish_serve s done rest c2 db' else Inl Use_After_Free))" if "session_inv c1" for c1
    by (rule blind_bind2 [where m = 0, OF blind2_fsm [OF that]]) (auto intro!: blind_if intro: blind_finish_serve blind_fault)
  moreover have "session_inv c1" if "try_recv (sk_recv s) c = Inr (st, c1, rs)" for st c1 rs
    using server.try_recv_good [OF that assms] by simp
  ultimately have "blind 255 (\<lambda>db. and_then (try_recv (sk_recv s) c) (\<lambda>x. case x of (st, c1, rs) \<Rightarrow>
      if st = OK \<and> int (queue_size (recv_buffer c1)) \<ge> uint (current_packet_size (recv_buffer c1))
      then and_then (fsm (sk_env s) c1 db) (\<lambda>(ok, c2, db'). if ok then finish_serve s done rest c2 db' else Inl Use_After_Free)
      else Inr (Dropped, db)))"
    by (intro blind_const) (auto intro!: blind_intros split: prod.split)
  then show ?thesis
    using True unfolding serve_def [abs_def] element_removed and_then_Inl by (simp add: Let_def)
next
  case False
  then have "serve fsm s done rest c = finish_serve s done rest c"
    by (simp add: serve_def fun_eq_iff)
  then show ?thesis
    by (simp add: blind_finish_serve)
qed

lemma blind_nudge:
  assumes "session_inv c"
  shows "blind 510 (nudge fsm envs c)"
proof -
  have call: "blind 255 (\<lambda>db. and_then (fsm e c1 db) (\<lambda>(_, c', db'). Inr (c', db')))" if "session_inv c1" for e c1
    by (rule blind_bind2 [where m = 0, OF blind2_fsm [OF that]]) (simp_all add: blind_return)
  have "blind 510 (\<lambda>db. and_then
      (if state c = Acceptance then and_then (fsm (envs 0) c db) (\<lambda>(_, c', db'). Inr (c', db')) else Inr (c, db))
      (\<lambda>(c1, db1). if is_scr c1 then and_then (fsm (envs 1) c1 db1) (\<lambda>(_, c', db'). Inr (c', db')) else Inr (c1, db1)))"
  proof (rule blind_bind [where n = 255 and m = 255])
    show "blind 255 (\<lambda>db. if state c = Acceptance then and_then (fsm (envs 0) c db) (\<lambda>(_, c', db'). Inr (c', db')) else Inr (c, db))"
      using call [OF assms] by (intro blind_if) (auto intro: blind_return)
  next
    fix c1 db db'
    assume "(if state c = Acceptance then and_then (fsm (envs 0) c db) (\<lambda>(_, c', db'). Inr (c', db')) else Inr (c, db)) = Inr (c1, db')"
    then have "session_inv c1"
      using assms fsm_session_inv by (auto simp: and_then_eq_Inr_iff split: if_splits)
    then show "blind 255 (\<lambda>db1. if is_scr c1 then and_then (fsm (envs 1) c1 db1) (\<lambda>(_, c', db'). Inr (c', db')) else Inr (c1, db1))"
      using call by (intro blind_if) (auto intro: blind_return)
  qed simp
  then show ?thesis
    by (simp add: nudge_def [abs_def])
qed

section \<open>Sessions served together\<close>

lemma blind_transfer:
  assumes "blind n h" "room_for n d" "h d = Inr (x, d')" "room_for (n + k) db"
  obtains db' where "h db = Inr (x, db')" "room_for k db'"
proof -
  obtain r where r: "\<And>k db. room_for (n + k) db \<Longrightarrow>
      case r of Inl f \<Rightarrow> h db = Inl f | Inr x \<Rightarrow> \<exists>db'. h db = Inr (x, db') \<and> room_for k db'"
    using assms(1) unfolding blind_def by blast
  have "r = Inr x"
    using r [of 0 d] assms(2,3) by (auto split: sum.splits)
  then show thesis
    using r [OF assms(4)] that by auto
qed

lemma nudge_all_isolated:
  assumes "list_all2 (\<lambda>c c1. session_inv c \<and> (\<exists>d d'. room_for 510 d \<and> nudge fsm (envs (socket_fd c)) c d = Inr (c1, d'))) cs cs1"
    and "room_for (510 * length cs + k) db"
  shows "\<exists>db'. nudge_all fsm envs cs db = Inr (cs1, db') \<and> room_for k db'"
  using assms
proof (induction cs cs1 arbitrary: db rule: list_all2_induct)
  case (Cons c cs c1 cs1)
  then obtain d d' where d: "session_inv c" "room_for 510 d" "nudge fsm (envs (socket_fd c)) c d = Inr (c1, d')"
    by blast
  have "room_for (510 + (510 * length cs + k)) db"
    using Cons.prems by (simp add: add.assoc)
  from blind_transfer [OF blind_nudge [OF d(1)] d(2,3) this] obtain db1 where
    "nudge fsm (envs (socket_fd c)) c db = Inr (c1, db1)" "room_for (510 * length cs + k) db1" .
  then show ?case
    using Cons.IH [of db1] by auto
qed simp

text \<open>What \<^verbatim>\<open>select\<close> is told to watch for a session does not depend on the others.\<close>

lemma watched_alone:
  assumes "c \<in> set cs" "distinct (map socket_fd cs)"
  shows "watched cs io (socket_fd c) = watched [c] io (socket_fd c)"
proof -
  have "socket_fd c' = socket_fd c \<Longrightarrow> c' \<in> set cs \<Longrightarrow> c' = c" for c'
    using assms by (auto simp: distinct_map dest: inj_onD)
  then have "socket_fd c \<in> set (map socket_fd (filter P cs)) \<longleftrightarrow> P c" for P
    using assms(1) by force
  then show ?thesis
    using assms(1) by (simp add: watched_def reset_rw_fd_sets_def Let_def del: set_map set_filter) (simp add: assms(1))
qed

text \<open>The round of a session that is alone, in its two halves.\<close>

definition first_half :: "round_input \<Rightarrow> Client \<Rightarrow> Database \<Rightarrow> fault + served \<times> Database" where
  "first_half inp c db =
     (if rd_rv inp = - 1 \<or> rd_rv inp = 0 then Inr (Kept c, db)
      else serve fsm (watched [c] (rd_io inp) (socket_fd c)) [] [] c db)"

lemma round_alone:
  assumes "rd_accept inp = None"
  shows "select_round fsm inp [c] db = and_then (first_half inp c db) (\<lambda>(r, db1). case r of
    Dropped \<Rightarrow> Inr ([], db1)
  | Kept c1 \<Rightarrow> and_then (nudge fsm (rd_envs inp (socket_fd c1)) c1 db1) (\<lambda>(c2, db2). Inr ([c2], db2)))"
  using assms
  by (auto simp: select_round_def first_half_def and_then_def remove_client_def split: sum.split served.split)

lemma round_alone_length:
  assumes "select_round fsm inp [c] db = Inr (cs', db')" "rd_accept inp = None"
  shows "length cs' \<le> 1"
proof -
  obtain r db1 where "(case r of Dropped \<Rightarrow> Inr ([], db1) | Kept c1 \<Rightarrow>
      and_then (nudge fsm (rd_envs inp (socket_fd c1)) c1 db1) (\<lambda>(c2, db2). Inr ([c2], db2))) = Inr (cs', db')"
    using assms(1) by (auto simp: round_alone [OF assms(2)] and_then_eq_Inr_iff)
  then show ?thesis
    by (cases r) (auto simp: and_then_eq_Inr_iff)
qed

lemma first_half_keeps:
  assumes "first_half inp c db = Inr (Kept c1, db1)" "session_inv c"
  shows "session_inv c1" "socket_fd c1 = socket_fd c"
  using assms server.serve_good by (fastforce simp: first_half_def split: if_splits)+

lemma blind_first_half: "session_inv c \<Longrightarrow> blind 255 (first_half inp c)"
  unfolding first_half_def using blind_serve by (intro blind_if) (auto intro: blind_return)

text \<open>
  What a session does in a round of its own, with some database that has room for 765 commands:
  it becomes \<open>c'\<close>, or it leaves (its connection was closed, or its packet is not complete).
\<close>

definition alone :: "round_input \<Rightarrow> Client \<Rightarrow> Client \<Rightarrow> bool" where
  "alone inp c c' \<longleftrightarrow> session_inv c \<and> (\<exists>d d'. room_for 765 d \<and> select_round fsm inp [c] d = Inr ([c'], d'))"

definition leaves :: "round_input \<Rightarrow> Client \<Rightarrow> bool" where
  "leaves inp c \<longleftrightarrow> session_inv c \<and> (\<exists>d d'. room_for 765 d \<and> select_round fsm inp [c] d = Inr ([], d'))"

text \<open>
  The two halves for one session: \<open>stays_as\<close> and \<open>goes\<close> are what the first loop can make of it,
  \<open>nudged_to\<close> what the second does.
\<close>

definition stays_as :: "round_input \<Rightarrow> Client \<Rightarrow> Client \<Rightarrow> bool" where
  "stays_as inp c c1 \<longleftrightarrow> session_inv c \<and> (\<exists>d d1. room_for 255 d \<and> first_half inp c d = Inr (Kept c1, d1))"

definition goes :: "round_input \<Rightarrow> Client \<Rightarrow> bool" where
  "goes inp c \<longleftrightarrow> session_inv c \<and> (\<exists>d d1. room_for 255 d \<and> first_half inp c d = Inr (Dropped, d1))"

definition nudged_to :: "round_input \<Rightarrow> Client \<Rightarrow> Client \<Rightarrow> bool" where
  "nudged_to inp c1 c' \<longleftrightarrow> session_inv c1 \<and>
     (\<exists>d d1. room_for 510 d \<and> nudge fsm (rd_envs inp (socket_fd c1)) c1 d = Inr (c', d1))"

lemma first_half_accept [simp]:
  "first_half (inp\<lparr>rd_accept := a\<rparr>) c db = first_half inp c db"
  "first_half (inp\<lparr>rd_accept := a, rd_rv := 0\<rparr>) c db = Inr (Kept c, db)"
  by (auto simp: first_half_def)

lemma stays_as_fd: "stays_as inp c c1 \<Longrightarrow> socket_fd c1 = socket_fd c \<and> session_inv c1"
  using first_half_keeps unfolding stays_as_def by blast

lemma nudged_to_fd: "nudged_to inp c1 c' \<Longrightarrow> socket_fd c' = socket_fd c1 \<and> session_inv c'"
  using server.nudge_good unfolding nudged_to_def by blast

lemma alone_halves:
  assumes "alone inp c c'" "rd_accept inp = None"
  obtains c1 where "stays_as inp c c1" "nudged_to inp c1 c'"
proof -
  obtain d d2 where c: "session_inv c" "room_for (255 + 510) d" "select_round fsm inp [c] d = Inr ([c'], d2)"
    using assms(1) by (auto simp: alone_def)
  obtain r d1 where r: "first_half inp c d = Inr (r, d1)" "(case r of Dropped \<Rightarrow> Inr ([], d1)
      | Kept c1 \<Rightarrow> and_then (nudge fsm (rd_envs inp (socket_fd c1)) c1 d1) (\<lambda>(c2, db2). Inr ([c2], db2))) = Inr ([c'], d2)"
    using c(3) assms(2) by (auto simp: round_alone and_then_eq_Inr_iff)
  then obtain c1 where h: "first_half inp c d = Inr (Kept c1, d1)"
      "nudge fsm (rd_envs inp (socket_fd c1)) c1 d1 = Inr (c', d2)"
    by (cases r) (auto simp: and_then_eq_Inr_iff)
  have d: "room_for 255 d"
    using c(2) room_fewer by fastforce
  have "room_for 510 d1"
    using blind_transfer [OF blind_first_half [OF c(1)] d h(1) c(2)] h(1) by auto
  moreover have "session_inv c1"
    using first_half_keeps [OF h(1) c(1)] by simp
  ultimately show thesis
    using c(1) d h by (intro that [of c1]) (auto simp: stays_as_def nudged_to_def)
qed

lemma leaves_goes:
  assumes "leaves inp c" "rd_accept inp = None"
  shows "goes inp c"
proof -
  obtain d d2 where c: "session_inv c" "room_for 765 d" "select_round fsm inp [c] d = Inr ([], d2)"
    using assms(1) by (auto simp: leaves_def)
  obtain r d1 where r: "first_half inp c d = Inr (r, d1)" "(case r of Dropped \<Rightarrow> Inr ([], d1)
      | Kept c1 \<Rightarrow> and_then (nudge fsm (rd_envs inp (socket_fd c1)) c1 d1) (\<lambda>(c2, db2). Inr ([c2], db2))) = Inr ([], d2)"
    using c(3) assms(2) by (auto simp: round_alone and_then_eq_Inr_iff)
  moreover from this have "r = Dropped"
    by (cases r) (auto simp: and_then_eq_Inr_iff)
  moreover have "room_for 255 d"
    using c(2) by (rule room_fewer) simp
  ultimately show ?thesis
    using c(1) by (auto simp: goes_def)
qed

lemma alone_fd:
  assumes "alone inp c c'" "rd_accept inp = None"
  shows "socket_fd c' = socket_fd c" "session_inv c'"
proof -
  obtain c1 where "stays_as inp c c1" "nudged_to inp c1 c'"
    by (rule alone_halves [OF assms])
  then show "socket_fd c' = socket_fd c" "session_inv c'"
    using stays_as_fd nudged_to_fd by metis+
qed

section \<open>The first loop\<close>

text \<open>
  What the first loop makes of the list when each session meets what it would meet alone. A session
  that goes ends the loop: the sessions after it are not looked at in this round.
\<close>

inductive served_as :: "round_input \<Rightarrow> Client list \<Rightarrow> Client list \<Rightarrow> bool" for inp where
  served_nil: "served_as inp [] []"
| served_stays: "stays_as inp c c1 \<Longrightarrow> served_as inp cs cs1 \<Longrightarrow> served_as inp (c # cs) (c1 # cs1)"
| served_goes: "goes inp c \<Longrightarrow> served_as inp (c # cs) cs"

lemma served_as_subseq: "served_as inp cs cs1 \<Longrightarrow> subseq (map socket_fd cs1) (map socket_fd cs)"
  by (induction rule: served_as.induct) (auto dest: stays_as_fd)

lemma remove_only:
  assumes "distinct (map socket_fd (done @ c # cs))"
  shows "remove_client (socket_fd c) (done @ c # cs) = done @ cs"
proof -
  have "filter (\<lambda>c'. socket_fd c' \<noteq> socket_fd c) xs = xs" if "socket_fd c \<notin> socket_fd ` set xs" for xs
    using that by (intro filter_True) (metis imageI)
  from this [of "done"] this [of cs] show ?thesis
    using assms by (simp add: remove_client_def)
qed

lemma serve_all_served_as:
  assumes "served_as inp cs cs1" "distinct (map socket_fd (done @ cs))" "rd_rv inp \<notin> {-1, 0}"
    and "\<And>c. c \<in> set cs \<Longrightarrow> io (socket_fd c) = watched [c] (rd_io inp) (socket_fd c)" "room_for (255 * length cs + k) db"
  shows "\<exists>db'. serve_all fsm io done cs db = Inr (done @ cs1, db') \<and> room_for k db'"
  using assms
proof (induction arbitrary: "done" db rule: served_as.induct)
  case (served_stays c c1 cs cs1)
  then obtain d d' where d: "session_inv c" "room_for 255 d"
      "serve fsm (io (socket_fd c)) done cs c d = Inr (Kept c1, d')"
    by (auto simp: stays_as_def first_half_def serve_anywhere [of _ _ "done"])
  have "room_for (255 + (255 * length cs + k)) db"
    using served_stays.prems(4) by (simp add: add.assoc)
  from blind_transfer [OF blind_serve [OF d(1)] d(2,3) this] obtain db1 where
    "serve fsm (io (socket_fd c)) done cs c db = Inr (Kept c1, db1)" "room_for (255 * length cs + k) db1" .
  moreover have "distinct (map socket_fd ((done @ [c1]) @ cs))"
    using served_stays.prems(1) stays_as_fd [OF served_stays.hyps(1)] by simp
  ultimately show ?case
    using served_stays.IH [of "done @ [c1]" db1] served_stays.prems(2,3) by simp
next
  case (served_goes c cs)
  then obtain d d' where d: "session_inv c" "room_for 255 d"
      "serve fsm (io (socket_fd c)) done cs c d = Inr (Dropped, d')"
    by (auto simp: goes_def first_half_def serve_anywhere [of _ _ "done"])
  have "room_for (255 + (255 * length cs + k)) db"
    using served_goes.prems(4) by (simp add: add.assoc)
  from blind_transfer [OF blind_serve [OF d(1)] d(2,3) this] obtain db1 where
    "serve fsm (io (socket_fd c)) done cs c db = Inr (Dropped, db1)" "room_for (255 * length cs + k) db1" .
  moreover have "room_for k db1"
    by (rule room_fewer [OF \<open>room_for (255 * length cs + k) db1\<close>]) simp
  ultimately show ?case
    using remove_only [OF served_goes.prems(1)] by simp
qed simp

lemma served_as_unready:
  assumes "served_as inp cs cs1" "rd_rv inp \<in> {-1, 0}"
  shows "cs1 = cs"
  using assms by (induction rule: served_as.induct) (auto simp: stays_as_def goes_def first_half_def)

section \<open>A round of many sessions\<close>

text \<open>
  What becomes of the sessions when each does what it does in a round of its own; after one that
  leaves, the others have a round in which \<^verbatim>\<open>select\<close> reports nothing. What arrives is what a round without
  sessions would leave.
\<close>

inductive apart :: "round_input \<Rightarrow> Client list \<Rightarrow> Client list \<Rightarrow> bool" for inp where
  apart_nil: "apart inp [] []"
| apart_stays: "alone (inp\<lparr>rd_accept := None\<rparr>) c c' \<Longrightarrow> apart inp cs cs' \<Longrightarrow> apart inp (c # cs) (c' # cs')"
| apart_leaves: "leaves (inp\<lparr>rd_accept := None\<rparr>) c \<Longrightarrow>
    list_all2 (alone (inp\<lparr>rd_accept := None, rd_rv := 0\<rparr>)) cs cs' \<Longrightarrow> apart inp (c # cs) cs'"

definition arrives :: "round_input \<Rightarrow> Client list \<Rightarrow> bool" where
  "arrives inp new \<longleftrightarrow> (\<exists>d d'. room_for (510 * length new) d \<and> select_round fsm inp [] d = Inr (new, d'))"

definition new_fds :: "round_input \<Rightarrow> int list" where
  "new_fds inp = (case rd_accept inp of Some (Some r) \<Rightarrow> [ac_fd r] | _ \<Rightarrow> [])"

text \<open>The list of sessions that arrive before they are greeted.\<close>

definition arrived :: "round_input \<Rightarrow> Client list" where
  "arrived inp = (if rd_rv inp = -1 \<or> rd_rv inp = 0 then []
     else case rd_accept inp of None \<Rightarrow> [] | Some a \<Rightarrow> accept_new_client a [])"

lemma arrived_inv: "c \<in> set (arrived inp) \<Longrightarrow> session_inv c"
  using server.good_new by (auto simp: arrived_def accept_new_client_def split: if_splits option.splits)

lemma select_round_halves:
  "select_round fsm inp cs db =
     and_then (if rd_rv inp = -1 \<or> rd_rv inp = 0 then Inr (cs, db) else serve_all fsm (watched cs (rd_io inp)) [] cs db)
       (\<lambda>(cs1, db1). nudge_all fsm (rd_envs inp) (cs1 @ arrived inp) db1)"
  by (auto simp: select_round_def arrived_def and_then_def accept_new_client_def split: sum.split option.split)

lemma nudge_all_nudged:
  "nudge_all fsm (rd_envs inp) cs d = Inr (cs', d') \<Longrightarrow> \<forall>c \<in> set cs. session_inv c \<Longrightarrow> room_for (510 * length cs) d \<Longrightarrow>
     list_all2 (nudged_to inp) cs cs'"
proof (induction cs arbitrary: d cs')
  case (Cons c cs)
  obtain c' d1 cs1 where h: "nudge fsm (rd_envs inp (socket_fd c)) c d = Inr (c', d1)"
      "nudge_all fsm (rd_envs inp) cs d1 = Inr (cs1, d')" "cs' = c' # cs1"
    using Cons.prems(1) by (auto simp: and_then_eq_Inr_iff)
  have room: "room_for (510 + 510 * length cs) d" "room_for 510 d"
    using Cons.prems(3) room_fewer [OF Cons.prems(3), of 510] by simp_all
  then have "room_for (510 * length cs) d1"
    using blind_transfer [OF blind_nudge room(2) h(1) room(1)] Cons.prems(2) h(1) by auto
  then show ?case
    using Cons.IH [OF h(2)] Cons.prems(2) h room by (auto simp: nudged_to_def)
qed simp

lemma nudge_all_length: "nudge_all step envs cs d = Inr (cs', d') \<Longrightarrow> length cs' = length cs"
  by (induction cs arbitrary: d cs') (auto simp: and_then_eq_Inr_iff)

lemma arrives_nudged:
  assumes "arrives inp new"
  shows "list_all2 (nudged_to inp) (arrived inp) new"
proof -
  obtain d d' where d: "room_for (510 * length new) d" "nudge_all fsm (rd_envs inp) (arrived inp) d = Inr (new, d')"
    using assms by (auto simp: arrives_def select_round_halves and_then_def split: if_splits)
  then show ?thesis
    using nudge_all_nudged [OF d(2)] nudge_all_length [OF d(2)] arrived_inv by auto
qed

lemma arrives_fds:
  assumes "arrives inp new"
  shows "subseq (map socket_fd new) (new_fds inp)"
proof -
  have "map socket_fd new = map socket_fd (arrived inp)"
    using arrives_nudged [OF assms] by (induction rule: list_all2_induct) (auto dest: nudged_to_fd)
  then show ?thesis
    by (auto simp: arrived_def new_fds_def accept_new_client_def new_client_def split: option.split)
qed

lemma apart_halves:
  "apart inp cs cs' \<Longrightarrow> \<exists>cs1. served_as inp cs cs1 \<and> list_all2 (nudged_to inp) cs1 cs'"
proof (induction rule: apart.induct)
  case (apart_stays c c' cs cs')
  let ?inp = "inp\<lparr>rd_accept := None\<rparr>"
  obtain c1 where "stays_as ?inp c c1" "nudged_to ?inp c1 c'"
    by (rule alone_halves [OF apart_stays.hyps(1)]) simp
  then have "stays_as inp c c1" "nudged_to inp c1 c'"
    by (simp_all add: stays_as_def nudged_to_def)
  with apart_stays.IH show ?case
    by (auto intro: served_stays)
next
  case (apart_leaves c cs cs')
  let ?inp = "inp\<lparr>rd_accept := None\<rparr>"
  have "goes ?inp c"
    by (rule leaves_goes [OF apart_leaves(1)]) simp
  then have "goes inp c"
    by (simp add: goes_def)
  moreover have "nudged_to inp c1 c'" if a: "alone (?inp\<lparr>rd_rv := 0\<rparr>) c1 c'" for c1 c'
  proof -
    obtain c2 where "stays_as (?inp\<lparr>rd_rv := 0\<rparr>) c1 c2" "nudged_to (?inp\<lparr>rd_rv := 0\<rparr>) c2 c'"
      by (rule alone_halves [OF a]) simp
    then show ?thesis
      by (auto simp: stays_as_def nudged_to_def)
  qed
  then have "list_all2 (nudged_to inp) cs cs'"
    using apart_leaves(2) by (auto elim: list_all2_mono)
  ultimately show ?case
    by (auto intro: served_goes)
qed (auto intro: served_nil)

lemma apart_subseq:
  assumes "apart inp cs cs'"
  shows "subseq (map socket_fd cs') (map socket_fd cs)"
proof -
  obtain cs1 where cs1: "served_as inp cs cs1" "list_all2 (nudged_to inp) cs1 cs'"
    using apart_halves [OF assms] by blast
  from cs1(2) have "map socket_fd cs' = map socket_fd cs1"
    by (induction rule: list_all2_induct) (auto dest: nudged_to_fd)
  with served_as_subseq [OF cs1(1)] show ?thesis
    by simp
qed

lemma round_apart:
  assumes "apart inp cs cs'" "arrives inp new" "distinct (map socket_fd cs)"
    and "room_for (765 * length cs + 510 * length new + k) db"
  shows "\<exists>db'. select_round fsm inp cs db = Inr (cs' @ new, db') \<and> room_for k db'"
proof -
  obtain cs1 where cs1: "served_as inp cs cs1" "list_all2 (nudged_to inp) cs1 cs'"
    using apart_halves [OF assms(1)] by blast
  let ?k = "510 * length cs + (510 * length new + k)"
  have room: "room_for (255 * length cs + ?k) db"
    using assms(4) by (simp add: algebra_simps)
  obtain db1 where 1: "(if rd_rv inp = - 1 \<or> rd_rv inp = 0 then Inr (cs, db)
      else serve_all fsm (watched cs (rd_io inp)) [] cs db) = Inr (cs1, db1)" "room_for ?k db1"
  proof (cases "rd_rv inp \<in> {-1, 0}")
    case True
    then show thesis
      using that [of db] served_as_unready [OF cs1(1)] room_fewer [OF room, of ?k] by simp
  next
    case False
    have "\<exists>db1. serve_all fsm (watched cs (rd_io inp)) [] cs db = Inr ([] @ cs1, db1) \<and> room_for ?k db1"
      using cs1(1) False watched_alone [OF _ assms(3)] assms(3) room by (intro serve_all_served_as [of inp]) simp_all
    then show thesis
      using that False by auto
  qed
  have len: "length cs1 \<le> length cs" "length (arrived inp) = length new"
    using list_emb_length [OF served_as_subseq [OF cs1(1)]] list_all2_lengthD [OF arrives_nudged [OF assms(2)]] by simp_all
  have "list_all2 (nudged_to inp) (cs1 @ arrived inp) (cs' @ new)"
    using cs1(2) arrives_nudged [OF assms(2)] by (rule list_all2_appendI)
  moreover have "room_for (510 * length (cs1 @ arrived inp) + k) db1"
    by (rule room_fewer [OF 1(2)]) (use len in simp)
  ultimately show ?thesis
    using nudge_all_isolated [of "rd_envs inp" "cs1 @ arrived inp" "cs' @ new" k db1] 1(1)
    by (simp add: select_round_halves nudged_to_def [abs_def])
qed

lemma round_isolated:
  assumes "list_all2 (alone inp) cs cs'" "rd_accept inp = None" "distinct (map socket_fd cs)"
    and "room_for (765 * length cs + k) db"
  shows "\<exists>db'. select_round fsm inp cs db = Inr (cs', db') \<and> room_for k db'"
proof -
  have same: "inp\<lparr>rd_accept := None\<rparr> = inp"
    using assms(2) by simp
  have "apart inp cs cs'"
    using assms(1) by (induction rule: list_all2_induct) (auto simp: same intro: apart_nil apart_stays)
  moreover have "arrives inp []"
    using assms(2) room_fewer [OF assms(4), of 0] by (auto simp: arrives_def select_round_halves arrived_def)
  ultimately show ?thesis
    using round_apart [of inp cs cs' "[]"] assms(3,4) by simp
qed

section \<open>Any number of rounds\<close>

fun apart_loop :: "round_input list \<Rightarrow> Client list \<Rightarrow> Client list \<Rightarrow> bool" where
  "apart_loop [] cs cs' \<longleftrightarrow> cs' = cs"
| "apart_loop (inp # inps) cs cs' \<longleftrightarrow>
     (\<exists>cs1 new. apart inp cs cs1 \<and> arrives inp new \<and> apart_loop inps (cs1 @ new) cs')"

lemma select_loop_Cons:
  "select_loop (inp # inps) cs db = and_then (select_round fsm inp cs db) (\<lambda>(cs1, db1). select_loop inps cs1 db1)"
proof -
  have "foldl (\<lambda>r inp. and_then r (\<lambda>(cs', db'). select_round fsm inp cs' db')) (Inl f) inps = Inl f" for f
    by (induction inps) simp_all
  then show ?thesis
    by (cases "select_round fsm inp cs db") (auto simp: select_loop_def)
qed

text \<open>
  C7: sessions that are served together do, in every round, exactly what each of them does
  in a round of its own, as long as none of these ends in a fault and the database accepts commands: it
  does not matter how many others there are, what they are sent, what they have written into the
  database before, and who connects. There is one exception, which the relation \<open>apart\<close> spells
  out: a session that leaves ends the loop over the ready descriptors, and those behind it in
  the list have a round in which nothing is ready for them. (A session that would be refused on its own
  faults on its own, and is not among those considered here: it ends the whole process.)
\<close>

theorem sessions_isolated:
  assumes "apart_loop inps cs cs'" "distinct (map socket_fd cs @ concat (map new_fds inps))"
    and "room_for (765 * length inps * (length cs + length inps)) db"
  shows "\<exists>db'. select_loop inps cs db = Inr (cs', db')"
  using assms
proof (induction inps arbitrary: cs db)
  case Nil
  then show ?case
    by (simp add: select_loop_def)
next
  case (Cons inp inps)
  obtain cs1 new where n: "apart inp cs cs1" "arrives inp new" "apart_loop inps (cs1 @ new) cs'"
    using Cons.prems(1) by auto
  have sub: "subseq (map socket_fd cs1 @ map socket_fd new) (map socket_fd cs @ new_fds inp)"
    using list_emb_append_mono [OF apart_subseq [OF n(1)] arrives_fds [OF n(2)]] .
  have len: "length cs1 \<le> length cs" "length new \<le> 1"
    using list_emb_length [OF apart_subseq [OF n(1)]] list_emb_length [OF arrives_fds [OF n(2)]]
    by (auto simp: new_fds_def split: option.splits)
  let ?k = "765 * length inps * (length (cs1 @ new) + length inps)"
  have "length inps * (length (cs1 @ new) + length inps) \<le> length inps * (length cs + Suc (length inps))"
    using len by (intro mult_le_mono2) simp
  then have "765 * length cs + 510 * length new + ?k \<le> 765 * length (inp # inps) * (length cs + length (inp # inps))"
    using len by (simp add: algebra_simps)
  from room_fewer [OF Cons.prems(3) this] obtain db1 where
    db1: "select_round fsm inp cs db = Inr (cs1 @ new, db1)" "room_for ?k db1"
    using round_apart [OF n(1,2), of ?k db] Cons.prems(2) by auto
  have "distinct ((map socket_fd cs @ new_fds inp) @ concat (map new_fds inps))"
    using Cons.prems(2) by simp
  then have "distinct ((map socket_fd cs1 @ map socket_fd new) @ concat (map new_fds inps))"
    using subseq_sub [OF sub] unfolding distinct_append [where ys = "concat _"] by blast
  then have "distinct (map socket_fd (cs1 @ new) @ concat (map new_fds inps))"
    by simp
  from Cons.IH [OF n(3) this db1(2)] db1(1) show ?case
    by (auto simp: select_loop_Cons)
qed

text \<open>Two sessions: the connection of the first is closed, the second is greeted all the same.\<close>

definition sample_closing :: round_input where
  "sample_closing = sample_idle\<lparr>rd_rv := 1, rd_io := (\<lambda>fd. (rd_io sample_idle fd)\<lparr>sk_readable := fd = 5, sk_recv := [Got []]\<rparr>)\<rparr>"

lemma idle_greets:
  assumes "rd_rv inp = 0" "rd_envs inp = (\<lambda>_ _. sample_env)"
  shows "select_round fsm inp [sample_fresh\<lparr>socket_fd := k\<rparr>] db = Inr ([sample_asked\<lparr>socket_fd := k\<rparr>], db)"
proof -
  have s: "state (sample_fresh\<lparr>socket_fd := k\<rparr>) = Acceptance" "\<not> is_scr (sample_asked\<lparr>socket_fd := k\<rparr>)"
    by (simp_all add: sample_asked_def sample_fresh_def push_message_def new_client_def)
  then have "fsm sample_env (sample_fresh\<lparr>socket_fd := k\<rparr>) db = Inr (True, sample_asked\<lparr>socket_fd := k\<rparr>, db)"
    by (simp add: fsm_def on_acceptance_def opt_sample sample_asked_def push_message_def)
  with s show ?thesis
    by (simp add: select_round_def assms nudge_def)
qed

lemma closed_leaves:
  "select_round fsm (sample_closing\<lparr>rd_accept := None\<rparr>) [(sample_client WaitSysInfo [])\<lparr>socket_fd := 5\<rparr>] db = Inr ([], db)"
proof -
  let ?c = "(sample_client WaitSysInfo [])\<lparr>socket_fd := 5\<rparr>"
  have "queue_size (recv_buffer ?c) = 0" "get_num_free_bytes (recv_buffer ?c) = 102400"
    using sample_empty(2,3) by simp_all
  then show ?thesis
    by (simp add: select_round_def sample_closing_def sample_idle_def watched_def reset_rw_fd_sets_def serve_def
        try_recv_def kHeaderSize_def remove_client_def)
qed

theorem sessions_isolated_witness:
  "\<exists>db'. select_loop [sample_closing] [(sample_client WaitSysInfo [])\<lparr>socket_fd := 5\<rparr>, sample_fresh\<lparr>socket_fd := 6\<rparr>]
     (sample_db 2295) = Inr ([sample_asked\<lparr>socket_fd := 6\<rparr>], db')"
proof -
  have "session_inv sample_fresh"
    unfolding sample_fresh_def by (rule session_inv_new) (simp_all add: kRecvBufferSize_def kMaxPacketLength_def)
  then have inv: "session_inv (sample_fresh\<lparr>socket_fd := 6\<rparr>)" "session_inv ((sample_client WaitSysInfo [])\<lparr>socket_fd := 5\<rparr>)"
    using sample_empty(1) by (simp_all add: session_inv_def tally_def)
  have room: "room_for n (sample_db n)" if "n < 3000" for n
    using that by (simp add: room_for_def) (simp add: sample_db_def)
  have "leaves (sample_closing\<lparr>rd_accept := None\<rparr>) ((sample_client WaitSysInfo [])\<lparr>socket_fd := 5\<rparr>)"
    using inv(2) room [of 765] closed_leaves by (auto simp: leaves_def)
  moreover have "alone (sample_closing\<lparr>rd_accept := None, rd_rv := 0\<rparr>) (sample_fresh\<lparr>socket_fd := 6\<rparr>)
      (sample_asked\<lparr>socket_fd := 6\<rparr>)"
    using inv(1) room [of 765] idle_greets [of "sample_closing\<lparr>rd_accept := None, rd_rv := 0\<rparr>"]
    by (auto simp: alone_def sample_closing_def sample_idle_def)
  ultimately have "apart sample_closing [(sample_client WaitSysInfo [])\<lparr>socket_fd := 5\<rparr>, sample_fresh\<lparr>socket_fd := 6\<rparr>]
      [sample_asked\<lparr>socket_fd := 6\<rparr>]"
    by (auto intro: apart_leaves)
  moreover have "arrives sample_closing []"
    using room [of 0] by (auto simp: arrives_def select_round_def sample_closing_def sample_idle_def)
  ultimately have "apart_loop [sample_closing] [(sample_client WaitSysInfo [])\<lparr>socket_fd := 5\<rparr>, sample_fresh\<lparr>socket_fd := 6\<rparr>]
      [sample_asked\<lparr>socket_fd := 6\<rparr>]"
    by fastforce
  then show ?thesis
    using room [of 2295] by (intro sessions_isolated) (simp_all add: new_fds_def sample_closing_def sample_idle_def)
qed

end
