(* ===== verification/Parse_Arguments.thy ===== *)
theory Parse_Arguments
  imports Presentation Client_Pack
begin

text \<open>
  The option files of the two programs: \<^verbatim>\<open>parse_arguments\<close> of \<^verbatim>\<open>server/src/parse_arguments.cpp\<close>
  and of \<^verbatim>\<open>client/parse_arguments.cpp\<close>, with their defaults. A file is a text; \<open>opts k\<close> is what
  \<^verbatim>\<open>opts.find(k)\<close> finds. The server's sources, the client's sources and the option files are in
  GBK, but the table of the client's defaults is in UTF-8.
\<close>

text \<open>\<^verbatim>\<open>opt.at(key)\<close>\<close>

definition option_at :: "Options \<Rightarrow> string \<Rightarrow> fault + string" where
  "option_at opts key = (case opts key of None \<Rightarrow> Inl Missing_Key | Some v \<Rightarrow> Inr v)"

section \<open>Lines and words\<close>

text \<open>What the calls of \<^verbatim>\<open>getline\<close> return, up to the one that meets the end of the file.\<close>

fun lines_of :: "string \<Rightarrow> string list" where
  "lines_of [] = [[]]"
| "lines_of (c # cs) =
     (if c = CHR 0x0A then [] # lines_of cs
      else (case lines_of cs of [] \<Rightarrow> [[c]] | l # ls \<Rightarrow> (c # l) # ls))"

text \<open>\<^verbatim>\<open>iss >> word\<close>: the next word, empty if there is none, and what is left.\<close>

definition next_word :: "string \<Rightarrow> string \<times> string" where
  "next_word s = (let s1 = dropWhile is_space s
     in (takeWhile (\<lambda>c. \<not> is_space c) s1, dropWhile (\<lambda>c. \<not> is_space c) s1))"

definition server_is_empty_or_comment :: "string \<Rightarrow> bool" where
  "server_is_empty_or_comment s \<longleftrightarrow> s = [] \<or> s ! 0 = CHR ''#'' \<or>
     (length s \<ge> 2 \<and> s ! 0 = CHR ''/'' \<and> s ! 1 = CHR ''/'')"

definition client_is_empty_or_comment :: "string \<Rightarrow> bool" where
  "client_is_empty_or_comment s \<longleftrightarrow> s = [] \<or> s ! 0 = CHR ''#''"

text \<open>\<^verbatim>\<open>opts.emplace(k, v)\<close>, and \<^verbatim>\<open>opts.insert\<close> for every default.\<close>

definition emplace :: "string \<Rightarrow> string \<Rightarrow> Options \<Rightarrow> Options" where
  "emplace k v opts = (if opts k = None then opts(k \<mapsto> v) else opts)"

fun insert_all :: "(string \<times> string) list \<Rightarrow> Options \<Rightarrow> Options" where
  "insert_all [] opts = opts"
| "insert_all ((k, v) # els) opts = insert_all els (emplace k v opts)"

section \<open>The server's options\<close>

definition no_answer_key :: string where
  "no_answer_key = gbk [206, 180, 211, 166, 180, 240, 179, 172, 202, 177]"

definition transfer_key :: string where
  "transfer_key = gbk [180, 171, 202, 228, 179, 172, 202, 177]"

definition main_log_key :: string where
  "main_log_key = gbk [214, 247, 200, 213, 214, 190, 180, 243, 208, 161]"

definition sub_log_key :: string where
  "sub_log_key = gbk [183, 214, 200, 213, 214, 190, 180, 243, 208, 161]"

definition listen_key :: string where
  "listen_key = gbk [188, 224, 204, 253, 182, 203, 191, 218, 186, 197]"

definition server_ip_key :: string where
  "server_ip_key = gbk [183, 254, 206, 241, 198, 247, 73, 80, 181, 216, 214, 183]"

definition db_port_key :: string where
  "db_port_key = gbk [183, 254, 206, 241, 198, 247, 182, 203, 191, 218, 186, 197]"

definition db_name_key :: string where
  "db_name_key = gbk [202, 253, 190, 221, 191, 226, 195, 251]"

definition db_user_key :: string where
  "db_user_key = gbk [211, 195, 187, 167, 195, 251]"

definition db_password_key :: string where
  "db_password_key = gbk [211, 195, 187, 167, 191, 218, 193, 238]"

definition on_screen_key :: string where
  "on_screen_key = gbk [198, 193, 196, 187, 207, 212, 202, 190]"

definition server_defaults :: "(string \<times> string) list" where
  "server_defaults =
     [(listen_key, ''41713''), (connect_gap_key, ''15''), (sample_gap_key, ''900''),
      (server_ip_key, ''localhost''), (db_port_key, ''3306''), (db_name_key, ''yzmon_1551713''),
      (db_user_key, ''dbuser_1551713''), (db_password_key, ''yzmond.1551713''),
      (no_answer_key, ''30''), (transfer_key, ''60''), (main_log_key, ''10240''),
      (sub_log_key, ''1024''), (on_screen_key, ''1''), (''tmp_packet'', ''0000''),
      (''tmp_socket'', ''0000''), (''dev_packet'', ''0000''), (''dev_socket'', ''0000'')]"

text \<open>
  \<^verbatim>\<open>(stoi(v) < lo || stoi(v) > hi)\<close>; \<^verbatim>\<open>stoi\<close> throws when there is no number.
\<close>

definition clamp :: "int \<Rightarrow> int \<Rightarrow> string \<Rightarrow> string \<Rightarrow> fault + string" where
  "clamp lo hi other v = and_then (stoi v) (\<lambda>i. Inr (if i < lo \<or> i > hi then other else v))"

definition cap :: "int \<Rightarrow> string \<Rightarrow> string \<Rightarrow> fault + string" where
  "cap hi other v = and_then (stoi v) (\<lambda>i. Inr (if i > hi then other else v))"

definition checked_value :: "string \<Rightarrow> string \<Rightarrow> fault + string" where
  "checked_value k v =
     (if k = connect_gap_key then clamp 5 600 ''15'' v
      else if k = sample_gap_key then clamp 15 3600 ''900'' v
      else if k = no_answer_key then clamp 2 120 ''30'' v
      else if k = transfer_key then clamp 2 120 ''60'' v
      else if k = main_log_key then cap 102400 ''102400'' v
      else if k = sub_log_key then cap 102400 ''1024'' v
      else Inr v)"

text \<open>The key and the value of a line, if it has both.\<close>

definition server_entry :: "string \<Rightarrow> (string \<times> string) option" where
  "server_entry line_buf =
     (let (k, iss) = next_word line_buf in
      if server_is_empty_or_comment k then None
      else (let (equal, iss) = next_word iss in
        if server_is_empty_or_comment equal then None
        else (let (v, iss) = next_word iss in
          if server_is_empty_or_comment v then None else Some (k, v))))"

fun server_lines :: "string list \<Rightarrow> Options \<Rightarrow> fault + Options" where
  "server_lines [] opts = Inr opts"
| "server_lines (line_buf # ls) opts =
     (case server_entry line_buf of
       None \<Rightarrow> server_lines ls opts
     | Some (k, v) \<Rightarrow> and_then (checked_value k v) (\<lambda>v'. server_lines ls (emplace k v' opts)))"

definition server_parse_arguments :: "string \<Rightarrow> fault + Options" where
  "server_parse_arguments ifs =
     and_then (server_lines (lines_of ifs) Map.empty) (\<lambda>opts. Inr (insert_all server_defaults opts))"

section \<open>The client's options\<close>

definition client_default_config :: "(string \<times> string) list" where
  "client_default_config =
     [(gbk [231, 171, 175, 229, 143, 163, 229, 143, 183], ''41047''),
      (gbk [230, 156, 128, 229, 176, 143, 233, 133, 141, 231, 189, 174, 231, 187, 136, 231, 171, 175, 230, 149,
            176, 233, 135, 143], ''5''),
      (gbk [230, 156, 128, 229, 164, 167, 233, 133, 141, 231, 189, 174, 231, 187, 136, 231, 171, 175, 230, 149,
            176, 233, 135, 143], ''28''),
      (gbk [230, 175, 143, 228, 184, 170, 231, 187, 136, 231, 171, 175, 230, 156, 128, 229, 164, 167, 232, 153,
            154, 229, 177, 143, 230, 149, 176, 233, 135, 143], ''10'')]"

text \<open>The same function reads a file with a word between key and value when it is not for the client.\<close>

definition client_entry :: "bool \<Rightarrow> string \<Rightarrow> (string \<times> string) option" where
  "client_entry is_client line_buf =
     (let (k, iss) = next_word line_buf in
      if client_is_empty_or_comment k then None
      else (let (equal, iss1) = next_word iss in
        if \<not> is_client \<and> client_is_empty_or_comment equal then None
        else (let (v, _) = next_word (if is_client then iss else iss1) in
          if client_is_empty_or_comment v then None else Some (k, v))))"

fun client_lines :: "bool \<Rightarrow> string list \<Rightarrow> Options \<Rightarrow> Options" where
  "client_lines is_client [] opts = opts"
| "client_lines is_client (line_buf # ls) opts =
     (case client_entry is_client line_buf of
       None \<Rightarrow> client_lines is_client ls opts
     | Some (k, v) \<Rightarrow> client_lines is_client ls (emplace k v opts))"

definition client_parse_arguments :: "string \<Rightarrow> bool \<Rightarrow> Options" where
  "client_parse_arguments ifs is_client =
     (let opts = client_lines is_client (lines_of ifs) Map.empty
      in if is_client then insert_all client_default_config opts else opts)"

section \<open>What the options are\<close>

lemma insert_all_eq: "insert_all els opts k = (case opts k of Some v \<Rightarrow> Some v | None \<Rightarrow> map_of els k)"
  by (induction els opts rule: insert_all.induct) (auto simp: emplace_def split: option.splits)

lemma checked_value_fails: "checked_value k v = Inl f \<Longrightarrow> f = Bad_Number"
  by (auto simp: checked_value_def clamp_def cap_def and_then_def stoi_def Let_def split: if_splits)

text \<open>The entries of a file, in order, and the value that is kept of one.\<close>

definition entries :: "string \<Rightarrow> (string \<times> string) list" where
  "entries ifs = List.map_filter server_entry (lines_of ifs)"

definition kept :: "string \<Rightarrow> string \<Rightarrow> string" where
  "kept k v = (case checked_value k v of Inr v' \<Rightarrow> v' | Inl _ \<Rightarrow> v)"

definition checks :: "(string \<times> string) list \<Rightarrow> bool" where
  "checks es \<longleftrightarrow> (\<forall>(k, v) \<in> set es. \<exists>v'. checked_value k v = Inr v')"

lemma server_lines_eq:
  "server_lines ls opts =
    (let es = List.map_filter server_entry ls in
     if checks es then Inr (\<lambda>k. case opts k of Some v \<Rightarrow> Some v | None \<Rightarrow> map_option (kept k) (map_of es k))
     else Inl Bad_Number)"
proof (induction ls opts rule: server_lines.induct)
  case (1 opts)
  then show ?case
    by (auto simp: checks_def List.map_filter_simps Let_def split: option.splits)
next
  case (2 line_buf ls opts)
  show ?case
  proof (cases "server_entry line_buf")
    case None
    then show ?thesis
      using 2(1) by (simp add: List.map_filter_simps)
  next
    case (Some kv)
    obtain k v where kv: "kv = (k, v)"
      by fastforce
    show ?thesis
    proof (cases "checked_value k v")
      case (Inl f)
      then show ?thesis
        using Some kv checked_value_fails [OF Inl] by (simp add: List.map_filter_simps checks_def Let_def)
    next
      case (Inr v')
      then have "kept k v = v'"
        by (simp add: kept_def)
      then show ?thesis
        using 2(2) [OF Some [unfolded kv] refl] Some kv Inr
        by (auto simp: List.map_filter_simps checks_def Let_def emplace_def fun_eq_iff split: option.splits)
    qed
  qed
qed

lemma server_parse_eq:
  "server_parse_arguments ifs =
     (if checks (entries ifs)
      then Inr (\<lambda>k. case map_of (entries ifs) k of Some v \<Rightarrow> Some (kept k v) | None \<Rightarrow> map_of server_defaults k)
      else Inl Bad_Number)"
  by (auto simp: server_parse_arguments_def server_lines_eq entries_def Let_def insert_all_eq fun_eq_iff
      split: option.splits)

text \<open>
  C13: what \<^verbatim>\<open>parse_arguments\<close> of the server computes. If some entry that should be a
  number is not one, also one that would not be used, it throws; otherwise an option has the
  checked value of the first entry for it, or its default.
\<close>

theorem server_options:
  "server_parse_arguments ifs =
     (if \<forall>(k, v) \<in> set (entries ifs). \<exists>v'. checked_value k v = Inr v'
      then Inr (\<lambda>k. case map_of (entries ifs) k of Some v \<Rightarrow> Some (kept k v) | None \<Rightarrow> map_of server_defaults k)
      else Inl Bad_Number)"
  unfolding checks_def [symmetric] by (rule server_parse_eq)

lemma no_entries: "entries [] = []"
  by (simp add: entries_def List.map_filter_simps server_entry_def next_word_def server_is_empty_or_comment_def)

theorem server_options_witness:
  "\<exists>opts. server_parse_arguments [] = Inr opts \<and> opts ''dev_socket'' = map_of server_defaults ''dev_socket''"
  using server_options [of "[]"] by (simp add: no_entries)

section \<open>Ranges\<close>

lemma number_keys:
  "sample_gap_key \<noteq> connect_gap_key" "no_answer_key \<noteq> connect_gap_key" "no_answer_key \<noteq> sample_gap_key"
  "transfer_key \<noteq> connect_gap_key" "transfer_key \<noteq> sample_gap_key" "transfer_key \<noteq> no_answer_key"
  "main_log_key \<noteq> connect_gap_key" "main_log_key \<noteq> sample_gap_key" "main_log_key \<noteq> no_answer_key"
  "main_log_key \<noteq> transfer_key" "sub_log_key \<noteq> connect_gap_key" "sub_log_key \<noteq> sample_gap_key"
  "sub_log_key \<noteq> no_answer_key" "sub_log_key \<noteq> transfer_key" "sub_log_key \<noteq> main_log_key"
  by code_simp+

lemma number_defaults:
  "map_of server_defaults connect_gap_key = Some ''15''" "map_of server_defaults sample_gap_key = Some ''900''"
  "map_of server_defaults no_answer_key = Some ''30''" "map_of server_defaults transfer_key = Some ''60''"
  "map_of server_defaults main_log_key = Some ''10240''" "map_of server_defaults sub_log_key = Some ''1024''"
  by code_simp+

lemma stoi_samples:
  "stoi ''15'' = Inr 15" "stoi ''900'' = Inr 900" "stoi ''30'' = Inr 30" "stoi ''60'' = Inr 60"
  "stoi ''10240'' = Inr 10240" "stoi ''1024'' = Inr 1024" "stoi ''102400'' = Inr 102400"
  by code_simp+

definition in_range :: "Options \<Rightarrow> string \<Rightarrow> int \<Rightarrow> int \<Rightarrow> bool" where
  "in_range opts k lo hi \<longleftrightarrow> (\<exists>i. stoi_at opts k = Inr i \<and> lo \<le> i \<and> i \<le> hi)"

lemma option_in_range:
  assumes "server_parse_arguments ifs = Inr opts"
    and "\<And>v v'. checked_value k v = Inr v' \<Longrightarrow> \<exists>i. stoi v' = Inr i \<and> lo \<le> i \<and> i \<le> hi"
    and "map_of server_defaults k = Some d" "stoi d = Inr j" "lo \<le> j" "j \<le> hi"
  shows "in_range opts k lo hi"
proof (cases "map_of (entries ifs) k")
  case None
  then show ?thesis
    using assms by (auto simp: server_parse_eq in_range_def stoi_at_def split: if_splits)
next
  case (Some v)
  then have "(k, v) \<in> set (entries ifs)" "checks (entries ifs)"
    using assms(1) map_of_SomeD by (auto simp: server_parse_eq split: if_splits)
  then obtain v' where "checked_value k v = Inr v'"
    by (auto simp: checks_def)
  then show ?thesis
    using assms(1) assms(2) [of v v'] Some
    by (auto simp: server_parse_eq in_range_def stoi_at_def kept_def split: if_splits)
qed

lemma clamp_range:
  "clamp lo hi other v = Inr v' \<Longrightarrow> stoi other = Inr j \<Longrightarrow> lo \<le> j \<Longrightarrow> j \<le> hi \<Longrightarrow>
     \<exists>i. stoi v' = Inr i \<and> lo \<le> i \<and> i \<le> hi"
  by (auto simp: clamp_def and_then_eq_Inr_iff split: if_splits)

lemma stoi_range: "stoi v = Inr i \<Longrightarrow> - (2 ^ 31) \<le> i \<and> i \<le> 2 ^ 31 - 1"
  unfolding stoi_def Let_def by (simp only: split: if_splits) auto

lemma cap_range:
  "cap hi other v = Inr v' \<Longrightarrow> stoi other = Inr j \<Longrightarrow> j \<le> hi \<Longrightarrow>
     \<exists>i. stoi v' = Inr i \<and> - (2 ^ 31) \<le> i \<and> i \<le> hi"
  using stoi_range by (fastforce simp: cap_def and_then_eq_Inr_iff split: if_splits)

lemma option_ranges:
  assumes "server_parse_arguments ifs = Inr opts"
  shows "in_range opts connect_gap_key 5 600" "in_range opts sample_gap_key 15 3600"
    "in_range opts no_answer_key 2 120" "in_range opts transfer_key 2 120"
    "in_range opts main_log_key (- (2 ^ 31)) 102400" "in_range opts sub_log_key (- (2 ^ 31)) 102400"
proof -
  show "in_range opts connect_gap_key 5 600"
    by (rule option_in_range [OF assms _ number_defaults(1) stoi_samples(1)])
      (auto simp: checked_value_def stoi_samples dest!: clamp_range)
  show "in_range opts sample_gap_key 15 3600"
    by (rule option_in_range [OF assms _ number_defaults(2) stoi_samples(2)])
      (auto simp: checked_value_def number_keys stoi_samples dest!: clamp_range)
  show "in_range opts no_answer_key 2 120"
    by (rule option_in_range [OF assms _ number_defaults(3) stoi_samples(3)])
      (auto simp: checked_value_def number_keys stoi_samples dest!: clamp_range)
  show "in_range opts transfer_key 2 120"
    by (rule option_in_range [OF assms _ number_defaults(4) stoi_samples(4)])
      (auto simp: checked_value_def number_keys stoi_samples dest!: clamp_range)
  show "in_range opts main_log_key (- (2 ^ 31)) 102400"
    by (rule option_in_range [OF assms _ number_defaults(5) stoi_samples(5)])
      (auto simp: checked_value_def number_keys stoi_samples dest!: cap_range)
  show "in_range opts sub_log_key (- (2 ^ 31)) 102400"
    by (rule option_in_range [OF assms _ number_defaults(6) stoi_samples(6)])
      (auto simp: checked_value_def number_keys stoi_samples dest!: cap_range)
qed

text \<open>
  C14: whatever the file says, a start of the server that gets past the options has
  numbers in the ranges the code sets: the two intervals it announces to devices, the two timeouts,
  and sizes of the logs of at most 102400 kilobytes, which may be negative. The port has no range.
\<close>

theorem numbers_in_range:
  assumes "server_parse_arguments ifs = Inr opts"
  shows "in_range opts connect_gap_key 5 600 \<and> in_range opts sample_gap_key 15 3600 \<and>
    in_range opts no_answer_key 2 120 \<and> in_range opts transfer_key 2 120 \<and>
    in_range opts main_log_key (- (2 ^ 31)) 102400 \<and> in_range opts sub_log_key (- (2 ^ 31)) 102400"
  using option_ranges [OF assms] by blast

theorem numbers_in_range_witness:
  "\<exists>opts. server_parse_arguments [] = Inr opts \<and> in_range opts connect_gap_key 5 600"
proof -
  have p: "server_parse_arguments [] = Inr (\<lambda>k. map_of server_defaults k)"
    by (simp add: server_parse_eq no_entries checks_def)
  show ?thesis
    using numbers_in_range [OF p] p by blast
qed

section \<open>The client's defaults\<close>

definition client_entries :: "string \<Rightarrow> (string \<times> string) list" where
  "client_entries ifs = List.map_filter (client_entry True) (lines_of ifs)"

lemma client_lines_eq:
  "client_lines b ls opts k =
    (case opts k of Some v \<Rightarrow> Some v | None \<Rightarrow> map_of (List.map_filter (client_entry b) ls) k)"
  by (induction b ls opts rule: client_lines.induct)
    (auto simp: List.map_filter_simps emplace_def split: option.splits prod.splits)

lemma client_parse_eq:
  "client_parse_arguments ifs True k =
    (case map_of (client_entries ifs) k of Some v \<Rightarrow> Some v | None \<Rightarrow> map_of client_default_config k)"
  by (simp add: client_parse_arguments_def client_lines_eq client_entries_def insert_all_eq)

lemma no_gbk_default:
  "map_of client_default_config max_terms_key = None" "map_of client_default_config max_screens_key = None"
  by code_simp+

text \<open>
  The defaults of the client are never found, because the keys of the
  table are in another encoding than those the program asks for. If the file does not set the
  greatest number of terminals, or of screens, packing an answer throws.
\<close>

theorem client_defaults_missing:
  assumes "max_terms_key \<notin> fst ` set (client_entries ifs)" "max_screens_key \<notin> fst ` set (client_entries ifs)"
    and "t \<in> {0x09, 0x0A, 0x0B}"
  shows "client_pack_message t (client_parse_arguments ifs True) c w = Inl Missing_Key"
proof -
  let ?opts = "client_parse_arguments ifs True"
  have "stoi_at ?opts max_terms_key = Inl Missing_Key" "stoi_at ?opts max_screens_key = Inl Missing_Key"
    using assms(1,2) [folded map_of_eq_None_iff] no_gbk_default by (simp_all add: stoi_at_def client_parse_eq)
  then show ?thesis
    using assms(3)
    by (auto simp: client_pack_message_def pack_terminals_def terminal_total_def pack_dumb_def pack_ipterm_def
        draw_screens_def)
qed

theorem client_defaults_missing_witness:
  "\<forall>c w. client_pack_message 0x09 (client_parse_arguments [] True) c w = Inl Missing_Key"
  by (intro allI, rule client_defaults_missing)
    (simp_all add: client_entries_def List.map_filter_simps client_entry_def next_word_def
      client_is_empty_or_comment_def)

end
