(* ===== verification/Hex_Dump.thy ===== *)
theory Hex_Dump
  imports Strings
begin

text \<open>
  \<^verbatim>\<open>logify_data\<close> of \<^verbatim>\<open>server/src/log.cpp\<close> and \<^verbatim>\<open>client/shared_library.cpp\<close>: the text of packet
  contents in the logs. The loop appends to two streams, \<^verbatim>\<open>ss\<close> and \<^verbatim>\<open>ss_word\<close>; it is shown to
  print rows of 16 bytes.
\<close>

section \<open>The code\<close>

text \<open>\<^verbatim>\<open>std::hex << std::uppercase << n\<close> and \<^verbatim>\<open>std::setw(w) << std::setfill('0')\<close>.\<close>

definition upcase :: "char \<Rightarrow> char" where
  "upcase c = (let n = (of_char c :: nat) in if 97 \<le> n \<and> n \<le> 122 then char_of (n - 32) else c)"

definition upper_hex :: "nat \<Rightarrow> string" where
  "upper_hex n = map upcase (hex n)"

definition zero_filled :: "nat \<Rightarrow> string \<Rightarrow> string" where
  "zero_filled w s = replicate (w - length s) CHR ''0'' @ s"

definition shown :: "u8 \<Rightarrow> char" where
  "shown b = (if 31 < b \<and> b < 127 then char_of (unat b) else CHR ''.'')"

definition row_head :: "nat \<Rightarrow> string" where
  "row_head i = [CHR 0x0A, CHR '' ''] @ zero_filled 4 (upper_hex i) @ '': ''"

definition cell :: "u8 \<Rightarrow> string" where
  "cell b = zero_filled 2 (upper_hex (unat b)) @ '' ''"

definition logify_step :: "nat \<Rightarrow> u8 \<Rightarrow> string \<times> string \<Rightarrow> string \<times> string" where
  "logify_step i b st =
     (let (ss, ss_word) = st;
          (ss, ss_word) =
            (if i mod 16 = 0 then (ss @ ss_word @ row_head i, [])
             else if i mod 8 = 0 then (ss @ ''- '', ss_word)
             else (ss, ss_word))
      in (ss @ cell b, ss_word @ [shown b]))"

fun logify_loop :: "nat \<Rightarrow> bytes \<Rightarrow> string \<times> string \<Rightarrow> string \<times> string" where
  "logify_loop i [] st = st"
| "logify_loop i (b # bs) st = logify_loop (i + 1) bs (logify_step i b st)"

definition logify_data :: "bytes \<Rightarrow> string" where
  "logify_data data =
     (let (ss, ss_word) = logify_loop 0 data ([], []); i = length data in
      if i mod 16 = 0 then ss @ ss_word
      else (let interval = 3 * (16 - i mod 16) + (if i mod 16 > 8 then 0 else 2)
        in ss @ replicate interval CHR '' '' @ ss_word))"

section \<open>Rows\<close>

text \<open>
  The reference: rows of 16 bytes, each with its offset, the bytes in two groups of eight, and the
  characters from column 57 on.
\<close>

function rows :: "bytes \<Rightarrow> bytes list" where
  "rows bs = (if bs = [] then [] else take 16 bs # rows (drop 16 bs))"
  by pat_completeness auto

termination
  by (relation "measure length") auto

declare rows.simps [simp del]

definition cells :: "bytes \<Rightarrow> string" where
  "cells r = concat (map cell (take 8 r)) @ (if length r > 8 then ''- '' else []) @ concat (map cell (drop 8 r))"

definition fill_to :: "nat \<Rightarrow> string \<Rightarrow> string" where
  "fill_to w s = s @ replicate (w - length s) CHR '' ''"

definition row_text :: "nat \<Rightarrow> bytes \<Rightarrow> string" where
  "row_text n r = fill_to 58 (row_head (16 * n) @ cells r) @ map shown r"

lemma logify_loop_append:
  "logify_loop i (xs @ ys) st = logify_loop (i + length xs) ys (logify_loop i xs st)"
  by (induction xs arbitrary: i st) simp_all

lemma logify_row:
  "length r \<le> 16 \<Longrightarrow> r \<noteq> [] \<Longrightarrow>
     logify_loop (16 * n) r (ss, w) = (ss @ w @ row_head (16 * n) @ cells r, map shown r)"
proof (induction r rule: rev_induct)
  case (snoc b r)
  show ?case
  proof (cases "r = []")
    case True
    then show ?thesis
      by (simp add: logify_step_def cells_def)
  next
    case False
    have k: "length r < 16" "0 < length r"
      using snoc.prems(1) False by auto
    then have "(16 * n + length r) mod 16 = length r" "(16 * n + length r) mod 8 = length r mod 8"
      by (simp_all add: mod_mult_self3 flip: mod_add_eq)
    moreover have "length r mod 8 = 0 \<longleftrightarrow> length r = 8"
      using k by presburger
    ultimately show ?thesis
      using snoc.IH False k by (auto simp: logify_loop_append logify_step_def cells_def)
  qed
qed simp

lemma length_upper_hex: "n < 16 ^ Suc k \<Longrightarrow> length (upper_hex n) \<le> Suc k"
  using length_radix [of 16] by (simp add: upper_hex_def hex_def)

lemma length_row_head: "i < 65536 \<Longrightarrow> length (row_head i) = 8"
  using length_upper_hex [of i 3] by (simp add: row_head_def zero_filled_def)

lemma length_cell: "length (cell b) = 3"
proof -
  have "unat b < 16 ^ Suc 1"
    using unat_8_lt [of b] by simp
  from length_upper_hex [OF this] show ?thesis
    by (simp add: cell_def zero_filled_def)
qed

lemma length_concat_cells: "length (concat (map cell r)) = 3 * length r"
  by (induction r) (simp_all add: length_cell)

lemma length_cells: "length (cells r) = 3 * length r + (if length r > 8 then 2 else 0)"
  by (auto simp: cells_def length_concat_cells)

definition finish :: "nat \<Rightarrow> string \<times> string \<Rightarrow> string" where
  "finish i st = (let (ss, ss_word) = st in if i mod 16 = 0 then ss @ ss_word
     else ss @ replicate (3 * (16 - i mod 16) + (if i mod 16 > 8 then 0 else 2)) CHR '' '' @ ss_word)"

lemma logify_finish: "logify_data data = finish (length data) (logify_loop 0 data ([], []))"
  by (cases "logify_loop 0 data ([], [])") (simp add: logify_data_def finish_def Let_def)

lemma row_text_full: "length r = 16 \<Longrightarrow> 16 * n < 65536 \<Longrightarrow> row_text n r = row_head (16 * n) @ cells r @ map shown r"
  by (simp add: row_text_def fill_to_def length_row_head length_cells)

lemma finish_row:
  assumes "length r \<le> 16" "r \<noteq> []" "16 * n < 65536"
  shows "finish (16 * n + length r) (ss @ row_head (16 * n) @ cells r, map shown r) = ss @ row_text n r"
proof (cases "length r = 16")
  case True
  then show ?thesis
    using assms(3) by (simp add: finish_def row_text_full)
next
  case False
  then have "(16 * n + length r) mod 16 = length r" "0 < length r"
    using assms by simp_all
  moreover have "58 - length (row_head (16 * n) @ cells r) =
      3 * (16 - length r) + (if length r > 8 then 0 else 2)"
    using assms(1,3) False by (simp add: length_row_head length_cells) arith
  ultimately show ?thesis
    by (simp add: finish_def row_text_def fill_to_def)
qed

lemma finish_rows:
  "16 * n + length bs \<le> 65536 \<Longrightarrow> bs \<noteq> [] \<Longrightarrow>
   finish (16 * n + length bs) (logify_loop (16 * n) bs (ss, w)) =
     ss @ w @ concat (map (\<lambda>(k, r). row_text k r) (enumerate n (rows bs)))"
proof (induction bs arbitrary: n ss w rule: rows.induct)
  case (1 bs)
  have small: "16 * n < 65536"
    using 1(2,3) by (cases bs) auto
  show ?case
  proof (cases "length bs \<le> 16")
    case True
    then have "rows bs = [bs]"
      using 1(3) by (simp add: rows.simps [of bs] rows.simps [of "[]"])
    then show ?thesis
      using True 1(3) finish_row [OF True 1(3) small, of "ss @ w"] by (simp add: logify_row)
  next
    case False
    let ?r = "take 16 bs" and ?bs = "drop 16 bs"
    have r: "length ?r = 16" "?r \<noteq> []"
      using False by auto
    have "logify_loop (16 * n) bs (ss, w) = logify_loop (16 * n + 16) ?bs (logify_loop (16 * n) ?r (ss, w))"
      using logify_loop_append [of "16 * n" ?r ?bs "(ss, w)"] r(1) by simp
    also have "\<dots> = logify_loop (16 * Suc n) ?bs (ss @ w @ row_head (16 * n) @ cells ?r, map shown ?r)"
      using logify_row [of ?r n ss w] r by (simp add: add.commute)
    finally have loop: "logify_loop (16 * n) bs (ss, w) = \<dots>" .
    have "finish (16 * Suc n + length ?bs)
        (logify_loop (16 * Suc n) ?bs (ss @ w @ row_head (16 * n) @ cells ?r, map shown ?r)) =
      (ss @ w @ row_head (16 * n) @ cells ?r) @ map shown ?r @
        concat (map (\<lambda>(k, r). row_text k r) (enumerate (Suc n) (rows ?bs)))"
      using False 1(2) by (intro 1(1)) auto
    moreover have "16 * Suc n + length ?bs = 16 * n + length bs"
      using False by simp
    moreover have "rows bs = ?r # rows ?bs"
      using 1(3) by (simp add: rows.simps [of bs])
    ultimately show ?thesis
      using loop row_text_full [OF r(1) small] by simp
  qed
qed

text \<open>
  C17: the loop that fills two streams prints the reference: one row for each 16 bytes,
  with the offset, the bytes, and the characters in the same column of every row, the last
  incomplete one included, for data of up to 65536 bytes.
\<close>

theorem dump_rows:
  assumes "length data \<le> 65536"
  shows "logify_data data = concat (map (\<lambda>(k, r). row_text k r) (enumerate 0 (rows data)))"
proof (cases "data = []")
  case True
  then show ?thesis
    by (simp add: logify_data_def rows.simps [of "[]"])
next
  case False
  then show ?thesis
    using finish_rows [of 0 data "[]" "[]"] assms by (simp add: logify_finish)
qed

theorem dump_rows_witness:
  "logify_data [72, 105, 0] = row_text 0 [72, 105, 0]"
  using dump_rows [of "[72, 105, 0]"] by (simp add: rows.simps)

end
