(* ===== verification/Logging.thy ===== *)
theory Logging
  imports Parse_Arguments Hex_Dump
begin

text \<open>
  The server's logs (\<^verbatim>\<open>server/src/log.cpp\<close>) and its start (\<^verbatim>\<open>server/src/yzmond.cpp\<close>): three files that
  are written over from their beginning when they are full, the switches of the levels, and how
  the options set them up. A log line is a call that selects a stream, then output to it, which
  begins with the time stamp and the number of the process.
\<close>

section \<open>Files\<close>

text \<open>A stream on a file, or on \<^verbatim>\<open>/dev/null\<close>, with its position; output overwrites what follows it.\<close>

record LogFile =
  lf_null :: bool
  lf_text :: string
  lf_pos :: nat

definition open_file :: "bool \<Rightarrow> LogFile" where
  "open_file null = \<lparr>lf_null = null, lf_text = [], lf_pos = 0\<rparr>"

definition put_text :: "string \<Rightarrow> LogFile \<Rightarrow> LogFile" where
  "put_text txt f =
     (if lf_null f then f
      else f\<lparr>lf_text := take (lf_pos f) (lf_text f) @ txt @ drop (lf_pos f + length txt) (lf_text f),
             lf_pos := lf_pos f + length txt\<rparr>)"

text \<open>\<^verbatim>\<open>if ((u_int)tellp() > size) seekp(0)\<close>\<close>

definition rewind :: "u32 \<Rightarrow> LogFile \<Rightarrow> LogFile" where
  "rewind limit f = (if limit < of_nat (lf_pos f) then f\<lparr>lf_pos := 0\<rparr> else f)"

section \<open>The class \<^verbatim>\<open>Log\<close>\<close>

datatype Level = TP_S | TP_R | TP_SD | TP_RD | TS_S | TS_R | TS_SD | TS_RD
  | DP_S | DP_R | DP_SD | DP_RD | DS_S | DS_R | DS_SD | DS_RD | Debug

record Log =
  m_logLevel :: Level
  m_logStream :: LogFile
  m_errStream :: LogFile
  m_dbStream :: LogFile
  m_logEnv :: "bool list list"
  m_onScreen :: bool
  m_mainLogSize :: u32
  m_subLogSize :: u32
  cout :: string

datatype sink = To_Log | To_Err | To_DB | To_Void

definition getStream :: "Log \<Rightarrow> sink \<times> Log" where
  "getStream l = (To_Log, l\<lparr>m_logStream := rewind (m_mainLogSize l) (m_logStream l)\<rparr>)"

definition getErrStream :: "Log \<Rightarrow> sink \<times> Log" where
  "getErrStream l = (To_Err, l\<lparr>m_errStream := rewind (m_subLogSize l) (m_errStream l)\<rparr>)"

definition getDBStream :: "Log \<Rightarrow> sink \<times> Log" where
  "getDBStream l = (To_DB, l\<lparr>m_dbStream := rewind (m_subLogSize l) (m_dbStream l)\<rparr>)"

fun level_on :: "bool list list \<Rightarrow> Level \<Rightarrow> bool" where
  "level_on env Debug = True"
| "level_on env TP_S = env ! 0 ! 0"
| "level_on env TP_R = env ! 0 ! 1"
| "level_on env TP_SD = env ! 0 ! 2"
| "level_on env TP_RD = env ! 0 ! 3"
| "level_on env TS_S = env ! 1 ! 0"
| "level_on env TS_R = env ! 1 ! 1"
| "level_on env TS_SD = env ! 1 ! 2"
| "level_on env TS_RD = env ! 1 ! 3"
| "level_on env DP_S = env ! 2 ! 0"
| "level_on env DP_R = env ! 2 ! 1"
| "level_on env DP_SD = env ! 2 ! 2"
| "level_on env DP_RD = env ! 2 ! 3"
| "level_on env DS_S = env ! 3 ! 0"
| "level_on env DS_R = env ! 3 ! 1"
| "level_on env DS_SD = env ! 3 ! 2"
| "level_on env DS_RD = env ! 3 ! 3"

definition getLevelStream :: "Level \<Rightarrow> Log \<Rightarrow> sink \<times> Log" where
  "getLevelStream level l =
     (let l1 = l\<lparr>m_logStream := rewind (m_mainLogSize l) (m_logStream l)\<rparr>
      in if level_on (m_logEnv l1) level then (To_Log, l1) else (To_Void, l1))"

text \<open>Output goes to the file, and through the \<^verbatim>\<open>TeeStream\<close> to the screen as well if that is on.\<close>

definition print_to :: "sink \<Rightarrow> string \<Rightarrow> Log \<Rightarrow> Log" where
  "print_to s txt l =
     (let l1 = (if m_onScreen l \<and> s \<noteq> To_Void then l\<lparr>cout := cout l @ txt\<rparr> else l)
      in case s of
           To_Log \<Rightarrow> l1\<lparr>m_logStream := put_text txt (m_logStream l1)\<rparr>
         | To_Err \<Rightarrow> l1\<lparr>m_errStream := put_text txt (m_errStream l1)\<rparr>
         | To_DB \<Rightarrow> l1\<lparr>m_dbStream := put_text txt (m_dbStream l1)\<rparr>
         | To_Void \<Rightarrow> l1)"

datatype entry = LENV string | LERR string | LDB string | LOG Level string

fun write_entry :: "entry \<Rightarrow> Log \<Rightarrow> Log" where
  "write_entry (LENV txt) l = (let (s, l1) = getStream l in print_to s txt l1)"
| "write_entry (LERR txt) l = (let (s, l1) = getErrStream l in print_to s txt l1)"
| "write_entry (LDB txt) l = (let (s, l1) = getDBStream l in print_to s txt l1)"
| "write_entry (LOG level txt) l = (let (s, l1) = getLevelStream level l in print_to s txt l1)"

fun entry_text :: "entry \<Rightarrow> string" where
  "entry_text (LENV txt) = txt" | "entry_text (LERR txt) = txt"
| "entry_text (LDB txt) = txt" | "entry_text (LOG level txt) = txt"

definition setLogConf :: "bool list list \<Rightarrow> bool \<Rightarrow> u32 \<Rightarrow> u32 \<Rightarrow> Log \<Rightarrow> Log" where
  "setLogConf log_env on_screen main_log_size sub_log_size l =
     (let l1 = l\<lparr>m_logEnv := log_env\<rparr>;
          l2 = (if on_screen then l1\<lparr>m_onScreen := True\<rparr> else l1)
      in l2\<lparr>m_mainLogSize := main_log_size, m_subLogSize := sub_log_size\<rparr>)"

text \<open>
  \<^verbatim>\<open>setLevel\<close> and \<^verbatim>\<open>getLevel\<close>. The level is never consulted: the case of \<^verbatim>\<open>Debug\<close> in \<^verbatim>\<open>getStream\<close>
  compares the argument with \<^verbatim>\<open>Debug\<close> once more.
\<close>

definition setLevel :: "Level \<Rightarrow> Log \<Rightarrow> Log" where
  "setLevel level l = l\<lparr>m_logLevel := level\<rparr>"

definition getLevel :: "Log \<Rightarrow> Level" where
  "getLevel l = m_logLevel l"

lemma level_ignored: "write_entry e (setLevel level l) = setLevel level (write_entry e l)"
  by (cases e) (simp_all add: setLevel_def getStream_def getErrStream_def getDBStream_def getLevelStream_def
      print_to_def Let_def split: sink.split)

section \<open>The head of a line\<close>

text \<open>The fields of \<^verbatim>\<open>struct tm\<close> that are printed; \<^verbatim>\<open>localtime\<close> is the time zone of the machine, a parameter.\<close>

record Tm =
  tm_year :: int
  tm_mon :: int
  tm_mday :: int
  tm_hour :: int
  tm_min :: int
  tm_sec :: int

definition two_digits :: "int \<Rightarrow> string" where
  "two_digits n = (if length (dec_int n) < 2 then CHR ''0'' # dec_int n else dec_int n)"

text \<open>\<^verbatim>\<open>strftime\<close> with \<^verbatim>\<open>%F %T\<close>, into an array of 100 that is always long enough.\<close>

definition getTime :: "(int \<Rightarrow> Tm) \<Rightarrow> int \<Rightarrow> string" where
  "getTime localtime now =
     (let t = localtime now
      in dec_int (tm_year t + 1900) @ ''-'' @ two_digits (tm_mon t + 1) @ ''-'' @ two_digits (tm_mday t) @ '' '' @
         two_digits (tm_hour t) @ '':'' @ two_digits (tm_min t) @ '':'' @ two_digits (tm_sec t))"

text \<open>What the macros put before the text of a line.\<close>

definition line_head :: "(int \<Rightarrow> Tm) \<Rightarrow> int \<Rightarrow> nat \<Rightarrow> string" where
  "line_head localtime now pid = getTime localtime now @ '' ['' @ dec pid @ ''] ''"

lemma length_two_digits:
  assumes "0 \<le> n" "n < 100"
  shows "length (two_digits n) = 2"
proof -
  have "nat n < 10 ^ Suc 1"
    using assms by simp
  then have "0 < length (radix 10 (nat n))" "length (radix 10 (nat n)) \<le> 2"
    using length_radix [of 10 "nat n" 1] by simp_all
  then show ?thesis
    using assms(1) by (auto simp: two_digits_def dec_int_def dec_def simp del: length_greater_0_conv)
qed

text \<open>
  The head of a line takes 33 bytes at most before the year 10000, so texts of up to 991 bytes stay
  within the 1024 that \<open>logs_bounded\<close> asks for.
\<close>

lemma line_head_length:
  assumes "0 \<le> tm_year t + 1900" "tm_year t + 1900 < 10000" "0 \<le> tm_mon t" "tm_mon t < 12" "0 \<le> tm_mday t" "tm_mday t < 32"
    and "0 \<le> tm_hour t" "tm_hour t < 24" "0 \<le> tm_min t" "tm_min t < 60" "0 \<le> tm_sec t" "tm_sec t \<le> 60"
    and "localtime now = t" "pid < 10 ^ 10" "length msg \<le> 991"
  shows "length (line_head localtime now pid @ msg) \<le> 1024"
proof -
  have "length (dec pid) \<le> 10" "length (dec_int (tm_year t + 1900)) \<le> 4"
    using length_radix [of 10 pid 9] length_radix [of 10 "nat (tm_year t + 1900)" 3] assms(1,2,14)
    by (simp_all add: dec_def dec_int_def)
  then show ?thesis
    using assms by (simp add: line_head_def getTime_def Let_def length_two_digits)
qed

section \<open>The start of the server\<close>

definition kSub :: u32 where
  "kSub = 1024"

text \<open>\<open>already_open\<close>: one of the streams has been opened before, which makes the code return -1.\<close>

definition log_init ::
  "bool \<Rightarrow> Level \<Rightarrow> bool list list \<Rightarrow> bool \<Rightarrow> u32 \<Rightarrow> u32 \<Rightarrow> Log \<Rightarrow> int \<times> Log" where
  "log_init already_open level log_env on_screen main_log_size sub_log_size l =
     (if already_open then (- 1, l)
      else (let l1 = l\<lparr>m_logStream := open_file (main_log_size = 0)\<rparr>;
                l2 = l1\<lparr>m_errStream := open_file (sub_log_size = 0), m_dbStream := open_file (sub_log_size = 0)\<rparr>;
                s_main_size = main_log_size - kSub;
                s_sub_size = sub_log_size - kSub;
                l3 = setLogConf log_env on_screen s_main_size s_sub_size l2
            in (0, setLevel level l3)))"

text \<open>\<^verbatim>\<open>s[i] == '1'\<close> for \<open>i < 4\<close>; the character behind the end of a string is NUL.\<close>

definition four_flags :: "string \<Rightarrow> fault + bool list" where
  "four_flags s =
     (if length s < 3 then Inl Out_Of_Bounds
      else Inr (map (\<lambda>i. i < length s \<and> s ! i = CHR ''1'') [0..<4]))"

definition log_size :: "Options \<Rightarrow> string \<Rightarrow> fault + u32" where
  "log_size opts key =
     and_then (stoi_at opts key) (\<lambda>n. and_then (as_int (n * 1024)) (\<lambda>size. Inr (word_of_int size)))"

definition start_log :: "Options \<Rightarrow> Log \<Rightarrow> fault + int \<times> Log" where
  "start_log opts l =
     and_then (option_at opts ''tmp_packet'') (\<lambda>s_tp.
     and_then (option_at opts ''tmp_socket'') (\<lambda>s_ts.
     and_then (option_at opts ''dev_packet'') (\<lambda>s_dp.
     and_then (option_at opts ''dev_socket'') (\<lambda>s_ds.
     and_then (four_flags s_tp) (\<lambda>tp.
     and_then (four_flags s_ts) (\<lambda>ts.
     and_then (four_flags s_dp) (\<lambda>dp.
     and_then (four_flags s_ds) (\<lambda>ds.
     and_then (option_at opts on_screen_key) (\<lambda>screen.
     and_then (log_size opts main_log_key) (\<lambda>main_log_size.
     and_then (log_size opts sub_log_key) (\<lambda>sub_log_size.
     and_then (option_at opts server_ip_key) (\<lambda>db_ip.
     and_then (stoi_at opts db_port_key) (\<lambda>db_port.
     and_then (option_at opts db_name_key) (\<lambda>db_name.
     and_then (option_at opts db_user_key) (\<lambda>db_username.
     and_then (option_at opts db_password_key) (\<lambda>db_pwd.
     Inr (log_init False Debug [tp, ts, dp, ds] (screen = ''1'') main_log_size sub_log_size l)))))))))))))))))"

text \<open>\<^verbatim>\<open>main\<close> up to the select loop: the options, the logs, and the port it listens on.\<close>

definition start_server :: "string option \<Rightarrow> Log \<Rightarrow> fault + (Options \<times> Log \<times> int) option" where
  "start_server ifs l =
     (case ifs of
       None \<Rightarrow> Inr None
     | Some txt \<Rightarrow>
         and_then (server_parse_arguments txt) (\<lambda>opt.
         and_then (start_log opt l) (\<lambda>(r, l1).
         if r < 0 then Inr None
         else and_then (stoi_at opt listen_key) (\<lambda>port. Inr (Some (opt, l1, port))))))"

section \<open>The size of the logs\<close>

text \<open>\<open>within n f\<close>: the text is at most \<open>n\<close> bytes long and the position is in it.\<close>

definition within :: "nat \<Rightarrow> LogFile \<Rightarrow> bool" where
  "within n f \<longleftrightarrow> lf_pos f \<le> length (lf_text f) \<and> length (lf_text f) \<le> n \<and> (lf_null f \<longrightarrow> lf_text f = [])"

text \<open>The size is 0 and the file is the null device, or there is room for an entry behind the limit.\<close>

definition sized :: "nat \<Rightarrow> u32 \<Rightarrow> LogFile \<Rightarrow> bool" where
  "sized n limit f \<longleftrightarrow> within n f \<and> (lf_null f \<or> unat limit + 1024 = n \<and> n < 2 ^ 32)"

lemma sized_rewind: "sized n limit f \<Longrightarrow> sized n limit (rewind limit f)"
  by (simp add: sized_def within_def rewind_def)

lemma rewind_room:
  assumes "sized n limit f" "\<not> lf_null f"
  shows "lf_pos (rewind limit f) \<le> unat limit"
proof (cases "limit < of_nat (lf_pos f)")
  case True
  then show ?thesis
    by (simp add: rewind_def)
next
  case False
  have "unat (of_nat (lf_pos f) :: u32) = lf_pos f"
    using assms by (intro unat_of_nat32) (simp add: sized_def within_def)
  with False show ?thesis
    by (simp add: rewind_def word_less_nat_alt)
qed

lemma sized_put:
  assumes "sized n limit f" "length txt \<le> 1024"
  shows "sized n limit (put_text txt (rewind limit f))"
proof (cases "lf_null f")
  case True
  with assms(1) sized_rewind [OF assms(1)] show ?thesis
    by (simp add: put_text_def rewind_def)
next
  case False
  then show ?thesis
    using sized_rewind [OF assms(1)] rewind_room [OF assms(1)] assms(2)
    by (auto simp: sized_def within_def put_text_def rewind_def split: if_splits)
qed

definition logs_sized :: "nat \<Rightarrow> nat \<Rightarrow> Log \<Rightarrow> bool" where
  "logs_sized m s l \<longleftrightarrow> sized m (m_mainLogSize l) (m_logStream l) \<and> sized s (m_subLogSize l) (m_errStream l) \<and>
     sized s (m_subLogSize l) (m_dbStream l)"

lemma write_entry_sized:
  "logs_sized m s l \<Longrightarrow> length (entry_text e) \<le> 1024 \<Longrightarrow> logs_sized m s (write_entry e l)"
  by (cases e)
    (auto simp: getStream_def getErrStream_def getDBStream_def getLevelStream_def print_to_def Let_def logs_sized_def
      intro: sized_put sized_rewind)

lemma write_entries_sized:
  "logs_sized m s l \<Longrightarrow> \<forall>e \<in> set es. length (entry_text e) \<le> 1024 \<Longrightarrow> logs_sized m s (fold write_entry es l)"
  by (induction es arbitrary: l) (simp_all add: write_entry_sized)

lemma unat_minus_kSub:
  fixes z :: u32
  assumes "1024 \<le> unat z"
  shows "unat (z - kSub) + 1024 = unat z"
proof -
  have "unat kSub = 1024"
    by (simp add: kSub_def)
  then have "unat (z - kSub) = unat z - 1024"
    using assms by (subst unat_sub) (simp_all add: word_le_nat_alt)
  then show ?thesis
    using assms by simp
qed

lemma log_size_value:
  assumes "log_size opts key = Inr z" "in_range opts key 0 102400"
  shows "\<exists>n. stoi_at opts key = Inr n \<and> unat z = nat n * 1024 \<and> unat z < 2 ^ 32 \<and> 0 \<le> n"
proof -
  obtain n where n: "stoi_at opts key = Inr n" "0 \<le> n" "n \<le> 102400" "z = word_of_int (n * 1024)"
    using assms by (auto simp: log_size_def in_range_def and_then_eq_Inr_iff as_int_eq_Inr)
  have "word_of_int (n * 1024) = (of_nat (nat n * 1024) :: u32)"
    using n(2) of_int_of_nat_eq [of "nat n * 1024"] by (simp only: of_nat_mult int_nat_eq if_True) simp
  moreover have "nat n * 1024 < 2 ^ 32"
    using n(3) by simp
  ultimately have "unat z = nat n * 1024"
    using n(4) unat_of_nat32 [of "nat n * 1024"] by (simp only:)
  then show ?thesis
    using n \<open>nat n * 1024 < 2 ^ 32\<close> by simp
qed

lemma sized_open:
  assumes "unat z = k * 1024" "unat z < 2 ^ 32"
  shows "sized (unat z) (z - kSub) (open_file (z = 0))"
proof (cases "z = 0")
  case False
  then have "1024 \<le> unat z"
    using assms(1) by (cases k) (auto simp: unat_eq_zero)
  then show ?thesis
    using False assms(2) unat_minus_kSub by (simp add: sized_def within_def open_file_def)
qed (simp add: sized_def within_def open_file_def)

lemma start_log_sizes:
  assumes "start_log opts l = Inr (r, l')"
  obtains z1 z2 where "log_size opts main_log_key = Inr z1" "log_size opts sub_log_key = Inr z2"
    "m_logStream l' = open_file (z1 = 0)" "m_errStream l' = open_file (z2 = 0)" "m_dbStream l' = open_file (z2 = 0)"
    "m_mainLogSize l' = z1 - kSub" "m_subLogSize l' = z2 - kSub"
  using assms that
  by (auto simp: start_log_def and_then_eq_Inr_iff log_init_def setLogConf_def setLevel_def Let_def)

lemma started_sized:
  assumes "start_server (Some ifs) l = Inr (Some (opts, l', port))"
    and "stoi_at opts main_log_key = Inr m" "0 \<le> m" "stoi_at opts sub_log_key = Inr s" "0 \<le> s"
  shows "logs_sized (nat m * 1024) (nat s * 1024) l'"
proof -
  obtain r where p: "server_parse_arguments ifs = Inr opts" "start_log opts l = Inr (r, l')"
    using assms(1) by (auto simp: start_server_def and_then_eq_Inr_iff split: if_splits)
  have "in_range opts main_log_key 0 102400" "in_range opts sub_log_key 0 102400"
    using option_ranges [OF p(1)] assms(2-5) by (auto simp: in_range_def)
  moreover obtain z1 z2 where z: "log_size opts main_log_key = Inr z1" "log_size opts sub_log_key = Inr z2"
    "m_logStream l' = open_file (z1 = 0)" "m_errStream l' = open_file (z2 = 0)" "m_dbStream l' = open_file (z2 = 0)"
    "m_mainLogSize l' = z1 - kSub" "m_subLogSize l' = z2 - kSub"
    by (rule start_log_sizes [OF p(2)])
  ultimately have "unat z1 = nat m * 1024" "unat z1 < 2 ^ 32" "unat z2 = nat s * 1024" "unat z2 < 2 ^ 32"
    using log_size_value [OF z(1)] log_size_value [OF z(2)] assms(2,4) by auto
  then show ?thesis
    using sized_open [of z1 "nat m"] sized_open [of z2 "nat s"] z by (simp add: logs_sized_def)
qed

text \<open>
  C15: the logs stay within the sizes of the option file. After a start of the server
  with sizes that are not negative, and as long as no line is longer than 1024 bytes, none of the
  three files ever exceeds its number of kilobytes, whatever is logged.
\<close>

theorem logs_bounded:
  assumes "start_server (Some ifs) l = Inr (Some (opts, l', port))"
    and "stoi_at opts main_log_key = Inr m" "0 \<le> m" "stoi_at opts sub_log_key = Inr s" "0 \<le> s"
    and "\<forall>e \<in> set es. length (entry_text e) \<le> 1024"
  shows "length (lf_text (m_logStream (fold write_entry es l'))) \<le> nat m * 1024 \<and>
    length (lf_text (m_errStream (fold write_entry es l'))) \<le> nat s * 1024 \<and>
    length (lf_text (m_dbStream (fold write_entry es l'))) \<le> nat s * 1024"
  using write_entries_sized [OF started_sized [OF assms(1-5)] assms(6)]
  by (simp add: logs_sized_def sized_def within_def)

definition sample_log :: Log where
  "sample_log = \<lparr>m_logLevel = Debug, m_logStream = open_file True, m_errStream = open_file True,
     m_dbStream = open_file True, m_logEnv = [], m_onScreen = False, m_mainLogSize = 0, m_subLogSize = 0, cout = []\<rparr>"

lemma other_defaults:
  "map_of server_defaults ''tmp_packet'' = Some ''0000''" "map_of server_defaults ''tmp_socket'' = Some ''0000''"
  "map_of server_defaults ''dev_packet'' = Some ''0000''" "map_of server_defaults ''dev_socket'' = Some ''0000''"
  "map_of server_defaults on_screen_key = Some ''1''" "map_of server_defaults server_ip_key = Some ''localhost''"
  "map_of server_defaults db_port_key = Some ''3306''" "map_of server_defaults db_name_key = Some ''yzmon_1551713''"
  "map_of server_defaults db_user_key = Some ''dbuser_1551713''"
  "map_of server_defaults db_password_key = Some ''yzmond.1551713''" "map_of server_defaults listen_key = Some ''41713''"
  by code_simp+

lemma start_without_options:
  "\<exists>l. start_server (Some []) sample_log = Inr (Some (map_of server_defaults, l, 41713))"
proof -
  have p: "server_parse_arguments [] = Inr (map_of server_defaults)"
    by (simp add: server_parse_eq no_entries checks_def)
  have "stoi ''3306'' = Inr 3306" "stoi ''41713'' = Inr 41713" "four_flags ''0000'' = Inr [False, False, False, False]"
    by code_simp+
  then show ?thesis
    using p
    by (simp add: start_server_def start_log_def option_at_def log_size_def stoi_at_def other_defaults number_defaults
        stoi_samples as_int_def log_init_def Let_def)
qed

theorem logs_bounded_witness:
  "\<exists>opts l port. start_server (Some []) sample_log = Inr (Some (opts, l, port)) \<and>
     length (lf_text (m_logStream (fold write_entry [LENV ''started'', LERR ''none''] l))) \<le> 10240 * 1024"
proof -
  obtain l where s: "start_server (Some []) sample_log = Inr (Some (map_of server_defaults, l, 41713))"
    using start_without_options by blast
  have "stoi_at (map_of server_defaults) main_log_key = Inr 10240" "stoi_at (map_of server_defaults) sub_log_key = Inr 1024"
    by (simp_all add: stoi_at_def number_defaults stoi_samples)
  from logs_bounded [OF s this(1) _ this(2), of "[LENV ''started'', LERR ''none'']"] s show ?thesis
    by auto
qed

end
