(* ===== verification/Listener.thy ===== *)
theory Listener
  imports Transfer_Layer Logging
begin

text \<open>
  The socket the server listens on: \<^verbatim>\<open>get_listener\<close> of \<^verbatim>\<open>server/src/transfer.cpp\<close>, the end of \<^verbatim>\<open>main\<close>,
  and the descriptor sets a round hands to \<^verbatim>\<open>select\<close>, which hold 1024 descriptors.
\<close>

section \<open>Opening the socket\<close>

text \<open>What the system calls return, and the calls in the order they are made with what they are given.\<close>

record net_results =
  nr_socket :: int
  nr_setsockopt :: int
  nr_getfl :: int
  nr_bind :: int
  nr_listen :: int

datatype net_call =
    Socket
  | Reuse_Address int
  | Get_Flags int
  | Set_Flags int int
  | Bind int bytes      \<comment> \<open>the two bytes of \<^verbatim>\<open>sin_port\<close> in memory\<close>
  | Listen int int

definition O_NONBLOCK :: int where
  "O_NONBLOCK = 2048"

definition get_listener :: "net_results \<Rightarrow> 16 word \<Rightarrow> int \<times> net_call list" where
  "get_listener r port =
     (let server_fd = nr_socket r; calls = [Socket] in
      if server_fd < 0 then (-1, calls)
      else let calls = calls @ [Reuse_Address server_fd] in
      if nr_setsockopt r < 0 then (-1, calls)
      else let flags = nr_getfl r;
               calls = calls @ [Get_Flags server_fd, Set_Flags server_fd (or flags O_NONBLOCK),
                 Bind server_fd (mem16 (htons port))] in
      if nr_bind r < 0 then (-1, calls)
      else let calls = calls @ [Listen server_fd 10] in
      if nr_listen r < 0 then (-1, calls)
      else (server_fd, calls))"

section \<open>The sets\<close>

definition FD_SETSIZE :: int where
  "FD_SETSIZE = 1024"

text \<open>
  \<^verbatim>\<open>FD_SET\<close> sets a bit of an array of \<^verbatim>\<open>FD_SETSIZE\<close> bits. Outside of 0 to 1023 its behaviour is undefined: above, the
  index leaves the array; for a negative descriptor the index or the shift is negative. Both are
  the fault \<open>Out_Of_Bounds\<close> here.
\<close>

definition FD_SET :: "int \<Rightarrow> int list \<Rightarrow> fault + int list" where
  "FD_SET fd fds = (if 0 \<le> fd \<and> fd < FD_SETSIZE then Inr (fds @ [fd]) else Inl Out_Of_Bounds)"

fun set_all :: "int list \<Rightarrow> int list \<Rightarrow> fault + int list" where
  "set_all [] fds = Inr fds"
| "set_all (fd # rest) fds = and_then (FD_SET fd fds) (set_all rest)"

text \<open>The sets for \<^verbatim>\<open>select\<close> and its first argument.\<close>

definition select_sets :: "int \<Rightarrow> Client list \<Rightarrow> fault + int list \<times> int list \<times> int" where
  "select_sets listener cs =
     (let (rd, wr, fdmax) = reset_rw_fd_sets cs in
      and_then (set_all rd []) (\<lambda>read_fds.
      and_then (set_all wr []) (\<lambda>write_fds.
      and_then (FD_SET listener read_fds) (\<lambda>read_fds.
      Inr (read_fds, write_fds, (if listener > fdmax then listener else fdmax) + 1)))))"

text \<open>A round of the loop with the sets it begins with.\<close>

definition loop_round :: "int \<Rightarrow> round_input \<Rightarrow> Client list \<Rightarrow> Database \<Rightarrow> fault + Client list \<times> Database" where
  "loop_round listener inp cs db = and_then (select_sets listener cs) (\<lambda>_. select_round fsm inp cs db)"

definition descriptors_fit :: "int \<Rightarrow> Client list \<Rightarrow> bool" where
  "descriptors_fit listener cs \<longleftrightarrow> (\<forall>fd \<in> set (listener # map socket_fd cs). 0 \<le> fd \<and> fd < FD_SETSIZE)"

text \<open>
  \<^verbatim>\<open>main\<close>: once the options and the logs are there, the port is narrowed to a \<^verbatim>\<open>short\<close>, and the loop
  begins with whatever \<^verbatim>\<open>get_listener\<close> has returned. \<open>None\<close> is the exit without options or logs.
\<close>

definition enter_loop :: "string option \<Rightarrow> Log \<Rightarrow> net_results \<Rightarrow>
    fault + (Log \<times> net_call list \<times> int list \<times> int list \<times> int) option" where
  "enter_loop ifs l r =
     and_then (start_server ifs l) (\<lambda>started.
     case started of None \<Rightarrow> Inr None
     | Some (opts, l', port) \<Rightarrow>
         (let (listener, calls) = get_listener r (word_of_int port) in
          and_then (select_sets listener []) (\<lambda>(rd, wr, n). Inr (Some (l', calls, rd, wr, n)))))"

section \<open>What is listened on\<close>

lemma byte_values:
  fixes w :: u16
  shows "byte_of 0 w = of_int (uint w mod 256)" "byte_of 1 w = of_int (uint w div 256)"
proof -
  have "uint (byte_of 0 w) = uint w mod 256" "uint (byte_of 1 w) = uint w div 256 mod 256"
    by (simp_all add: byte_of_def unsigned_ucast_eq unsigned_drop_bit_eq drop_bit_eq_div take_bit_eq_mod uint_div)
  moreover have "uint w div 256 mod 256 = uint w div 256"
    using uint_lt2p [of w] by (intro mod_pos_pos_trivial) (simp_all add: pos_imp_zdiv_nonneg_iff)
  ultimately show "byte_of 0 w = of_int (uint w mod 256)" "byte_of 1 w = of_int (uint w div 256)"
    using word_of_int_uint [of "byte_of 0 w"] word_of_int_uint [of "byte_of 1 w"] by simp_all
qed

lemma port_bytes:
  assumes "0 \<le> p" "p < 2 ^ 16"
  shows "mem16 (htons (word_of_int p :: 16 word)) = [of_int (p div 256), of_int (p mod 256)]"
proof -
  have "uint (word_of_int p :: 16 word) = p"
    using assms unfolding uint_word_of_int_eq by (intro take_bit_int_eq_self) simp_all
  then show ?thesis
    using byte_values [of "word_of_int p"] by (simp add: mem16_def)
qed

text \<open>
  C27: when every system call succeeds, the socket the server listens on is bound to the
  port of its options, in the byte order of the network and for every port up to 65535, although the
  number passes through a \<^verbatim>\<open>short\<close>: the default, 41713, is negative there. The flags it had are kept
  and \<^verbatim>\<open>O_NONBLOCK\<close> is added.
\<close>

theorem listener_ready:
  assumes "0 \<le> nr_socket r" "0 \<le> nr_setsockopt r" "0 \<le> nr_bind r" "0 \<le> nr_listen r" "0 \<le> p" "p < 2 ^ 16"
  shows "\<exists>calls flags. get_listener r (word_of_int p) = (nr_socket r, calls) \<and>
    Bind (nr_socket r) [of_int (p div 256), of_int (p mod 256)] \<in> set calls \<and> last calls = Listen (nr_socket r) 10 \<and>
    Set_Flags (nr_socket r) flags \<in> set calls \<and> bit flags 11 \<and> (\<forall>n. bit (nr_getfl r) n \<longrightarrow> bit flags n)"
proof -
  let ?flags = "or (nr_getfl r) O_NONBLOCK"
  have "bit O_NONBLOCK 11"
    unfolding O_NONBLOCK_def by (simp add: bit_iff_odd)
  then have "bit ?flags 11" "\<forall>n. bit (nr_getfl r) n \<longrightarrow> bit ?flags n"
    by (simp_all add: bit_or_iff)
  then show ?thesis
    using assms port_bytes [OF assms(5,6)]
    by (intro exI [of _ "snd (get_listener r (word_of_int p))"] exI [of _ ?flags]) (simp add: get_listener_def Let_def)
qed

theorem listener_ready_witness:
  "\<exists>calls. get_listener \<lparr>nr_socket = 3, nr_setsockopt = 0, nr_getfl = 2, nr_bind = 0, nr_listen = 0\<rparr> (word_of_int 41713) =
     (3, calls) \<and> Bind 3 [162, 241] \<in> set calls"
  using listener_ready [of "\<lparr>nr_socket = 3, nr_setsockopt = 0, nr_getfl = 2, nr_bind = 0, nr_listen = 0\<rparr>" 41713] by auto

lemma listener_failed:
  assumes "nr_socket r < 0 \<or> nr_setsockopt r < 0 \<or> nr_bind r < 0 \<or> nr_listen r < 0"
  shows "fst (get_listener r port) = -1"
  using assms by (auto simp: get_listener_def Let_def)

lemma set_all_eq:
  "set_all fds acc = (if \<forall>fd \<in> set fds. 0 \<le> fd \<and> fd < FD_SETSIZE then Inr (acc @ fds) else Inl Out_Of_Bounds)"
  by (induction fds arbitrary: acc) (auto simp: FD_SET_def)

lemma loop_round_fits: "descriptors_fit listener cs \<Longrightarrow> loop_round listener inp cs db = select_round fsm inp cs db"
  by (auto simp: descriptors_fit_def loop_round_def select_sets_def reset_rw_fd_sets_def set_all_eq FD_SET_def Let_def)

text \<open>
  C38: the sets for \<^verbatim>\<open>select\<close> are written out of bounds exactly when the listening socket or
  the socket of some session is not a descriptor from 0 to 1023. So the server does not survive its
  thousandth client, and when it cannot get its port, \<^verbatim>\<open>main\<close> goes on with the descriptor -1.
\<close>

theorem sets_overflow:
  "(select_sets listener cs = Inl Out_Of_Bounds \<longleftrightarrow>
      (\<exists>fd \<in> insert listener (socket_fd ` set cs). fd < 0 \<or> 1024 \<le> fd)) \<and>
   (start_server ifs l = Inr (Some (opts, l', port)) \<and>
      (nr_socket r < 0 \<or> nr_setsockopt r < 0 \<or> nr_bind r < 0 \<or> nr_listen r < 0) \<longrightarrow>
    enter_loop ifs l r = Inl Out_Of_Bounds)"
proof (intro conjI impI)
  show overflow: "select_sets listener cs = Inl Out_Of_Bounds \<longleftrightarrow>
      (\<exists>fd \<in> insert listener (socket_fd ` set cs). fd < 0 \<or> 1024 \<le> fd)" for listener cs
    by (auto simp: select_sets_def reset_rw_fd_sets_def set_all_eq FD_SET_def FD_SETSIZE_def Let_def not_le)
  assume "start_server ifs l = Inr (Some (opts, l', port)) \<and>
      (nr_socket r < 0 \<or> nr_setsockopt r < 0 \<or> nr_bind r < 0 \<or> nr_listen r < 0)"
  then have s: "start_server ifs l = Inr (Some (opts, l', port))" and "fst (get_listener r (word_of_int port)) = -1"
    using listener_failed by blast+
  then obtain calls where "get_listener r (word_of_int port) = (-1, calls)"
    by (metis prod.collapse)
  moreover have "select_sets (-1) [] = Inl Out_Of_Bounds"
    using overflow [of "-1" "[]"] by simp
  ultimately show "enter_loop ifs l r = Inl Out_Of_Bounds"
    using s by (simp add: enter_loop_def)
qed

theorem sets_overflow_witness:
  "\<exists>l. start_server (Some []) sample_log = Inr (Some (map_of server_defaults, l, 41713)) \<and>
     enter_loop (Some []) sample_log \<lparr>nr_socket = 3, nr_setsockopt = 0, nr_getfl = 2, nr_bind = -1, nr_listen = 0\<rparr> =
       Inl Out_Of_Bounds"
proof -
  obtain l where s: "start_server (Some []) sample_log = Inr (Some (map_of server_defaults, l, 41713))"
    using start_without_options by blast
  show ?thesis
    using sets_overflow [of 0 "[]" "Some []" sample_log "map_of server_defaults" l 41713
        "\<lparr>nr_socket = 3, nr_setsockopt = 0, nr_getfl = 2, nr_bind = -1, nr_listen = 0\<rparr>"] s by auto
qed

end
