(* ===== verification/Many_Conversations.thy ===== *)
theory Many_Conversations
  imports Whole_Conversation Isolation Listener
begin

text \<open>
  The exchange of one client of many. Because sessions do not disturb each other, it is that of a
  client that is alone, and the others are left as they are.
\<close>

section \<open>The exchange of one client among others\<close>

text \<open>What a client is about to take, what it has answered, its state and surroundings.\<close>

type_synonym talker = "bytes option \<times> bytes list \<times> TsClient \<times> world"

text \<open>A round in which only one descriptor is ready.\<close>

definition only :: "int \<Rightarrow> round_input \<Rightarrow> round_input" where
  "only fd inp = inp\<lparr>rd_io := (\<lambda>x. if x = fd then rd_io inp x
     else (rd_io inp x)\<lparr>sk_readable := False, sk_writable := False\<rparr>)\<rparr>"

definition said :: "world \<Rightarrow> world \<Rightarrow> bytes" where
  "said w w1 = concat (drop (length (w_sent w)) (w_sent w1))"

text \<open>The exchange of client \<open>i\<close>, whose session is number \<open>i\<close>; nothing if it has nothing to take.\<close>

definition crowd_exchange ::
  "int \<Rightarrow> env \<Rightarrow> (nat \<Rightarrow> Options) \<Rightarrow> nat \<Rightarrow> talker list \<Rightarrow> Client list \<Rightarrow> Database \<Rightarrow> fault + talker list \<times> Client list \<times> Database" where
  "crowd_exchange listener e opts i ts ss db =
     (case ts ! i of
       (None, l, c, w) \<Rightarrow> Inr (ts, ss, db)
     | (Some m, l, c, w) \<Rightarrow>
         and_then (turn (opts i) c (w\<lparr>w_recv := map Got (pieces m)\<rparr>)) (\<lambda>(_, c1, w1).
         and_then (loop_round listener (only (socket_fd (ss ! i)) (hearing e (said w w1))) ss db) (\<lambda>(ss1, db1).
         case send_buffer (ss1 ! i) of
           [] \<Rightarrow> Inr (ts[i := (None, l @ [m], c1, w1)], ss1, db1)
         | m1 # _ \<Rightarrow>
             and_then (loop_round listener (only (socket_fd (ss ! i)) (speaking e m1)) ss1 db1) (\<lambda>(ss2, db2).
             Inr (ts[i := (Some m1, l @ [m], c1, w1)], ss2, db2)))))"

section \<open>The exchange of a client that is alone\<close>

inductive own_step :: "env \<Rightarrow> Options \<Rightarrow> talker \<times> Client \<Rightarrow> talker \<times> Client \<Rightarrow> bool" for e opts where
  falls_silent:
    "\<lbrakk>turn opts c (w\<lparr>w_recv := map Got (pieces m)\<rparr>) = Inr (ok, c1, w1); alone (hearing e (said w w1)) s s1;
      settled s1; send_buffer s1 = []\<rbrakk> \<Longrightarrow>
     own_step e opts ((Some m, l, c, w), s) ((None, l @ [m], c1, w1), s1)"
| goes_on:
    "\<lbrakk>turn opts c (w\<lparr>w_recv := map Got (pieces m)\<rparr>) = Inr (ok, c1, w1); alone (hearing e (said w w1)) s s1;
      settled s1; send_buffer s1 = m1 # ms; alone (speaking e m1) s1 s2; settled s2\<rbrakk> \<Longrightarrow>
     own_step e opts ((Some m, l, c, w), s) ((Some m1, l @ [m], c1, w1), s2)"

lemma no_accept [simp]: "rd_accept (hearing e bs) = None" "rd_accept (speaking e m) = None" "rd_accept (only fd inp) = rd_accept inp"
  by (simp_all add: hearing_def speaking_def only_def)

lemma only_parts [simp]: "rd_rv (only fd inp) = rd_rv inp" "rd_envs (only fd inp) = rd_envs inp"
  by (simp_all add: only_def)

lemma own_step_keeps:
  "own_step e opts x y \<Longrightarrow> session_inv (snd y) \<and> settled (snd y) \<and> socket_fd (snd y) = socket_fd (snd x)"
  by (induction rule: own_step.induct) (simp_all, (metis alone_fd no_accept)+)

text \<open>A conversation that comes to its end is a series of such exchanges.\<close>

lemma round_leaves_room:
  assumes "select_round fsm inp [s] db = Inr ([s'], db')" "rd_accept inp = None" "session_inv s" "room_for (765 + k) db"
  shows "alone inp s s'" "room_for k db'" "session_inv s'"
proof -
  show a: "alone inp s s'"
    using assms(1,3) room_fewer [OF assms(4), of "765 + 0"] unfolding alone_def by auto
  show "room_for k db'"
    using round_isolated [of inp "[s]" "[s']" k db] a assms by auto
  show "session_inv s'"
    using alone_fd(2) [OF a assms(2)] .
qed

lemma conversation_steps:
  "\<lbrakk>conversation e opts n l m (c, w, [s], db) = Inr (None, l', c', w', [s'], db'); session_inv s;
    room_for (1530 * n) db\<rbrakk> \<Longrightarrow>
   \<exists>k \<le> n. (own_step e opts ^^ k) ((Some m, l, c, w), s) ((None, l', c', w'), s')"
proof (induction n arbitrary: l m c w s db)
  case (Suc n)
  obtain ok c1 w1 ss1 db1 where t: "turn opts c (w\<lparr>w_recv := map Got (pieces m)\<rparr>) = Inr (ok, c1, w1)"
    and hear: "select_round fsm (hearing e (said w w1)) [s] db = Inr (ss1, db1)" and quiet: "list_all settled ss1"
    and rest: "(case next_message ss1 of None \<Rightarrow> Inr (None, l @ [m], c1, w1, ss1, db1)
      | Some m1 \<Rightarrow> and_then (select_round fsm (speaking e m1) ss1 db1) (\<lambda>(ss2, db2).
         conversation e opts n (l @ [m]) m1 (c1, w1, ss2, db2))) = Inr (None, l', c', w', [s'], db')"
    using Suc.prems(1) by (auto simp: conversation.simps(2) and_then_eq_Inr_iff said_def split: if_splits)
  have room: "room_for (765 + (765 + 1530 * n)) db"
    using Suc.prems(3) by simp
  show ?case
  proof (cases "next_message ss1")
    case None
    then have "ss1 = [s']" "l' = l @ [m]" "c' = c1" "w' = w1"
      using rest by simp_all
    moreover from this None have "send_buffer s' = []"
      by (simp split: list.splits)
    ultimately have "own_step e opts ((Some m, l, c, w), s) ((None, l', c', w'), s')"
      using t hear quiet round_leaves_room(1) [of "hearing e (said w w1)" s db s' db1, OF _ _ Suc.prems(2) room]
      by (auto simp: hearing_def intro!: falls_silent)
    then have "(own_step e opts ^^ Suc 0) ((Some m, l, c, w), s) ((None, l', c', w'), s')"
      by (simp add: eq_OO)
    then show ?thesis
      by blast
  next
    case (Some m1)
    then obtain s1 ms where s1: "ss1 = [s1]" "send_buffer s1 = m1 # ms"
      by (cases ss1 rule: next_message.cases) (auto split: list.splits)
    have h: "alone (hearing e (said w w1)) s s1" "room_for (765 + 1530 * n) db1" "session_inv s1" "settled s1"
      using round_leaves_room [of "hearing e (said w w1)" s db s1 db1, OF _ _ Suc.prems(2) room] hear quiet s1(1)
      by (simp_all add: hearing_def)
    let ?s2 = "s1\<lparr>send_buffer := ms\<rparr>"
    have "m1 \<noteq> []"
      using h(3) s1(2) by (auto simp: session_inv_def)
    note speak = settled_speaks [OF h(4) s1(2) this, of e db1]
    have p: "alone (speaking e m1) s1 ?s2" "room_for (1530 * n) db1" "session_inv ?s2" "settled ?s2"
      using round_leaves_room [OF speak _ h(3,2)] h(4) by (simp_all add: speaking_def settled_def)
    have "conversation e opts n (l @ [m]) m1 (c1, w1, [?s2], db1) = Inr (None, l', c', w', [s'], db')"
      using rest Some s1(1) speak by simp
    from Suc.IH [OF this p(3,2)] obtain k where k: "k \<le> n"
        "(own_step e opts ^^ k) ((Some m1, l @ [m], c1, w1), ?s2) ((None, l', c', w'), s')"
      by blast
    have "own_step e opts ((Some m, l, c, w), s) ((Some m1, l @ [m], c1, w1), ?s2)"
      by (rule goes_on [OF t h(1,4) s1(2) p(1,4)])
    then have "(own_step e opts ^^ Suc k) ((Some m, l, c, w), s) ((None, l', c', w'), s')"
      using k(2) by (rule relpowp_Suc_I2)
    then show ?thesis
      using k(1) by blast
  qed
qed simp

section \<open>The exchange of one client among others\<close>

lemma only_same:
  assumes "socket_fd s = fd" "rd_accept inp = None"
  shows "alone (only fd inp) s s' \<longleftrightarrow> alone inp s s'"
proof -
  have "first_half (only fd inp) s db = first_half inp s db" for db
    using assms(1) by (simp add: first_half_def only_def watched_def)
  then have "select_round fsm (only fd inp) [s] db = select_round fsm inp [s] db" for db
    using assms by (simp add: round_alone cong: served.case_cong)
  then show ?thesis
    by (simp add: alone_def)
qed

lemma only_others:
  assumes "socket_fd s \<noteq> fd" "rd_accept inp = None" "session_inv s" "settled s" "room_for 765 d"
  shows "alone (only fd inp) s s"
proof -
  have "first_half (only fd inp) s d = Inr (Kept s, d)"
    using assms(1) by (simp add: first_half_def only_def watched_def serve_def finish_serve_def Let_def split: prod.splits)
  then have "select_round fsm (only fd inp) [s] d = Inr ([s], d)"
    using assms(2,4) by (simp add: round_alone nudge_def settled_def)
  then show ?thesis
    using assms(3,5) unfolding alone_def by auto
qed

lemma only_round:
  assumes "alone inp (ss ! i) s1" "i < length ss" "\<forall>s \<in> set ss. session_inv s \<and> settled s"
    and "distinct (map socket_fd ss)" "rd_accept inp = None" "descriptors_fit listener ss" "room_for (765 * length ss + k) db"
  shows "\<exists>db'. loop_round listener (only (socket_fd (ss ! i)) inp) ss db = Inr (ss[i := s1], db') \<and> room_for k db'"
proof -
  let ?inp = "only (socket_fd (ss ! i)) inp"
  have room: "room_for 765 db"
    using assms(2) by (intro room_fewer [OF assms(7)]) (cases ss; simp)
  have "alone ?inp (ss ! j) (ss[i := s1] ! j)" if "j < length ss" for j
  proof (cases "j = i")
    case True
    then show ?thesis
      using only_same assms(1,2,5) by simp
  next
    case False
    then have "socket_fd (ss ! j) \<noteq> socket_fd (ss ! i)"
      using assms(2,4) that by (auto simp: distinct_conv_nth)
    then show ?thesis
      using only_others [OF _ assms(5) _ _ room] assms(3) that False by simp
  qed
  then have "list_all2 (alone ?inp) ss (ss[i := s1])"
    by (simp add: list_all2_conv_all_nth)
  then show ?thesis
    using round_isolated [OF _ _ assms(4,7)] assms(5) by (simp add: loop_round_fits [OF assms(6)])
qed

lemma others_kept:
  assumes "\<forall>s \<in> set ss. session_inv s \<and> settled s" "session_inv s'" "settled s'" "socket_fd s' = socket_fd (ss ! i)" "i < length ss"
  shows "\<forall>s \<in> set (ss[i := s']). session_inv s \<and> settled s" "map socket_fd (ss[i := s']) = map socket_fd ss"
  using assms by (auto dest!: set_update_subset_insert [THEN subsetD]) (simp add: map_update list_update_same_conv)

lemma fits_same: "map socket_fd ss' = map socket_fd ss \<Longrightarrow> descriptors_fit listener ss' \<longleftrightarrow> descriptors_fit listener ss"
  by (simp add: descriptors_fit_def)

lemma crowd_step:
  assumes "own_step e (opts i) (ts ! i, ss ! i) y" "i < length ss" "\<forall>s \<in> set ss. session_inv s \<and> settled s"
    and "distinct (map socket_fd ss)" "descriptors_fit listener ss" "room_for (1530 * length ss + k) db"
  shows "\<exists>db'. crowd_exchange listener e opts i ts ss db = Inr (ts[i := fst y], ss[i := snd y], db') \<and> room_for k db'"
  using assms(1)
proof (cases rule: own_step.cases)
  case (falls_silent c m w ok c1 w1 s1 l)
  have "room_for (765 * length ss + k) db"
    by (rule room_fewer [OF assms(6)]) simp
  then show ?thesis
    using falls_silent only_round [of _ ss i, OF _ assms(2,3,4) _ assms(5)] assms(2)
    by (force simp: crowd_exchange_def)
next
  case (goes_on c m w ok c1 w1 s1 m1 ms s2 l)
  have room: "room_for (765 * length ss + (765 * length ss + k)) db"
    by (rule room_fewer [OF assms(6)]) simp
  have a: "alone (hearing e (said w w1)) (ss ! i) s1" "alone (speaking e m1) s1 s2"
    using goes_on by simp_all
  obtain db1 where 1: "loop_round listener (only (socket_fd (ss ! i)) (hearing e (said w w1))) ss db = Inr (ss[i := s1], db1)"
      "room_for (765 * length ss + k) db1"
    using only_round [OF a(1) assms(2,3,4) _ assms(5) room] by auto
  have s1: "session_inv s1" "socket_fd s1 = socket_fd (ss ! i)"
    using alone_fd [OF a(1)] assms(2,3) by auto
  note o = others_kept [OF assms(3) s1(1) goes_on(5) s1(2) assms(2)]
  obtain db2 where "loop_round listener (only (socket_fd (ss ! i)) (speaking e m1)) (ss[i := s1]) db1 = Inr (ss[i := s2], db2)"
      "room_for k db2"
    using only_round [of "speaking e m1" "ss[i := s1]" i s2 listener k db1] a(2) o assms(2,4) s1(2) 1(2)
      fits_same [OF o(2)] assms(5) by auto
  then show ?thesis
    using 1 goes_on assms(2) by (force simp: crowd_exchange_def)
qed

section \<open>What is still to be done\<close>

text \<open>\<open>due e opts n x y\<close>: from \<open>x\<close> at most \<open>n\<close> exchanges lead to \<open>y\<close>, where nobody has anything to say.\<close>

definition due :: "env \<Rightarrow> Options \<Rightarrow> nat \<Rightarrow> talker \<times> Client \<Rightarrow> talker \<times> Client \<Rightarrow> bool" where
  "due e opts n x y \<longleftrightarrow> fst (fst y) = None \<and> (\<exists>k \<le> n. (own_step e opts ^^ k) x y)"

lemma due_silent:
  assumes "due e opts n x y" "fst (fst x) = None"
  shows "y = x" "due e opts m x y"
proof -
  obtain k where k: "(own_step e opts ^^ k) x y" "fst (fst y) = None"
    using assms(1) by (auto simp: due_def)
  have "k = 0"
  proof (rule ccontr)
    assume "k \<noteq> 0"
    then obtain z where "own_step e opts x z"
      using k(1) by (metis not0_implies_Suc relpowp_Suc_E2)
    then show False
      using assms(2) by (auto elim: own_step.cases)
  qed
  then show "y = x" "due e opts m x y"
    using k unfolding due_def by (auto intro: exI [of _ 0])
qed

lemma due_over: "due e opts 0 x y \<Longrightarrow> y = x"
  by (simp add: due_def)

lemma due_more: "due e opts n x y \<Longrightarrow> n \<le> m \<Longrightarrow> due e opts m x y"
  unfolding due_def by (meson le_trans)

lemma due_step:
  assumes "due e opts (Suc n) x y" "fst (fst x) \<noteq> None"
  obtains x' where "own_step e opts x x'" "due e opts n x' y"
proof -
  obtain k where k: "k \<le> Suc n" "(own_step e opts ^^ k) x y" "fst (fst y) = None"
    using assms(1) by (auto simp: due_def)
  have "k \<noteq> 0"
    using k(2,3) assms(2) by (metis relpowp_0_E)
  then obtain j where j: "k = Suc j"
    by (cases k) auto
  obtain x' where "own_step e opts x x'" "(own_step e opts ^^ j) x' y"
    using k(2) unfolding j by (rule relpowp_Suc_E2)
  then show thesis
    using that [of x'] k(1,3) unfolding due_def j by (meson Suc_le_mono)
qed

text \<open>Of a client that is alone it is known how its conversation ends.\<close>

lemma due_outcome:
  assumes "able opts 260 c (seed_by_time w)" "listening s" "state s = WaitAuth" "send_buffer s = []"
    and "frees_lazily e" "lucky e"
  shows "\<exists>reqs c' w' s'. due e opts 260 ((Some (auth_request e' a b), [], c, seed_by_time w), s) ((None, reqs, c', w'), s') \<and>
    comes_to opts (auth_request e' a b) c w reqs c' w' s'"
proof -
  let ?db = "sample_db (1530 * 260)"
  have db: "ready 65000 ?db" "global_number ?db + 65000 < 2 ^ 31" "room_for (1530 * 260) ?db"
    using ready_more [of "1530 * 260" ?db 65000] by (simp_all add: room_for_def) (simp_all add: sample_db_def)
  obtain reqs c' w' s' db' where o: "comes_to opts (auth_request e' a b) c w reqs c' w' s'"
      "\<forall>j \<ge> 260. conversation e opts j [] (auth_request e' a b) (c, seed_by_time w, [s], ?db) =
        Inr (None, reqs, c', w', [s'], db')"
    using conversation_comes_out [OF assms(1-4) db(1,2) assms(5,6)] by blast
  have "session_inv s"
    using assms(2) by (simp add: listening_def)
  then obtain k where "k \<le> 260" "(own_step e opts ^^ k) ((Some (auth_request e' a b), [], c, seed_by_time w), s)
      ((None, reqs, c', w'), s')"
    using conversation_steps [of e opts 260 "[]" "auth_request e' a b" c "seed_by_time w" s ?db reqs c' w' s' db'] o(2) db(3)
    by auto
  then show ?thesis
    using o(1) unfolding due_def by (metis fst_conv)
qed

end
