(* ===== verification/Whole_Program.thy ===== *)
theory Whole_Program
  imports Many_Conversations
begin

text \<open>
  The server from its start to the end of every conversation: it reads its options, opens its socket,
  accepts the clients that connect, greets them and talks to them, all at once, under the conditions of
  \<open>frees_lazily\<close> and \<open>lucky\<close> on undefined memory.
\<close>

section \<open>Connections\<close>

text \<open>A round in which a client connects and nothing else happens.\<close>

definition arriving :: "env \<Rightarrow> accepted \<Rightarrow> round_input" where
  "arriving e a = \<lparr>rd_rv = 1, rd_io = (\<lambda>_. \<lparr>sk_readable = False, sk_recv = [], sk_writable = False,
     sk_send = 0, sk_env = e\<rparr>), rd_accept = Some (Some a), rd_envs = (\<lambda>_ _. e)\<rparr>"

text \<open>
  A client that is going to connect: the surroundings of the call that greets it, what \<^verbatim>\<open>accept\<close>
  returns, its state and its surroundings.
\<close>

record caller =
  at_env :: env
  at_socket :: accepted
  at_client :: TsClient
  at_world :: world

text \<open>What may happen: a client connects, or one that has connected has an exchange with the server.\<close>

datatype event = Connects caller | Talks nat

text \<open>
  Events in any order. In the round after it was accepted a client is sent what has been queued for
  it. The options of the server are those in \<open>e\<close>.
\<close>

fun happens :: "int \<Rightarrow> env \<Rightarrow> (nat \<Rightarrow> Options) \<Rightarrow> event list \<Rightarrow> talker list \<Rightarrow> Client list \<Rightarrow> Database \<Rightarrow>
    fault + talker list \<times> Client list \<times> Database" where
  "happens listener e opts [] ts ss db = Inr (ts, ss, db)"
| "happens listener e opts (Connects x # evs) ts ss db =
     (let e1 = (at_env x)\<lparr>opt := opt e\<rparr>; a = at_socket x in
      and_then (loop_round listener (arriving e1 a) ss db) (\<lambda>(ss1, db1).
      case send_buffer (last ss1) of
        [] \<Rightarrow> Inr (ts, ss1, db1)
      | m # _ \<Rightarrow>
          and_then (loop_round listener (only (ac_fd a) (speaking e1 m)) ss1 db1) (\<lambda>(ss2, db2).
          happens listener e opts evs (ts @ [(Some m, [], at_client x, seed_by_time (at_world x))]) ss2 db2)))"
| "happens listener e opts (Talks i # evs) ts ss db =
     (if i < length ts
      then and_then (crowd_exchange listener e opts i ts ss db) (\<lambda>(ts1, ss1, db1). happens listener e opts evs ts1 ss1 db1)
      else happens listener e opts evs ts ss db)"

definition server_run ::
  "string option \<Rightarrow> Log \<Rightarrow> net_results \<Rightarrow> env \<Rightarrow> (nat \<Rightarrow> Options) \<Rightarrow> event list \<Rightarrow> Database \<Rightarrow>
   fault + (talker list \<times> Client list \<times> Database) option" where
  "server_run ifs l r e opts evs db =
     and_then (start_server ifs l) (\<lambda>started. case started of
       None \<Rightarrow> Inr None
     | Some (conf, l', port) \<Rightarrow>
         (let (listener, calls) = get_listener r (word_of_int port) in
          and_then (happens listener (e\<lparr>opt := conf\<rparr>) opts evs [] [] db) (\<lambda>result. Inr (Some result))))"

text \<open>The clients that connect, and how often client \<open>i\<close> has its turn after that, when \<open>n\<close> have connected before.\<close>

fun callers :: "event list \<Rightarrow> caller list" where
  "callers [] = []"
| "callers (Connects x # evs) = x # callers evs"
| "callers (Talks i # evs) = callers evs"

fun turns :: "nat \<Rightarrow> event list \<Rightarrow> nat \<Rightarrow> nat" where
  "turns n [] i = 0"
| "turns n (Connects x # evs) i = turns (Suc n) evs i"
| "turns n (Talks j # evs) i = (if j = i \<and> i < n then Suc (turns n evs i) else turns n evs i)"

section \<open>Accepting and greeting\<close>

lemma serve_all_idle:
  assumes "\<And>fd. \<not> sk_readable (socks fd)" "\<And>fd. \<not> sk_writable (socks fd)"
  shows "serve_all step socks done cs db = Inr (done @ cs, db)"
  using assms by (induction cs arbitrary: "done") (simp_all add: serve_def finish_serve_def)

lemma nudge_all_settled:
  "\<forall>s \<in> set ss. settled s \<Longrightarrow> nudge_all fsm envs (ss @ ss') db = and_then (nudge_all fsm envs ss' db) (\<lambda>(ss1, db1). Inr (ss @ ss1, db1))"
proof (induction ss)
  case (Cons s ss)
  then show ?case
    by (cases "nudge_all fsm envs ss' db") (auto simp: nudge_def settled_def)
qed (auto simp: and_then_def split: sum.split)

definition newcomer :: "env \<Rightarrow> u16 \<Rightarrow> u16 \<Rightarrow> accepted \<Rightarrow> Client" where
  "newcomer e g1 g2 a = (push_message (auth_request e g1 g2)
     ((new_client (ac_uninit a) (ac_fresh a) (ac_fd a) kRecvBufferSize)\<lparr>ipaddr := ac_ip a\<rparr>))\<lparr>state := WaitAuth\<rparr>"

lemma greeting_not_empty: "auth_request e a b \<noteq> []"
  by (simp add: auth_request_eq request_bytes_def message_def Let_def)

lemma newcomer_fields:
  "socket_fd (newcomer e g1 g2 a) = ac_fd a" "state (newcomer e g1 g2 a) = WaitAuth"
  "send_buffer (newcomer e g1 g2 a) = [auth_request e g1 g2]" "listening (newcomer e g1 g2 a)"
proof -
  have "session_inv (new_client (ac_uninit a) (ac_fresh a) (ac_fd a) kRecvBufferSize)"
    by (rule session_inv_new) (simp_all add: kRecvBufferSize_def kMaxPacketLength_def)
  then show "listening (newcomer e g1 g2 a)"
    using greeting_not_empty [of e g1 g2]
    by (simp add: newcomer_def listening_def session_inv_def tally_def push_message_def new_client_def)
qed (simp_all add: newcomer_def push_message_def new_client_def)

lemma arriving_round:
  assumes "\<forall>s \<in> set ss. settled s" "opt_u16 e connect_gap_key = Inr g1" "opt_u16 e sample_gap_key = Inr g2"
  shows "select_round fsm (arriving e a) ss db = Inr (ss @ [newcomer e g1 g2 a], db)"
proof -
  let ?n = "(new_client (ac_uninit a) (ac_fresh a) (ac_fd a) kRecvBufferSize)\<lparr>ipaddr := ac_ip a\<rparr>"
  have f: "fsm e ?n db = Inr (True, newcomer e g1 g2 a, db)"
    using assms(2,3) by (simp add: fsm_def on_acceptance_def newcomer_def)
  have "\<not> is_scr (newcomer e g1 g2 a)"
    using listening_is_scr [OF newcomer_fields(4)] .
  then have "nudge fsm (\<lambda>_. e) ?n db = Inr (newcomer e g1 g2 a, db)"
    using f by (simp add: nudge_def)
  then have "nudge_all fsm (\<lambda>_ _. e) (ss @ [?n]) db = Inr (ss @ [newcomer e g1 g2 a], db)"
    using nudge_all_settled [OF assms(1)] by simp
  moreover have "serve_all fsm (watched ss (rd_io (arriving e a))) [] ss db = Inr ([] @ ss, db)"
    by (rule serve_all_idle) (simp_all add: watched_def arriving_def Let_def split: prod.splits)
  ultimately show ?thesis
    by (simp add: select_round_def arriving_def accept_new_client_def)
qed

text \<open>How a client and its session begin.\<close>

definition start :: "env \<Rightarrow> u16 \<Rightarrow> u16 \<Rightarrow> caller \<Rightarrow> talker \<times> Client" where
  "start e g1 g2 x =
     (let e1 = (at_env x)\<lparr>opt := opt e\<rparr> in
      ((Some (auth_request e1 g1 g2), [], at_client x, seed_by_time (at_world x)),
       (newcomer e1 g1 g2 (at_socket x))\<lparr>send_buffer := []\<rparr>))"

abbreviation caller_fd :: "caller \<Rightarrow> int" where
  "caller_fd x \<equiv> ac_fd (at_socket x)"

lemma start_session:
  "socket_fd (snd (start e g1 g2 x)) = caller_fd x" "listening (snd (start e g1 g2 x))"
  "state (snd (start e g1 g2 x)) = WaitAuth" "send_buffer (snd (start e g1 g2 x)) = []"
  using server_speaks(2) [OF newcomer_fields(4,3)] newcomer_fields by (simp_all add: start_def Let_def)

definition greets :: "env \<Rightarrow> u16 \<Rightarrow> u16 \<Rightarrow> bool" where
  "greets e g1 g2 \<longleftrightarrow> opt_u16 e connect_gap_key = Inr g1 \<and> opt_u16 e sample_gap_key = Inr g2"

lemma greets_same: "greets e g1 g2 \<Longrightarrow> greets (e1\<lparr>opt := opt e\<rparr>) g1 g2"
  by (simp add: greets_def opt_u16_def opt_at_def)

text \<open>Sessions that have nothing to do unless they are spoken to, with sockets that fit into the sets.\<close>

definition calm :: "int \<Rightarrow> Client list \<Rightarrow> caller list \<Rightarrow> bool" where
  "calm listener ss xs \<longleftrightarrow> (\<forall>s \<in> set ss. session_inv s \<and> settled s) \<and>
     (let fds = map socket_fd ss @ map caller_fd xs
      in distinct fds \<and> (\<forall>fd \<in> set (listener # fds). 0 \<le> fd \<and> fd < FD_SETSIZE))"

lemma calmD:
  assumes "calm listener ss xs"
  shows "\<forall>s \<in> set ss. session_inv s \<and> settled s" "distinct (map socket_fd ss)" "descriptors_fit listener ss"
  using assms by (auto simp: calm_def descriptors_fit_def Let_def)

lemma calm_connects:
  assumes "calm listener ss (x # xs)"
  shows "calm listener (ss @ [snd (start e g1 g2 x)]) xs"
  using assms start_session [of e g1 g2 x] listening_settled [OF start_session(2) [of e g1 g2 x]]
  by (auto simp: calm_def Let_def listening_def)

lemma connects:
  assumes "calm listener ss (x # xs)" "greets e g1 g2" "room_for (765 * Suc (length ss) + k) db"
  obtains db1 where "room_for k db1"
    "\<And>evs ts. happens listener e opts (Connects x # evs) ts ss db =
       happens listener e opts evs (ts @ [fst (start e g1 g2 x)]) (ss @ [snd (start e g1 g2 x)]) db1"
proof -
  let ?e = "(at_env x)\<lparr>opt := opt e\<rparr>" and ?a = "at_socket x"
  let ?g = "newcomer ?e g1 g2 ?a" and ?m = "auth_request ?e g1 g2"
  let ?s = "?g\<lparr>send_buffer := []\<rparr>" and ?ss = "ss @ [?g]"
  note ss = calmD [OF assms(1)]
  have inv: "session_inv ?g" "settled ?g"
    using newcomer_fields(4) listening_settled by (auto simp: listening_def)
  have "opt_u16 ?e connect_gap_key = Inr g1" "opt_u16 ?e sample_gap_key = Inr g2"
    using greets_same [OF assms(2)] by (simp_all add: greets_def)
  then have 1: "loop_round listener (arriving ?e ?a) ss db = Inr (?ss, db)"
    using arriving_round ss(1) by (simp add: loop_round_fits [OF ss(3)])
  have "room_for 765 db"
    by (rule room_fewer [OF assms(3)]) simp
  then have alone: "alone (speaking ?e ?m) (?ss ! length ss) ?s"
    using settled_speaks [OF inv(2) newcomer_fields(3) greeting_not_empty, of ?e db] inv(1) unfolding alone_def by auto
  have "\<forall>s \<in> set ?ss. session_inv s \<and> settled s" "distinct (map socket_fd ?ss)" "descriptors_fit listener ?ss"
    using ss(1) inv assms(1) newcomer_fields(1) by (auto simp: calm_def descriptors_fit_def Let_def)
  from only_round [OF alone _ this(1,2) _ this(3), of k db] obtain db1 where
    "loop_round listener (only (ac_fd ?a) (speaking ?e ?m)) ?ss db = Inr (ss @ [?s], db1)" "room_for k db1"
    using assms(3) newcomer_fields(1) by auto
  then show thesis
    using that 1 newcomer_fields(3) by (simp add: start_def Let_def)
qed

section \<open>Everything that happens\<close>

text \<open>
  If each client has its turn at least as often as it needs it, all conversations end as they do
  alone. Every event costs at most two rounds.
\<close>

lemma happens_ends:
  "\<lbrakk>\<forall>i < length fs. due e (opts i) (turns (length ts) evs i) ((zip ts ss @ map (start e g1 g2) (callers evs)) ! i) (fs ! i);
    length ts = length ss; length fs = length ss + length (callers evs); calm listener ss (callers evs); greets e g1 g2;
    room_for (1530 * length fs * length evs) db\<rbrakk> \<Longrightarrow>
   \<exists>db'. happens listener e opts evs ts ss db = Inr (map fst fs, map snd fs, db')"
proof (induction evs arbitrary: ts ss db)
  case Nil
  then have "\<forall>i < length fs. fs ! i = zip ts ss ! i"
    by simp (blast intro: due_over)
  then have "fs = zip ts ss"
    using Nil(2,3) by (simp add: list_eq_iff_nth_eq)
  then show ?case
    using Nil(2) by simp
next
  case (Cons ev evs)
  let ?N = "length fs" and ?k = "1530 * length fs * length evs"
  have room: "room_for (1530 * ?N + ?k) db"
    using Cons.prems(6) by simp
  show ?case
  proof (cases ev)
    case (Connects x)
    have "calm listener ss (x # callers evs)" "765 * Suc (length ss) \<le> 1530 * ?N"
      using Cons.prems(3,4) Connects by simp_all
    moreover from this(2) have "room_for (765 * Suc (length ss) + ?k) db"
      by (intro room_fewer [OF room]) simp
    ultimately obtain db1 where 1: "room_for ?k db1"
        "happens listener e opts (ev # evs) ts ss db =
           happens listener e opts evs (ts @ [fst (start e g1 g2 x)]) (ss @ [snd (start e g1 g2 x)]) db1"
      using connects [OF _ Cons.prems(5), of listener ss x "callers evs" ?k db] unfolding Connects by blast
    show ?thesis
      using Cons.IH [of "ts @ [fst (start e g1 g2 x)]" "ss @ [snd (start e g1 g2 x)]" db1] Cons.prems(1-5) 1 Connects
        calm_connects [of listener ss x "callers evs"] by simp
  next
    case (Talks i)
    have less: "room_for ?k db"
      by (rule room_fewer [OF room]) simp
    show ?thesis
    proof (cases "i < length ts")
      case False
      then have "turns (length ts) (ev # evs) = turns (length ts) evs"
        using Talks by (auto simp: fun_eq_iff)
      with False show ?thesis
        using Cons.IH [of ts ss db] Cons.prems(1-5) less Talks by simp
    next
      case True
      then have i: "i < length ts" "i < length ss" "i < ?N"
        using Cons.prems(2,3) by simp_all
      let ?xs = "zip ts ss @ map (start e g1 g2) (callers evs)" and ?n = "turns (length ts) evs"
      have xi: "?xs ! i = (ts ! i, ss ! i)"
        using i by (simp add: nth_append)
      have due: "due e (opts j) (if j = i then Suc (?n j) else ?n j) (?xs ! j) (fs ! j)" if "j < ?N" for j
        using Cons.prems(1) that True unfolding Talks by (auto split: if_splits)
      show ?thesis
      proof (cases "fst (ts ! i)")
        case None
        then have "crowd_exchange listener e opts i ts ss db = Inr (ts, ss, db)"
          by (cases "ts ! i") (simp add: crowd_exchange_def)
        moreover have "due e (opts j) (?n j) (?xs ! j) (fs ! j)" if "j < ?N" for j
          using due [OF that] due_silent(2) [of e "opts i" _ "?xs ! i"] None xi by (cases "j = i") auto
        ultimately show ?thesis
          using Cons.IH [of ts ss db] Cons.prems(2-5) less Talks True by simp
      next
        case (Some m)
        have "due e (opts i) (Suc (?n i)) (ts ! i, ss ! i) (fs ! i)"
          using due [OF i(3)] xi by simp
        then obtain y where y: "own_step e (opts i) (ts ! i, ss ! i) y" "due e (opts i) (?n i) y (fs ! i)"
          by (rule due_step) (simp add: Some, rule that)
        note calm = calmD [OF Cons.prems(4)]
        have "room_for (1530 * length ss + ?k) db"
          using Cons.prems(3) by (intro room_fewer [OF room]) simp
        from crowd_step [of e opts i ts ss y, OF y(1) i(2) calm this] obtain db1 where
          1: "crowd_exchange listener e opts i ts ss db = Inr (ts[i := fst y], ss[i := snd y], db1)" "room_for ?k db1"
          by blast
        have y_inv: "session_inv (snd y)" "settled (snd y)" "socket_fd (snd y) = socket_fd (ss ! i)"
          using own_step_keeps [OF y(1)] calm(1) i(2) by auto
        note kept = others_kept [OF calm(1) y_inv i(2)]
        have "zip (ts[i := fst y]) (ss[i := snd y]) @ map (start e g1 g2) (callers evs) = ?xs[i := y]"
          using i Cons.prems(2) by (simp add: update_zip [symmetric] list_update_append1)
        moreover have "due e (opts j) (?n j) (?xs[i := y] ! j) (fs ! j)" if "j < ?N" for j
          using due [OF that] y(2) i Cons.prems(2,3) that Talks by (cases "j = i") simp_all
        moreover have "calm listener (ss[i := snd y]) (callers evs)"
          using Cons.prems(4) kept unfolding calm_def Talks by simp
        ultimately show ?thesis
          using Cons.IH [of "ts[i := fst y]" "ss[i := snd y]" db1] Cons.prems(2-5) 1 Talks True by simp
      qed
    qed
  qed
qed

section \<open>From the start to the end\<close>

text \<open>The options of a server that has started hold the two intervals it announces.\<close>

lemma announced_intervals:
  assumes "start_server ifs l = Inr (Some (conf, l', port))"
  obtains i j where "5 \<le> i" "i \<le> 600" "15 \<le> j" "j \<le> 3600"
    "\<And>e. opt_u16 (e\<lparr>opt := conf\<rparr>) connect_gap_key = Inr (htons (word_of_int i))"
    "\<And>e. opt_u16 (e\<lparr>opt := conf\<rparr>) sample_gap_key = Inr (htons (word_of_int j))"
proof -
  obtain str where "server_parse_arguments str = Inr conf"
    using assms by (auto simp: start_server_def and_then_eq_Inr_iff split: option.splits if_splits)
  from option_ranges(1,2) [OF this] obtain i j where "stoi_at conf connect_gap_key = Inr i" "5 \<le> i" "i \<le> 600"
      "stoi_at conf sample_gap_key = Inr j" "15 \<le> j" "j \<le> 3600"
    by (auto simp: in_range_def)
  then show thesis
    by (intro that [of i j]) (auto simp: stoi_at_def opt_u16_def opt_at_def split: option.splits)
qed


lemma sample_global: "global_number (sample_db n) = 0"
  by (simp add: sample_db_def)

lemma callers_append [simp]: "callers (xs @ ys) = callers xs @ callers ys"
  by (induction xs rule: callers.induct) simp_all

lemma turns_append: "turns n (xs @ ys) i = turns n xs i + turns (n + length (callers xs)) ys i"
  by (induction xs arbitrary: n rule: callers.induct) auto

text \<open>The second client connects when the first has had its turn twice; then they take turns.\<close>

definition sample_caller :: "int \<Rightarrow> caller" where
  "sample_caller fd = \<lparr>at_env = sample_env, at_socket = \<lparr>ac_fd = fd, ac_ip = ''127.0.0.1'', ac_fresh = (\<lambda>_. 0),
     ac_uninit = sample_client Ended []\<rparr>, at_client = sample_ts, at_world = furnished_world\<lparr>w_send := replicate 520 int\<rparr>\<rparr>"

definition sample_events :: "event list" where
  "sample_events = [Connects (sample_caller 5), Talks 0, Talks 0, Connects (sample_caller 6)] @
     concat (replicate 260 [Talks 1, Talks 0])"

lemma taking_turns:
  "callers (concat (replicate n [Talks 1, Talks 0])) = []" "turns 2 (concat (replicate n [Talks 1, Talks 0])) 0 = n"
  "turns 2 (concat (replicate n [Talks 1, Talks 0])) 1 = n" "length (concat (replicate n [Talks 1, Talks 0])) = 2 * n"
  by (induction n) simp_all

lemma sample_events:
  "callers sample_events = [sample_caller 5, sample_caller 6]" "turns 0 sample_events 0 = 262"
  "turns 0 sample_events 1 = 260" "length sample_events = 524"
  using taking_turns [of 260] by (simp_all add: sample_events_def turns_append numeral_2_eq_2)


end
