(* ===== verification/Tee_Stream.thy ===== *)
theory Tee_Stream
  imports Logging
begin

text \<open>
  \<^verbatim>\<open>TeeBuf\<close> and \<^verbatim>\<open>TeeStream\<close> of \<^verbatim>\<open>server/src/log.cpp\<close> (\<^verbatim>\<open>client/log.cpp\<close> has the same text): a
  stream whose characters go to the screen and to a file. What the C++ library promises of a
  \<^verbatim>\<open>streambuf\<close> is a locale, of which the screen, the file and the tee of both are interpretations.
\<close>

section \<open>What a \<^verbatim>\<open>streambuf\<close> promises\<close>

definition EOF :: int where
  "EOF = - 1"

text \<open>The characters of a \<^verbatim>\<open>char\<close> as \<^verbatim>\<open>int\<close>, the way \<^verbatim>\<open>sputc\<close> is handed them.\<close>

definition char_code :: "char \<Rightarrow> int" where
  "char_code ch = int (of_char ch)"

lemma char_code_not_EOF [simp]: "char_code ch \<noteq> EOF" "EOF \<noteq> char_code ch"
  by (simp_all add: EOF_def char_code_def)

text \<open>
  \<^verbatim>\<open>sputc\<close> takes a character, which changes what is seen of the buffer by \<open>put\<close>, and returns it, or
  takes nothing and returns \<open>EOF\<close>.
\<close>

locale stream_buffer =
  fixes sputc :: "int \<Rightarrow> 's \<Rightarrow> int \<times> 's"
    and seen :: "'s \<Rightarrow> 'v"
    and put :: "char \<Rightarrow> 'v \<Rightarrow> 'v"
  assumes sputc_law: "sputc (char_code ch) s = (r, s') \<Longrightarrow>
    r = char_code ch \<and> seen s' = put ch (seen s) \<or> r = EOF \<and> seen s' = seen s"

text \<open>\<^verbatim>\<open>xsputn\<close>, as \<^verbatim>\<open>streambuf\<close> defines it: the characters one by one, up to the first that is refused.\<close>

fun xsputn :: "(int \<Rightarrow> 's \<Rightarrow> int \<times> 's) \<Rightarrow> string \<Rightarrow> 's \<Rightarrow> nat \<times> 's" where
  "xsputn sputc [] s = (0, s)"
| "xsputn sputc (ch # str) s =
     (case sputc (char_code ch) s of (r, s1) \<Rightarrow>
        if r = EOF then (0, s1) else (case xsputn sputc str s1 of (n, s2) \<Rightarrow> (Suc n, s2)))"

context stream_buffer begin

lemma xsputn_prefix: "xsputn sputc str s = (n, s') \<Longrightarrow> n \<le> length str \<and> seen s' = fold put (take n str) (seen s)"
proof (induction str arbitrary: s n)
  case (Cons ch str)
  obtain r s1 where "sputc (char_code ch) s = (r, s1)"
    by fastforce
  with sputc_law [OF this] Cons show ?case
    by (auto split: prod.splits if_splits)
qed simp

end

section \<open>\<^verbatim>\<open>TeeBuf\<close>\<close>

definition tee_overflow ::
  "(int \<Rightarrow> 's \<Rightarrow> int \<times> 's) \<Rightarrow> (int \<Rightarrow> 't \<Rightarrow> int \<times> 't) \<Rightarrow> int \<Rightarrow> 's \<times> 't \<Rightarrow> int \<times> 's \<times> 't" where
  "tee_overflow sputc1 sputc2 c = (\<lambda>(sb1, sb2).
     if c = EOF then (if EOF = 0 then 1 else 0, sb1, sb2)
     else (let (r1, sb1') = sputc1 c sb1; (r2, sb2') = sputc2 c sb2
           in (if r1 = EOF \<or> r2 = EOF then EOF else c, sb1', sb2')))"

text \<open>\<^verbatim>\<open>sync\<close>: both buffers are asked, whatever the first of them says.\<close>

definition tee_sync ::
  "('s \<Rightarrow> int \<times> 's) \<Rightarrow> ('t \<Rightarrow> int \<times> 't) \<Rightarrow> 's \<times> 't \<Rightarrow> int \<times> 's \<times> 't" where
  "tee_sync pubsync1 pubsync2 = (\<lambda>(sb1, sb2).
     (let (r1, sb1') = pubsync1 sb1; (r2, sb2') = pubsync2 sb2
      in (if r1 = 0 \<and> r2 = 0 then 0 else - 1, sb1', sb2')))"

text \<open>What \<^verbatim>\<open>operator<<\<close> does to a stream, which is bad or not, and its buffer.\<close>

definition insert_text :: "(int \<Rightarrow> 's \<Rightarrow> int \<times> 's) \<Rightarrow> string \<Rightarrow> bool \<times> 's \<Rightarrow> bool \<times> 's" where
  "insert_text sputc str = (\<lambda>(bad, s).
     if bad then (bad, s) else (case xsputn sputc str s of (n, s1) \<Rightarrow> (n \<noteq> length str, s1)))"

lemma insert_text_good: "xsputn sputc str s = (n, s1) \<Longrightarrow> insert_text sputc str (False, s) = (n \<noteq> length str, s1)"
  by (simp add: insert_text_def)

lemma bad_stream: "fold (insert_text sputc) strs (True, s) = (True, s)"
  by (induction strs) (simp_all add: insert_text_def)

text \<open>
  The tee of two buffers: both get the same text up to the first character that one of them refuses,
  and that character too if the other takes it.
\<close>

locale tee =
  first: stream_buffer sputc1 seen1 put1 + second: stream_buffer sputc2 seen2 put2
  for sputc1 :: "int \<Rightarrow> 's \<Rightarrow> int \<times> 's" and seen1 :: "'s \<Rightarrow> 'v" and put1 :: "char \<Rightarrow> 'v \<Rightarrow> 'v"
    and sputc2 :: "int \<Rightarrow> 't \<Rightarrow> int \<times> 't" and seen2 :: "'t \<Rightarrow> 'w" and put2 :: "char \<Rightarrow> 'w \<Rightarrow> 'w"
begin

lemma tee_char:
  assumes "tee_overflow sputc1 sputc2 (char_code ch) (s1, s2) = (r, s1', s2')"
  obtains "r = char_code ch" "seen1 s1' = put1 ch (seen1 s1)" "seen2 s2' = put2 ch (seen2 s2)"
  | "r = EOF" "seen1 s1' = put1 ch (seen1 s1)" "seen2 s2' = seen2 s2"
  | "r = EOF" "seen1 s1' = seen1 s1" "seen2 s2' = put2 ch (seen2 s2)"
  | "r = EOF" "seen1 s1' = seen1 s1" "seen2 s2' = seen2 s2"
proof -
  obtain r1 r2 where s: "sputc1 (char_code ch) s1 = (r1, s1')" "sputc2 (char_code ch) s2 = (r2, s2')"
      "r = (if r1 = EOF \<or> r2 = EOF then EOF else char_code ch)"
    using assms by (auto simp: tee_overflow_def Let_def split: prod.splits)
  then show thesis
    using first.sputc_law [OF s(1)] second.sputc_law [OF s(2)] that by force
qed

lemma tee_text:
  "xsputn (tee_overflow sputc1 sputc2) str (s1, s2) = (n, s1', s2') \<Longrightarrow>
   \<exists>i j. n \<le> i \<and> n \<le> j \<and> i \<le> Suc n \<and> j \<le> Suc n \<and> i \<le> length str \<and> j \<le> length str \<and>
     seen1 s1' = fold put1 (take i str) (seen1 s1) \<and> seen2 s2' = fold put2 (take j str) (seen2 s2)"
proof (induction str arbitrary: s1 s2 n)
  case (Cons ch str)
  obtain r t1 t2 where t: "tee_overflow sputc1 sputc2 (char_code ch) (s1, s2) = (r, t1, t2)"
    by (metis prod_cases3)
  from tee_char [OF this] show ?case
  proof cases
    case 1
    then obtain k where k: "n = Suc k" "xsputn (tee_overflow sputc1 sputc2) str (t1, t2) = (k, s1', s2')"
      using Cons.prems t by (auto split: prod.splits)
    from Cons.IH [OF k(2)] obtain i j where "k \<le> i" "k \<le> j" "i \<le> Suc k" "j \<le> Suc k" "i \<le> length str" "j \<le> length str"
      "seen1 s1' = fold put1 (take i str) (seen1 t1)" "seen2 s2' = fold put2 (take j str) (seen2 t2)"
      by blast
    with k(1) 1(2,3) show ?thesis
      by (intro exI [of _ "Suc i"] exI [of _ "Suc j"]) simp
  next
    case 2
    then show ?thesis
      using Cons.prems t by (intro exI [of _ 1] exI [of _ 0]) auto
  next
    case 3
    then show ?thesis
      using Cons.prems t by (intro exI [of _ 0] exI [of _ 1]) auto
  next
    case 4
    then show ?thesis
      using Cons.prems t by (intro exI [of _ 0] exI [of _ 0]) auto
  qed
qed simp

text \<open>
  Output to a stream: when not all of a text has been taken the stream is bad, and a bad stream
  takes nothing any more. That is what is left of a series of texts.
\<close>

lemma tee_series:
  "fold (insert_text (tee_overflow sputc1 sputc2)) strs (False, s1, s2) = (bad, s1', s2') \<Longrightarrow>
   \<exists>i j. i \<le> Suc j \<and> j \<le> Suc i \<and> i \<le> length (concat strs) \<and> j \<le> length (concat strs) \<and>
     seen1 s1' = fold put1 (take i (concat strs)) (seen1 s1) \<and> seen2 s2' = fold put2 (take j (concat strs)) (seen2 s2) \<and>
     (\<not> bad \<longrightarrow> i = length (concat strs) \<and> j = length (concat strs))"
proof (induction strs arbitrary: s1 s2)
  case (Cons str strs)
  obtain n t1 t2 where t: "xsputn (tee_overflow sputc1 sputc2) str (s1, s2) = (n, t1, t2)"
    by (metis prod_cases3)
  from tee_text [OF this] obtain i j where ij: "n \<le> i" "n \<le> j" "i \<le> Suc n" "j \<le> Suc n" "i \<le> length str" "j \<le> length str"
      "seen1 t1 = fold put1 (take i str) (seen1 s1)" "seen2 t2 = fold put2 (take j str) (seen2 s2)"
    by blast
  show ?case
  proof (cases "n = length str")
    case True
    then have all: "i = length str" "j = length str"
      using ij by simp_all
    have "fold (insert_text (tee_overflow sputc1 sputc2)) strs (False, t1, t2) = (bad, s1', s2')"
      using Cons.prems insert_text_good [OF t] True by simp
    from Cons.IH [OF this] obtain k l where "k \<le> Suc l" "l \<le> Suc k" "k \<le> length (concat strs)" "l \<le> length (concat strs)"
      "seen1 s1' = fold put1 (take k (concat strs)) (seen1 t1)" "seen2 s2' = fold put2 (take l (concat strs)) (seen2 t2)"
      "\<not> bad \<longrightarrow> k = length (concat strs) \<and> l = length (concat strs)"
      by blast
    then show ?thesis
      using ij(7,8) all by (intro exI [of _ "length str + k"] exI [of _ "length str + l"]) simp
  next
    case False
    then have "bad" "s1' = t1" "s2' = t2"
      using Cons.prems insert_text_good [OF t] by (simp_all add: bad_stream)
    then show ?thesis
      using ij by (intro exI [of _ i] exI [of _ j]) simp
  qed
qed simp

end

section \<open>The screen and the file\<close>

text \<open>A device: for each character to come, whether it is taken (all of them after that), and what it shows.\<close>

definition device_sputc :: "(char \<Rightarrow> 'v \<Rightarrow> 'v) \<Rightarrow> int \<Rightarrow> bool list \<times> 'v \<Rightarrow> int \<times> bool list \<times> 'v" where
  "device_sputc put c = (\<lambda>(fates, v).
     case fates of
       [] \<Rightarrow> (c, [], put (char_of (nat c)) v)
     | ok # fs \<Rightarrow> if ok then (c, fs, put (char_of (nat c)) v) else (EOF, fs, v))"

lemma device_law: "stream_buffer (device_sputc put) snd put"
  by unfold_locales (auto simp: device_sputc_def char_code_def split: list.splits if_splits)

definition screen_put :: "char \<Rightarrow> string \<Rightarrow> string" where
  "screen_put ch screen = screen @ [ch]"

definition file_put :: "char \<Rightarrow> LogFile \<Rightarrow> LogFile" where
  "file_put ch f = put_text [ch] f"

interpretation log_screen: stream_buffer "device_sputc screen_put" snd screen_put
  by (rule device_law)

interpretation log_file: stream_buffer "device_sputc file_put" snd file_put
  by (rule device_law)

interpretation log_tee: tee "device_sputc screen_put" snd screen_put "device_sputc file_put" snd file_put
  by unfold_locales

lemma screen_text: "fold screen_put str v = v @ str"
  by (induction str arbitrary: v) (simp_all add: screen_put_def)

text \<open>Characters one by one are the text, in a file whose position is inside of it.\<close>

lemma put_text_append:
  assumes "lf_pos f \<le> length (lf_text f)"
  shows "put_text b (put_text a f) = put_text (a @ b) f" "lf_pos (put_text a f) \<le> length (lf_text (put_text a f))"
  using assms by (simp_all add: put_text_def min_def ac_simps)

lemma file_text: "lf_pos f \<le> length (lf_text f) \<Longrightarrow> fold file_put str f = put_text str f"
proof (induction str arbitrary: f)
  case (Cons ch str)
  then show ?case
    using put_text_append(1) [of f str "[ch]"] put_text_append(2) [of f "[ch]"] by (simp add: file_put_def)
qed (simp add: put_text_def)

text \<open>\<^verbatim>\<open>TeeStream(std::cout, *m_logStream)\<close>: whether it is bad, the screen and the file.\<close>

type_synonym TeeStream = "bool \<times> (bool list \<times> string) \<times> (bool list \<times> LogFile)"

definition tee_insert :: "string \<Rightarrow> TeeStream \<Rightarrow> TeeStream" where
  "tee_insert = insert_text (tee_overflow (device_sputc screen_put) (device_sputc file_put))"

text \<open>While nothing fails the stream does what \<open>print_to\<close> says.\<close>

lemma xsputn_device: "xsputn (tee_overflow (device_sputc screen_put) (device_sputc file_put)) str (([], v), ([], f)) =
    (length str, ([], fold screen_put str v), ([], fold file_put str f))"
  by (induction str arbitrary: v f) (simp_all add: tee_overflow_def device_sputc_def Let_def char_code_def EOF_def)

lemma print_to_tee:
  assumes "m_onScreen l" "lf_pos (m_logStream l) \<le> length (lf_text (m_logStream l))"
  shows "tee_insert str (False, ([], cout l), ([], m_logStream l)) =
    (False, ([], cout (print_to To_Log str l)), ([], m_logStream (print_to To_Log str l)))"
  using assms by (simp add: tee_insert_def insert_text_good [OF xsputn_device] screen_text file_text print_to_def)

text \<open>
  C16: the log on the screen and in the file. Whatever the two devices take or refuse, both get
  the beginning of what is logged, up to the same place but for one character; all of it if nothing
  was refused. Once one of them has refused a character the other gets nothing any more either: a
  server whose terminal is gone no longer logs to its file.
\<close>

theorem screen_lost:
  assumes "lf_pos f \<le> length (lf_text f)"
    and "fold tee_insert strs (False, (fates1, screen), (fates2, f)) = (bad, (fates1', screen'), (fates2', f'))"
  shows "\<exists>i j. i \<le> Suc j \<and> j \<le> Suc i \<and> screen' = screen @ take i (concat strs) \<and>
    f' = put_text (take j (concat strs)) f \<and>
    (if bad then \<forall>more. fold tee_insert (strs @ more) (False, (fates1, screen), (fates2, f)) =
         (True, (fates1', screen'), (fates2', f'))
     else i = length (concat strs) \<and> j = length (concat strs))"
proof -
  obtain i j where "i \<le> Suc j" "j \<le> Suc i" "screen' = fold screen_put (take i (concat strs)) screen"
    "f' = fold file_put (take j (concat strs)) f" "\<not> bad \<longrightarrow> i = length (concat strs) \<and> j = length (concat strs)"
    using log_tee.tee_series [OF assms(2) [unfolded tee_insert_def]] by auto
  moreover have "bad \<Longrightarrow> fold tee_insert (strs @ more) (False, (fates1, screen), (fates2, f)) =
      (True, (fates1', screen'), (fates2', f'))" for more
    using assms(2) by (simp add: tee_insert_def bad_stream)
  ultimately show ?thesis
    using assms(1) by (intro exI [of _ i] exI [of _ j]) (simp add: screen_text file_text)
qed

theorem screen_lost_witness:
  "\<exists>f'. fold tee_insert [''ab'', ''cd'', ''ef''] (False, ([True, True, True, False], []), ([], open_file False)) =
      (True, ([], ''abc''), ([], f')) \<and> f' = put_text ''abcd'' (open_file False) \<and>
    fold tee_insert ([''ab'', ''cd'', ''ef''] @ [''gh'']) (False, ([True, True, True, False], []), ([], open_file False)) =
      (True, ([], ''abc''), ([], f'))"
proof -
  let ?f = "put_text ''abcd'' (open_file False)"
  have "fold tee_insert [''ab'', ''cd'', ''ef''] (False, ([True, True, True, False], []), ([], open_file False)) =
      (True, ([], ''abc''), ([], ?f))"
    by code_simp
  note run = this
  have "lf_pos (open_file False) \<le> length (lf_text (open_file False))"
    by (simp add: open_file_def)
  from screen_lost [OF this run] have "\<forall>more. fold tee_insert ([''ab'', ''cd'', ''ef''] @ more)
      (False, ([True, True, True, False], []), ([], open_file False)) = (True, ([], ''abc''), ([], ?f))"
    by (elim exE conjE) (subst (asm) if_True, assumption)
  then show ?thesis
    using run by blast
qed

end
