(* ===== verification/Client_Log.thy ===== *)
theory Client_Log
  imports Tee_Stream
begin

text \<open>
  The log of the client (\<^verbatim>\<open>client/log.cpp\<close>, \<^verbatim>\<open>log_init\<close> of \<^verbatim>\<open>client/shared_library.cpp\<close>): one file that
  is not limited, levels switched by the options, and a stream on screen and file of its own, which
  is shown to do what that of the server does.
\<close>

section \<open>Levels and streams\<close>

datatype ClientLevel = C_ENV | C_ERR | C_SPACK | C_RPACK | C_SDATA | C_RDATA | C_Debug

fun client_level_code :: "ClientLevel \<Rightarrow> int" where
  "client_level_code C_ENV = 0"
| "client_level_code C_ERR = 1"
| "client_level_code C_SPACK = 2"
| "client_level_code C_RPACK = 3"
| "client_level_code C_SDATA = 4"
| "client_level_code C_RDATA = 5"
| "client_level_code C_Debug = 6"

text \<open>The file is appended to; \<open>cl_tee\<close> is set when \<^verbatim>\<open>m_logStream\<close> is the stream on both.\<close>

record ClientLog =
  cl_level :: ClientLevel
  cl_env :: "bool list"
  cl_text :: string
  cl_tee :: bool
  cl_screen :: string

text \<open>\<^verbatim>\<open>getStream\<close> with a level: the stream of the log, or that on \<^verbatim>\<open>/dev/null\<close>.\<close>

definition client_level_on :: "ClientLog \<Rightarrow> ClientLevel \<Rightarrow> bool" where
  "client_level_on l level =
     (if level = C_Debug then \<not> client_level_code level > client_level_code (cl_level l)
      else cl_env l ! nat (client_level_code level))"

text \<open>Output to the stream of the log, which nothing refuses.\<close>

definition client_put :: "string \<Rightarrow> ClientLog \<Rightarrow> ClientLog" where
  "client_put txt l = l\<lparr>cl_text := cl_text l @ txt, cl_screen := (if cl_tee l then cl_screen l @ txt else cl_screen l)\<rparr>"

definition client_log :: "ClientLevel \<Rightarrow> string \<Rightarrow> ClientLog \<Rightarrow> ClientLog" where
  "client_log level txt l = (if client_level_on l level then client_put txt l else l)"

section \<open>The start of the log\<close>

text \<open>\<open>held\<close> is what the file that has been opened holds.\<close>

definition setLogStream :: "string \<Rightarrow> ClientLog \<Rightarrow> ClientLog" where
  "setLogStream held l = l\<lparr>cl_text := held, cl_tee := False\<rparr>"

definition client_setLevel :: "ClientLevel \<Rightarrow> ClientLog \<Rightarrow> ClientLog" where
  "client_setLevel level l = l\<lparr>cl_level := level\<rparr>"

definition client_getLevel :: "ClientLog \<Rightarrow> ClientLevel" where
  "client_getLevel l = cl_level l"

definition setEnv :: "bool list \<Rightarrow> ClientLog \<Rightarrow> ClientLog" where
  "setEnv log_env l = l\<lparr>cl_env := map ((!) log_env) [0..<6]\<rparr>"

definition setOnScreen :: "bool \<Rightarrow> ClientLog \<Rightarrow> ClientLog" where
  "setOnScreen on_screen l = (if on_screen then l\<lparr>cl_tee := True\<rparr> else l)"

text \<open>\<open>old\<close> is what the file held before; \<open>can_open\<close>, whether it can be opened.\<close>

definition client_log_init ::
  "bool \<Rightarrow> bool \<Rightarrow> string \<Rightarrow> ClientLevel \<Rightarrow> bool list \<Rightarrow> bool \<Rightarrow> bool \<Rightarrow> ClientLog \<Rightarrow> int \<times> ClientLog" where
  "client_log_init already_open can_open old level log_env on_screen is_trunc l =
     (if already_open then (- 1, l)
      else if \<not> can_open then (- 2, l)
      else (let l1 = setLogStream (if is_trunc then [] else old) l;
                l2 = client_setLevel level l1;
                l3 = setEnv log_env l2
            in (0, setOnScreen on_screen l3)))"

text \<open>
  The level the program starts with is below \<^verbatim>\<open>Debug\<close>, and nothing changes it: lines of that level are
  never written. Each of the others is governed by its own switch.
\<close>

lemma debug_never_logged:
  assumes "client_log_init already can_open old C_RDATA log_env on_screen is_trunc l = (0, l')"
  shows "client_log C_Debug txt l' = l'"
  using assms by (auto simp: client_log_init_def setLogStream_def client_setLevel_def setEnv_def setOnScreen_def
      client_log_def client_level_on_def Let_def split: if_splits)

lemma client_level_index: "level \<noteq> C_Debug \<Longrightarrow> nat (client_level_code level) < 6"
  by (cases level) simp_all

lemma level_switch:
  assumes "client_log_init already can_open old lv log_env on_screen is_trunc l = (0, l')" "level \<noteq> C_Debug"
  shows "client_log level txt l' = (if log_env ! nat (client_level_code level) then client_put txt l' else l')"
proof -
  have "cl_env l' = map ((!) log_env) [0..<6]"
    using assms(1) by (auto simp: client_log_init_def setLogStream_def client_setLevel_def setEnv_def setOnScreen_def
        Let_def split: if_splits)
  then show ?thesis
    using client_level_index [OF assms(2)] assms(2) by (simp add: client_log_def client_level_on_def)
qed

section \<open>The stream on screen and file\<close>

definition client_overflow ::
  "(int \<Rightarrow> 's \<Rightarrow> int \<times> 's) \<Rightarrow> (int \<Rightarrow> 't \<Rightarrow> int \<times> 't) \<Rightarrow> int \<Rightarrow> 's \<times> 't \<Rightarrow> int \<times> 's \<times> 't" where
  "client_overflow sputc1 sputc2 c = (\<lambda>(sb1, sb2).
     if c = EOF then (if EOF = 0 then 1 else 0, sb1, sb2)
     else (case sputc1 c sb1 of (r1, sb1') \<Rightarrow> case sputc2 c sb2 of (r2, sb2') \<Rightarrow>
             (if r1 = EOF \<or> r2 = EOF then EOF else c, sb1', sb2')))"

definition client_sync ::
  "('s \<Rightarrow> int \<times> 's) \<Rightarrow> ('t \<Rightarrow> int \<times> 't) \<Rightarrow> 's \<times> 't \<Rightarrow> int \<times> 's \<times> 't" where
  "client_sync pubsync1 pubsync2 = (\<lambda>(sb1, sb2).
     case pubsync1 sb1 of (r1, sb1') \<Rightarrow> case pubsync2 sb2 of (r2, sb2') \<Rightarrow>
       (if r1 = 0 \<and> r2 = 0 then 0 else - 1, sb1', sb2'))"

lemma same_tee: "client_overflow = tee_overflow" "client_sync = tee_sync"
  by (simp_all add: fun_eq_iff client_overflow_def tee_overflow_def client_sync_def tee_sync_def Let_def case_prod_unfold)

text \<open>The file of the client is at its end, always: it grows as the screen does.\<close>

interpretation client_tee: tee "device_sputc screen_put" snd screen_put "device_sputc screen_put" snd screen_put
  by unfold_locales

definition client_tee_insert ::
  "string \<Rightarrow> bool \<times> (bool list \<times> string) \<times> (bool list \<times> string) \<Rightarrow> bool \<times> (bool list \<times> string) \<times> (bool list \<times> string)" where
  "client_tee_insert = insert_text (client_overflow (device_sputc screen_put) (device_sputc screen_put))"

lemma client_put_tee:
  assumes "cl_tee l"
  shows "client_tee_insert str (False, ([], cl_screen l), ([], cl_text l)) =
    (False, ([], cl_screen (client_put str l)), ([], cl_text (client_put str l)))"
proof -
  have "xsputn (tee_overflow (device_sputc screen_put) (device_sputc screen_put)) str (([], v), ([], f)) =
      (length str, ([], v @ str), ([], f @ str))" for v f
    by (induction str arbitrary: v f) (simp_all add: tee_overflow_def device_sputc_def char_code_def EOF_def screen_put_def)
  then show ?thesis
    using assms by (simp add: client_tee_insert_def same_tee insert_text_good client_put_def)
qed

text \<open>
  What \<open>screen_lost\<close> says of the server holds of the client: when its terminal is gone, its file ends
  as well, at the same place but for one character.
\<close>

lemma client_screen_lost:
  assumes "fold client_tee_insert strs (False, (fates1, screen), (fates2, f)) = (bad, (fates1', screen'), (fates2', f'))"
  shows "\<exists>i j. i \<le> Suc j \<and> j \<le> Suc i \<and> screen' = screen @ take i (concat strs) \<and> f' = f @ take j (concat strs) \<and>
    (\<not> bad \<longrightarrow> i = length (concat strs) \<and> j = length (concat strs))"
  using client_tee.tee_series [OF assms [unfolded client_tee_insert_def same_tee]] unfolding screen_text snd_conv by blast

section \<open>The head of a line\<close>

definition client_getTime :: "(int \<Rightarrow> Tm) \<Rightarrow> int \<Rightarrow> string" where
  "client_getTime localtime now =
     (let t = localtime now
      in dec_int (tm_year t + 1900) @ ''-'' @ two_digits (tm_mon t + 1) @ ''-'' @ two_digits (tm_mday t) @ '' '' @
         two_digits (tm_hour t) @ '':'' @ two_digits (tm_min t) @ '':'' @ two_digits (tm_sec t))"

definition client_head :: "(int \<Rightarrow> Tm) \<Rightarrow> int \<Rightarrow> nat \<Rightarrow> string" where
  "client_head localtime now pid = client_getTime localtime now @ '' ['' @ dec pid @ ''] ''"

lemma same_head: "client_head = line_head"
  by (simp add: fun_eq_iff client_head_def line_head_def client_getTime_def getTime_def)

end
