(* ===== verification/Client_Start.thy ===== *)
theory Client_Start
  imports Client_Turns Client_Log
begin

text \<open>
  The client around the conversation: the options \<^verbatim>\<open>main\<close> of \<^verbatim>\<open>client/ts.cpp\<close> reads, with the log it
  starts, and the processes of \<^verbatim>\<open>client/client_lib.cpp\<close> that connect until a conversation has succeeded.
\<close>

section \<open>\<^verbatim>\<open>main\<close>\<close>

definition debug_key :: string where
  "debug_key = gbk [68, 69, 66, 85, 71, 201, 232, 214, 195]"

definition debug_screen_key :: string where
  "debug_screen_key = gbk [68, 69, 66, 85, 71, 198, 193, 196, 187, 207, 212, 202, 190]"

definition delete_log_key :: string where
  "delete_log_key = gbk [201, 190, 179, 253, 200, 213, 214, 190, 206, 196, 188, 254]"

definition port_key :: string where
  "port_key = gbk [182, 203, 191, 218, 186, 197]"

text \<open>
  \<^verbatim>\<open>bool log_env[6]\<close> is filled from a string of any length: a longer one writes behind it, a shorter
  one leaves elements that are read later.
\<close>

definition fill_env :: "string \<Rightarrow> fault + bool list" where
  "fill_env s_env = (if length s_env > 6 then Inl Out_Of_Bounds else Inr (map (\<lambda>c. c = CHR ''1'') s_env))"

definition whole_env :: "bool list \<Rightarrow> fault + bool list" where
  "whole_env log_env = (if length log_env < 6 then Inl Uninitialised_Read else Inr log_env)"

text \<open>
  The result is the exit code -1, or the options and the two numbers to go on with. \<open>args\<close> are the
  arguments without the name of the program.
\<close>

definition client_main ::
  "string \<Rightarrow> string list \<Rightarrow> bool \<Rightarrow> string \<Rightarrow> ClientLog \<Rightarrow> fault + (Options \<times> int \<times> int \<times> ClientLog) option" where
  "client_main ifs args can_open old l =
     (let opt = client_parse_arguments ifs True in
      and_then (option_at opt debug_key) (\<lambda>s_env.
      and_then (fill_env s_env) (\<lambda>log_env.
      and_then (option_at opt debug_screen_key) (\<lambda>screen.
      and_then (option_at opt delete_log_key) (\<lambda>trunc.
      and_then (whole_env log_env) (\<lambda>env.
      (let (r, l1) = client_log_init False can_open old C_RDATA env (screen = ''1'') (trunc = ''1'') l in
       if r < 0 then Inr None
       else (case args of
           a1 # a2 # _ \<Rightarrow>
             and_then (stoi a1) (\<lambda>begin_dev_id.
             and_then (stoi a2) (\<lambda>n_devid. Inr (Some (opt, begin_dev_id, n_devid, l1))))
         | _ \<Rightarrow> Inr None))))))))"

section \<open>Connections\<close>

text \<open>
  What becomes of an attempt: no socket, no connection, or a connection with what is going to be
  received and what is going to become of the calls of \<^verbatim>\<open>send\<close>.
\<close>

datatype attempt = No_Socket | Refused | Connected "recv_result list" "(nat \<Rightarrow> int) list"

text \<open>
  \<^verbatim>\<open>create_connection\<close> returns a negative number in the first two cases. It is used as a descriptor
  all the same; every call on it returns -1 (four of each are more than a conversation makes then).
\<close>

definition create_connection :: "Options \<Rightarrow> attempt \<Rightarrow> world \<Rightarrow> fault + int \<times> world" where
  "create_connection opts a w =
     and_then (stoi_at opts port_key) (\<lambda>port.
     and_then (option_at opts server_ip_key) (\<lambda>ip.
     (let broken = w\<lparr>w_recv := replicate 4 Failed, w_send := replicate 4 (\<lambda>_. - 1)\<rparr>
      in case a of
           No_Socket \<Rightarrow> Inr (- 2, broken)
         | Refused \<Rightarrow> Inr (- 3, broken)
         | Connected rs ss \<Rightarrow> Inr (3, w\<lparr>w_recv := rs, w_send := ss\<rparr>))))"

text \<open>The \<^verbatim>\<open>do\<close> loop of a child; an attempt that is not in the list has not come back yet.\<close>

fun connect_loop :: "Options \<Rightarrow> attempt list \<Rightarrow> TsClient \<Rightarrow> world \<Rightarrow> fault + TsClient \<times> world" where
  "connect_loop opts [] c w = Inl Waiting"
| "connect_loop opts (a # as) c w =
     and_then (create_connection opts a w) (\<lambda>(socketfd, w1).
     and_then (client_communicate opts c w1) (\<lambda>(r, c1, w2).
     if r \<noteq> 0 then connect_loop opts as c1 w2 else Inr (c1, w2)))"

text \<open>The line a child that has succeeded writes into the spread sheet \<^verbatim>\<open>ts_count.xls\<close>.\<close>

definition xls_line :: "(int \<Rightarrow> Tm) \<Rightarrow> TsClient \<Rightarrow> world \<Rightarrow> string" where
  "xls_line localtime c w =
     (let (now, w1) = call_time w; t = localtime (uint now); tab = [char_of (9 :: nat)]
      in two_digits (tm_hour t) @ '':'' @ two_digits (tm_min t) @ '':'' @ two_digits (tm_sec t) @ tab @
         dec (unat (dev_instID (ts_dev c))) @ tab @ ''1'' @ tab @ dec (unat (terCount c)) @ tab @
         dec (unat (screenCount c)) @ [char_of (10 :: nat)])"

definition child_process ::
  "(int \<Rightarrow> Tm) \<Rightarrow> Options \<Rightarrow> int \<Rightarrow> int \<Rightarrow> attempt list \<Rightarrow> TsClient \<Rightarrow> world \<Rightarrow> fault + string \<times> TsClient \<times> world" where
  "child_process localtime opts begin_dev_id i as u w =
     and_then (as_int (begin_dev_id + i)) (\<lambda>devid.
     (let (client, w1) = new_ts_client u devid w
      in and_then (connect_loop opts as client w1) (\<lambda>(c2, w2). Inr (xls_line localtime c2 w2, c2, w2))))"

text \<open>
  The parent. \<open>forks\<close> is what becomes of each \<^verbatim>\<open>fork\<close>; a \<^verbatim>\<open>waitpid\<close> takes one of the children that
  are left, or returns at once when there are none. A failure ends the parent, and with it, because
  of \<^verbatim>\<open>PR_SET_PDEATHSIG\<close>, every child.
\<close>

datatype fork_result = Fork_Failed | Child

datatype parent_end = Exited int | Returned int nat

definition kNumProcess :: int where
  "kNumProcess = 100"

definition waitpid_any :: "nat \<Rightarrow> nat" where
  "waitpid_any children = children - 1"

fun fork_loop :: "int \<Rightarrow> fork_result list \<Rightarrow> nat \<Rightarrow> nat option" where
  "fork_loop i [] children = Some children"
| "fork_loop i (Fork_Failed # forks) children = None"
| "fork_loop i (Child # forks) children =
     fork_loop (i + 1) forks (if i \<ge> kNumProcess then waitpid_any (children + 1) else children + 1)"

definition loop_client_fork :: "int \<Rightarrow> fork_result list \<Rightarrow> fault + parent_end" where
  "loop_client_fork n_devid forks =
     (case fork_loop 0 (take (nat n_devid) forks) 0 of
       None \<Rightarrow> Inr (Exited (- 20))
     | Some children \<Rightarrow>
         and_then (as_int (n_devid - kNumProcess)) (\<lambda>less.
         Inr (Returned 0 ((waitpid_any ^^ nat (max less n_devid)) children))))"

lemma waitpid_all: "(waitpid_any ^^ n) k = k - n"
  by (induction n) (simp_all add: waitpid_any_def)

lemma fork_loop_children:
  "0 \<le> i \<Longrightarrow> int n = min i kNumProcess \<Longrightarrow>
   fork_loop i (replicate k Child) n = Some (nat (min (i + int k) kNumProcess))"
proof (induction k arbitrary: i n)
  case (Suc k)
  show ?case
  proof (cases "i \<ge> kNumProcess")
    case True
    then show ?thesis
      using Suc.IH [of "i + 1" n] Suc.prems by (simp add: waitpid_any_def add.assoc add.commute)
  next
    case False
    then show ?thesis
      using Suc.IH [of "i + 1" "Suc n"] Suc.prems by (simp add: add.assoc add.commute)
  qed
qed (auto simp: nat_eq_iff)

text \<open>
  At most 100 children are left after any round, and none when the function returns; if a fork fails
  it does not.
\<close>

lemma children_waited_for:
  assumes "0 \<le> n_devid" "n_devid < 2 ^ 31"
  shows "loop_client_fork n_devid (replicate (nat n_devid) Child) = Inr (Returned 0 0)"
proof -
  have "fork_loop 0 (take (nat n_devid) (replicate (nat n_devid) Child)) 0 = Some (nat (min n_devid kNumProcess))"
    using fork_loop_children [of 0 0 "nat n_devid"] assms by (simp add: kNumProcess_def)
  then show ?thesis
    using assms by (simp add: loop_client_fork_def as_int_def waitpid_all kNumProcess_def)
qed

lemma fork_failure:
  "loop_client_fork n_devid (replicate k Child @ Fork_Failed # forks) = Inr (Exited (- 20))" if "int k < n_devid"
proof -
  have "fork_loop i (replicate k Child @ Fork_Failed # fs) n = None" for i fs n
    by (induction k arbitrary: i n) simp_all
  moreover have "take (nat n_devid) (replicate k Child @ Fork_Failed # forks) =
      replicate k Child @ Fork_Failed # take (nat n_devid - k - 1) forks"
  proof -
    have "nat n_devid - k = Suc (nat n_devid - k - 1)" "k < nat n_devid"
      using that by linarith+
    then show ?thesis
      by simp
  qed
  ultimately show ?thesis
    by (simp add: loop_client_fork_def)
qed

text \<open>
  The client that connects again still has the last message of the old connection. If that was End,
  and only the last answer has failed to get through, a new connection on which nothing comes counts
  as a conversation: the answer to End is sent, and the child ends well.
\<close>

theorem stale_end:
  assumes "recv_message c = plain_request 0xff" "able opts 1 c w" "w_recv w = Got [] # rs"
  shows "\<exists>answer c' w'. client_communicate opts c w = Inr (0, c', w') \<and> answers_to 0xff answer \<and>
    w_sent w' = w_sent w @ pieces answer"
proof -
  let ?w = "(seed_by_time w)\<lparr>w_recv := rs\<rparr>"
  have io: "io (seed_by_time w) = io w"
    by simp
  then have "w_recv (seed_by_time w) = Got [] # rs"
    using assms(3) by (simp add: io_def)
  then have recv: "recv_msg c (seed_by_time w) = Inr (False, c, ?w)"
    by (simp add: recv_msg_def call_recv_def)
  have understood: "understood (plain_request 0xff)"
    by (rule understood_plain) (simp add: answerable_def)
  obtain ok c2 where c2: "client_unpack_message opts c ?w = Inr (ok, c2, ?w)"
      "recvPacketType c2 = 0xff" "sendPacketType c2 = 0xff" "ts_dev c2 = ts_dev c"
    using unpack_understood [OF understood assms(1), of opts ?w] by auto
  have "good_surroundings opts ?w" "wf_dev (ts_dev c2)" "0xff \<in> answerable" "willing (Suc 0) ?w" "w_sent ?w = w_sent w"
    using assms(2) io c2(4) good_surroundings_io [OF io, of opts]
    by (simp_all add: able_def answerable_def willing_def io_def good_surroundings_def)
  from answer_sent [OF this(1-4)] this(5) obtain p c3 w3 c4 w4 m where
    "client_pack_message 0xff opts c2 ?w = Inr (p, c3, w3)" "send_msg c3 w3 = Inr (True, c4, w4)" "answers_to 0xff m"
    "w_sent w4 = w_sent w @ pieces m"
    by auto
  with recv c2 show ?thesis
    by (intro exI [of _ m] exI [of _ c4] exI [of _ w4]) (simp add: client_communicate_def communicate_loop.simps)
qed

text \<open>
  C36: the loop that is to connect again after a failure does not get to it when
  the first attempt fails: a client that cannot connect, or whose server closes the connection
  before it has said anything, reads the front of an empty vector.
\<close>

theorem first_attempt_fatal:
  assumes "stoi_at opts port_key = Inr port" "opts server_ip_key = Some ip"
    and "- (2 ^ 31) \<le> begin_dev_id + i" "begin_dev_id + i < 2 ^ 31"
    and "a = No_Socket \<or> a = Refused \<or> a = Connected (Got [] # rs) ss \<or> a = Connected (Failed # rs) ss"
  shows "child_process localtime opts begin_dev_id i (a # as) u w = Inl Empty_Front"
proof -
  let ?c = "fst (new_ts_client u (begin_dev_id + i) w)" and ?w = "snd (new_ts_client u (begin_dev_id + i) w)"
  have c: "recv_message ?c = []"
    by (simp add: new_ts_client_def case_prod_beta)
  obtain fd w1 where w1: "create_connection opts a ?w = Inr (fd, w1)" "\<exists>r. w_recv w1 = Got [] # r \<or> w_recv w1 = Failed # r"
    using assms(1,2,5) by (auto simp: create_connection_def option_at_def Let_def numeral_eq_Suc)
  then have "client_communicate opts ?c w1 = Inl Empty_Front"
    using closed_first [OF c] by blast
  then show ?thesis
    using assms(3,4) w1(1) by (simp add: child_process_def as_int_def case_prod_beta)
qed

definition noon :: Tm where
  "noon = \<lparr>tm_year = 117, tm_mon = 4, tm_mday = 1, tm_hour = 12, tm_min = 0, tm_sec = 0\<rparr>"

theorem first_attempt_fatal_witness:
  "child_process (\<lambda>_. noon) one_of_each 1551713 7 [Refused, Connected [] []] sample_ts counting_world = Inl Empty_Front"
proof -
  have "stoi_at one_of_each port_key = Inr 1"
    by code_simp
  then show ?thesis
    by (rule first_attempt_fatal [where ip = "''1''"]) (simp_all add: one_of_each_def)
qed

end
