(* ===== verification/Stream_Dump.thy ===== *)
theory Stream_Dump
  imports Hex_Dump
begin

text \<open>
  The other two texts of \<^verbatim>\<open>logify_data\<close>: the overload for vectors of \<^verbatim>\<open>server/src/log.cpp\<close> and the
  client's function in \<^verbatim>\<open>client/shared_library.cpp\<close>, with the state the manipulators leave in an output
  stream. They write the manipulators in another order, and the vector's only once a row; the text is
  the same.
\<close>

section \<open>Output streams\<close>

record ostream =
  os_text :: string
  os_width :: nat
  os_fill :: char
  os_hex :: bool
  os_upper :: bool

definition new_stream :: ostream where
  "new_stream = \<lparr>os_text = [], os_width = 0, os_fill = CHR '' '', os_hex = False, os_upper = False\<rparr>"

text \<open>Every formatted output is filled up to the width on its left, and resets the width.\<close>

definition put_string :: "string \<Rightarrow> ostream \<Rightarrow> ostream" where
  "put_string s os = os\<lparr>os_text := os_text os @ replicate (os_width os - length s) (os_fill os) @ s, os_width := 0\<rparr>"

definition put_number :: "nat \<Rightarrow> ostream \<Rightarrow> ostream" where
  "put_number n os = put_string (if os_hex os then if os_upper os then upper_hex n else hex n else dec n) os"

definition setw :: "nat \<Rightarrow> ostream \<Rightarrow> ostream" where
  "setw n os = os\<lparr>os_width := n\<rparr>"

definition setfill :: "char \<Rightarrow> ostream \<Rightarrow> ostream" where
  "setfill c os = os\<lparr>os_fill := c\<rparr>"

definition set_hex :: "ostream \<Rightarrow> ostream" where
  "set_hex os = os\<lparr>os_hex := True\<rparr>"

definition set_uppercase :: "ostream \<Rightarrow> ostream" where
  "set_uppercase os = os\<lparr>os_upper := True\<rparr>"

text \<open>The stream \<^verbatim>\<open>ss_word\<close> only ever takes characters, with no width set: it is a string.\<close>

section \<open>The vector's overload\<close>

definition vector_step :: "nat \<Rightarrow> u8 \<Rightarrow> ostream \<times> string \<Rightarrow> ostream \<times> string" where
  "vector_step i b st =
     (let (ss, ss_word) = st;
          (ss, ss_word) =
            (if i mod 16 = 0
             then (let ss = put_string [CHR 0x0A] (put_string ss_word ss);
                       ss = put_string '' '' (set_uppercase ss);
                       ss = put_number i (set_hex (setfill (CHR ''0'') (setw 4 ss)))
                   in (put_string '': '' ss, []))
             else if i mod 8 = 0 then (put_string ''- '' ss, ss_word)
             else (ss, ss_word));
          ss = put_string '' '' (put_number (unat b) (set_hex (setfill (CHR ''0'') (setw 2 ss))))
      in (ss, ss_word @ [shown b]))"

fun vector_loop :: "nat \<Rightarrow> bytes \<Rightarrow> ostream \<times> string \<Rightarrow> ostream \<times> string" where
  "vector_loop i [] st = st"
| "vector_loop i (b # bs) st = vector_loop (i + 1) bs (vector_step i b st)"

definition logify_vector :: "bytes \<Rightarrow> string" where
  "logify_vector message =
     (let (ss, ss_word) = vector_loop 0 message (new_stream, []); i = length message in
      os_text
       (if i mod 16 = 0 then put_string ss_word (setw 0 ss)
        else (let interval = 3 * (16 - i mod 16) + (if i mod 16 > 8 then 0 else 2)
          in put_string ss_word (setw 0 (put_string '' '' (setfill (CHR '' '') (setw interval ss)))))))"

section \<open>The client's function\<close>

definition client_step :: "nat \<Rightarrow> u8 \<Rightarrow> ostream \<times> string \<Rightarrow> ostream \<times> string" where
  "client_step i b st =
     (let (ss, ss_word) = st;
          (ss, ss_word) =
            (if i mod 16 = 0
             then (let ss = put_string [CHR 0x0A] (put_string ss_word ss);
                       ss = put_string '' '' ss;
                       ss = put_number i (set_uppercase (set_hex (setfill (CHR ''0'') (setw 4 ss))))
                   in (put_string '': '' ss, []))
             else if i mod 8 = 0 then (put_string ''- '' ss, ss_word)
             else (ss, ss_word));
          ss = put_string '' '' (put_number (unat b) (set_uppercase (set_hex (setfill (CHR ''0'') (setw 2 ss)))))
      in (ss, ss_word @ [shown b]))"

text \<open>The loop over \<open>i < len\<close>, where \<open>len\<close> is an \<^verbatim>\<open>int\<close>; it must not exceed the array.\<close>

fun client_loop :: "nat \<Rightarrow> bytes \<Rightarrow> ostream \<times> string \<Rightarrow> ostream \<times> string" where
  "client_loop i [] st = st"
| "client_loop i (b # bs) st = client_loop (i + 1) bs (client_step i b st)"

definition client_logify_data :: "bytes \<Rightarrow> int \<Rightarrow> fault + string" where
  "client_logify_data data len =
     (if int (length data) < len then Inl Out_Of_Bounds
      else let (ss, ss_word) = client_loop 0 (take (nat len) data) (new_stream, []); i = nat len in
        Inr (os_text
         (if i mod 16 = 0 then put_string ss_word (setw 0 ss)
          else (let interval = 3 * (16 - i mod 16) + (if i mod 16 > 8 then 0 else 2)
            in put_string ss_word (setw 0 (put_string '' '' (setfill (CHR '' '') (setw interval ss))))))))"

section \<open>The same text\<close>

text \<open>\<open>prints i ss t\<close>: before byte \<open>i\<close> the stream holds \<open>t\<close>, and unless a row begins it prints capitals.\<close>

definition prints :: "nat \<Rightarrow> ostream \<Rightarrow> string \<Rightarrow> bool" where
  "prints i ss t \<longleftrightarrow> os_text ss = t \<and> os_width ss = 0 \<and> (i mod 16 \<noteq> 0 \<longrightarrow> os_upper ss)"

lemmas stream_defs = put_string_def put_number_def setw_def setfill_def set_hex_def set_uppercase_def

lemma vector_step_prints:
  assumes "prints i ss t"
  shows "prints (i + 1) (fst (vector_step i b (ss, w))) (fst (logify_step i b (t, w)))"
    "snd (vector_step i b (ss, w)) = snd (logify_step i b (t, w))"
  using assms
  by (auto simp: prints_def vector_step_def logify_step_def stream_defs Let_def row_head_def cell_def zero_filled_def)

lemma client_step_prints:
  assumes "prints i ss t"
  shows "prints (i + 1) (fst (client_step i b (ss, w))) (fst (logify_step i b (t, w)))"
    "snd (client_step i b (ss, w)) = snd (logify_step i b (t, w))"
  using assms
  by (auto simp: prints_def client_step_def logify_step_def stream_defs Let_def row_head_def cell_def zero_filled_def)

lemma vector_loop_prints:
  "prints i ss t \<Longrightarrow>
     prints (i + length bs) (fst (vector_loop i bs (ss, w))) (fst (logify_loop i bs (t, w))) \<and>
     snd (vector_loop i bs (ss, w)) = snd (logify_loop i bs (t, w))"
proof (induction bs arbitrary: i ss t w)
  case (Cons b bs)
  obtain ss1 w1 t1 where v: "vector_step i b (ss, w) = (ss1, w1)" "logify_step i b (t, w) = (t1, w1)"
    using vector_step_prints(2) [OF Cons.prems, of b w] by (metis prod.collapse)
  then have "prints (i + 1) ss1 t1"
    using vector_step_prints(1) [OF Cons.prems, of b w] by simp
  from Cons.IH [OF this] v show ?case by simp
qed simp

lemma client_loop_prints:
  "prints i ss t \<Longrightarrow>
     prints (i + length bs) (fst (client_loop i bs (ss, w))) (fst (logify_loop i bs (t, w))) \<and>
     snd (client_loop i bs (ss, w)) = snd (logify_loop i bs (t, w))"
proof (induction bs arbitrary: i ss t w)
  case (Cons b bs)
  obtain ss1 w1 t1 where v: "client_step i b (ss, w) = (ss1, w1)" "logify_step i b (t, w) = (t1, w1)"
    using client_step_prints(2) [OF Cons.prems, of b w] by (metis prod.collapse)
  then have "prints (i + 1) ss1 t1"
    using client_step_prints(1) [OF Cons.prems, of b w] by simp
  from Cons.IH [OF this] v show ?case by simp
qed simp

lemma new_stream_prints: "prints 0 new_stream []"
  by (simp add: prints_def new_stream_def)

text \<open>The last lines: the characters of the last row, behind blanks if the row is not complete.\<close>

lemma put_plain: "os_text (put_string w (setw 0 ss)) = os_text ss @ w"
  by (simp add: stream_defs)

lemma put_blanks:
  "0 < n \<Longrightarrow> os_text (put_string '' '' (setfill (CHR '' '') (setw n ss))) = os_text ss @ replicate n CHR '' ''"
  by (cases n) (simp_all add: stream_defs replicate_append_same)

lemma logify_vector_eq: "logify_vector bs = logify_data bs"
  using vector_loop_prints [OF new_stream_prints, of bs "[]"]
  by (simp add: logify_vector_def logify_data_def Let_def prints_def put_plain put_blanks case_prod_beta)

text \<open>
  C18: the three functions named \<^verbatim>\<open>logify_data\<close> print the same text. The client's faults when
  its length exceeds the array, and prints nothing for a length that is not positive.
\<close>

theorem dumps_agree:
  "logify_vector bs = logify_data bs \<and>
   client_logify_data bs len =
     (if int (length bs) < len then Inl Out_Of_Bounds else Inr (logify_data (take (nat len) bs)))"
proof
  show "logify_vector bs = logify_data bs"
    by (rule logify_vector_eq)
  have "nat len = length (take (nat len) bs)" if "\<not> int (length bs) < len"
    using that by simp
  then show "client_logify_data bs len =
      (if int (length bs) < len then Inl Out_Of_Bounds else Inr (logify_data (take (nat len) bs)))"
    using client_loop_prints [OF new_stream_prints, of "take (nat len) bs" "[]"]
    by (simp add: client_logify_data_def logify_data_def Let_def prints_def put_plain put_blanks case_prod_beta)
qed

end
